(* ===== verification/Prelude.thy ===== *)
theory Prelude
  imports Main "HOL-Library.Sublist" "HOL-Library.Word" "HOL-Library.Char_ord"
begin

text \<open>
  What every component shares: the shape of Go results, byte strings, collections of rewrite
  rules, and the generic facts about lists, options and maps the component proofs use.

  A Go \<open>string\<close> is a sequence of bytes, and so is the HOL \<open>string\<close>: a \<open>char\<close> has eight
  bits.  A Go function that returns \<open>(T, error)\<close> is a function into \<open>string + 'a\<close>: \<open>Inl\<close>
  carries the text of the error, \<open>Inr\<close> the value.  Code that can panic returns \<open>'a go\<close>.
\<close>

section \<open>Collections\<close>

named_theorems go_std \<open>computation rules of the Go standard library functions\<close>
named_theorems handler_simps \<open>unfolding rules of HTTP handlers and response writers\<close>
named_theorems db_simps \<open>unfolding rules of the SQL statements\<close>

section \<open>Go results\<close>

type_synonym bytes = string
type_synonym 'a fallible = "string + 'a"

text \<open>A call that returns, or one that panics with a message.\<close>

datatype 'a go = Ret 'a | Panic string

primrec go_map :: "('a \<Rightarrow> 'b) \<Rightarrow> 'a go \<Rightarrow> 'b go" where
  "go_map f (Ret a) = Ret (f a)"
| "go_map f (Panic m) = Panic m"

primrec go_bind :: "'a go \<Rightarrow> ('a \<Rightarrow> 'b go) \<Rightarrow> 'b go" where
  "go_bind (Ret a) k = k a"
| "go_bind (Panic m) k = Panic m"

lemma go_bind_eq_Ret [simp]: "go_bind m k = Ret b \<longleftrightarrow> (\<exists>a. m = Ret a \<and> k a = Ret b)"
  by (cases m) auto

lemma go_map_eq_Ret [simp]: "go_map f m = Ret b \<longleftrightarrow> (\<exists>a. m = Ret a \<and> b = f a)"
  by (cases m) auto

definition is_err :: "'a fallible \<Rightarrow> bool" where
  "is_err r \<longleftrightarrow> (case r of Inl _ \<Rightarrow> True | Inr _ \<Rightarrow> False)"

lemma is_err_simps [simp]: "is_err (Inl e) = True" "is_err (Inr v) = False"
  by (simp_all add: is_err_def)

text \<open>Sequencing of fallible calls: \<open>if err != nil { return err }\<close>.\<close>

definition and_then :: "'a fallible \<Rightarrow> ('a \<Rightarrow> 'b fallible) \<Rightarrow> 'b fallible" where
  "and_then r k = (case r of Inl e \<Rightarrow> Inl e | Inr a \<Rightarrow> k a)"

lemma and_then_simps [simp]: "and_then (Inl e) k = Inl e" "and_then (Inr a) k = k a"
  by (simp_all add: and_then_def)

lemma and_then_eq_Inr: "and_then r k = Inr b \<longleftrightarrow> (\<exists>a. r = Inr a \<and> k a = Inr b)"
  by (cases r) auto

section \<open>Bytes\<close>

abbreviation byte :: "char \<Rightarrow> nat" where
  "byte c \<equiv> of_char c"

lemma byte_char_of: "n < 256 \<Longrightarrow> byte (char_of n) = (n :: nat)"
  by simp

section \<open>Lists and options\<close>

lemma find_Some_in_set: "find P xs = Some x \<Longrightarrow> x \<in> set xs \<and> P x"
  by (auto simp: find_Some_iff)

lemma find_None_all: "find P xs = None \<longleftrightarrow> (\<forall>x \<in> set xs. \<not> P x)"
  by (auto simp: find_None_iff)

lemma find_snoc:
  "find P (xs @ [x])
     = (case find P xs of Some y \<Rightarrow> Some y | None \<Rightarrow> if P x then Some x else None)"
  by (induction xs) auto

lemma distinct_map_filter_nth:
  assumes "\<And>i j. i < j \<Longrightarrow> j < length xs \<Longrightarrow> P (xs ! i) \<Longrightarrow> P (xs ! j) \<Longrightarrow> f (xs ! i) \<noteq> f (xs ! j)"
  shows "distinct (map f (filter P xs))"
  using assms
proof (induction xs)
  case (Cons x xs)
  have "distinct (map f (filter P xs))"
    using Cons.prems [of "Suc _" "Suc _"] by (intro Cons.IH) simp
  moreover have "f x \<noteq> f (xs ! j)" if "P x" "P (xs ! j)" "j < length xs" for j
    using Cons.prems [of 0 "Suc j"] that by simp
  ultimately show ?case by (auto simp: in_set_conv_nth)
qed simp

lemma find_distinct_key:
  "distinct (map f xs) \<Longrightarrow> x \<in> set xs \<Longrightarrow> find (\<lambda>y. f y = f x) xs = Some x"
  by (induction xs) (auto simp: image_iff)

lemma filter_length_mono:
  assumes "\<And>x. x \<in> set xs \<Longrightarrow> P x \<Longrightarrow> Q x"
  shows "length (filter P xs) \<le> length (filter Q xs)"
  using assms by (induction xs) auto

lemma distinct_map_filter_le_1:
  assumes "distinct (map f xs)"
  shows "length (filter (\<lambda>x. f x = k) xs) \<le> 1"
  using assms
proof (induction xs)
  case (Cons x xs)
  then have "f x = k \<Longrightarrow> filter (\<lambda>x. f x = k) xs = []"
    by (auto simp: filter_empty_conv image_iff)
  with Cons show ?case by (cases "f x = k") auto
qed simp

end
