(* ===== verification/Go_Strings.thy ===== *)
theory Go_Strings
  imports Prelude
begin

text \<open>
  The functions of Go's \<open>strings\<close>, \<open>strconv\<close> and \<open>fmt\<close> packages that the source calls, on
  byte strings.  Unicode white space is the UTF-8 encoding of the code points for which
  \<open>unicode.IsSpace\<close> holds.  A pattern of one leading byte and its continuation bytes is found
  at the end of a string by Go's backward rune decoding exactly when it is a suffix, so matching
  byte sequences is what \<open>TrimSpace\<close> does.
\<close>

section \<open>The codec contract\<close>

text \<open>An encoder with a decoder that inverts it on the values satisfying \<open>ok\<close>.\<close>

locale codec =
  fixes enc :: "'a \<Rightarrow> 'b" and dec :: "'b \<Rightarrow> 'a option" and ok :: "'a \<Rightarrow> bool"
  assumes dec_enc: "ok x \<Longrightarrow> dec (enc x) = Some x"
begin

lemma enc_inject: "ok x \<Longrightarrow> ok y \<Longrightarrow> enc x = enc y \<longleftrightarrow> x = y"
  by (metis dec_enc option.inject)

lemma enc_collision_free: "inj_on enc {x. ok x}"
  by (rule inj_onI) (simp add: enc_inject)

end

section \<open>Splitting and joining\<close>

text \<open>\<open>strings.Split(s, sep)\<close> for a one-byte separator.\<close>

fun split_byte :: "char \<Rightarrow> bytes \<Rightarrow> bytes list" where
  "split_byte c [] = [[]]"
| "split_byte c (x # xs) =
     (if x = c then [] # split_byte c xs
      else case split_byte c xs of [] \<Rightarrow> [[x]] | p # ps \<Rightarrow> (x # p) # ps)"

fun join_byte :: "char \<Rightarrow> bytes list \<Rightarrow> bytes" where
  "join_byte c [] = []"
| "join_byte c [p] = p"
| "join_byte c (p # q # ps) = p @ c # join_byte c (q # ps)"

lemma split_byte_nonempty [simp]: "split_byte c s \<noteq> []"
  by (cases s) (auto split: list.splits)

lemma join_split_byte: "join_byte c (split_byte c s) = s"
proof (induction s)
  case (Cons x xs)
  obtain p ps where "split_byte c xs = p # ps" by (metis list.exhaust split_byte_nonempty)
  with Cons show ?case by (cases ps) auto
qed simp

lemma split_byte_parts: "p \<in> set (split_byte c s) \<Longrightarrow> c \<notin> set p"
  by (induction s arbitrary: p) (auto split: if_splits list.splits)

lemma split_byte_no_sep [simp]: "c \<notin> set p \<Longrightarrow> split_byte c p = [p]"
  by (induction p) auto

lemma split_byte_append [simp]:
  "c \<notin> set p \<Longrightarrow> split_byte c (p @ c # rest) = p # split_byte c rest"
  by (induction p) auto

lemma split_join_byte:
  "ps \<noteq> [] \<Longrightarrow> \<forall>p \<in> set ps. c \<notin> set p \<Longrightarrow> split_byte c (join_byte c ps) = ps"
  by (induction c ps rule: join_byte.induct) auto

interpretation segments: codec "join_byte c" "Some \<circ> split_byte c"
  "\<lambda>ps. ps \<noteq> [] \<and> (\<forall>p \<in> set ps. c \<notin> set p)" for c
  by unfold_locales (simp add: split_join_byte)

section \<open>Searching\<close>

text \<open>\<open>strings.Contains(s, sub)\<close>, \<open>strings.TrimPrefix\<close> and \<open>strings.LastIndex\<close> of one byte.\<close>

fun contains :: "bytes \<Rightarrow> bytes \<Rightarrow> bool" where
  "contains [] sub \<longleftrightarrow> sub = []"
| "contains (x # xs) sub \<longleftrightarrow> prefix sub (x # xs) \<or> contains xs sub"

lemma contains_iff_sublist: "contains s sub \<longleftrightarrow> sublist sub s"
  by (induction s) (auto simp: sublist_Cons_right)

lemma contains_empty [simp]: "contains s []"
  by (simp add: contains_iff_sublist)

definition trim_prefix :: "bytes \<Rightarrow> bytes \<Rightarrow> bytes" where
  "trim_prefix s p = (if prefix p s then drop (length p) s else s)"

lemma trim_prefix_append [simp]: "trim_prefix (p @ s) p = s"
  by (simp add: trim_prefix_def)

fun last_index :: "char \<Rightarrow> bytes \<Rightarrow> nat option" where
  "last_index c [] = None"
| "last_index c (x # xs) =
     (case last_index c xs of
        Some i \<Rightarrow> Some (Suc i)
      | None \<Rightarrow> if x = c then Some 0 else None)"

lemma last_index_None_iff [simp]: "last_index c s = None \<longleftrightarrow> c \<notin> set s"
  by (induction s) (auto split: option.splits)

lemma last_index_append_sep:
  "c \<notin> set t \<Longrightarrow> last_index c (s @ c # t) = Some (length s)"
  by (induction s) (auto split: option.splits)

section \<open>White space\<close>

text \<open>\<open>trim_front ws s\<close> drops leading occurrences of the patterns \<open>ws\<close>.\<close>

definition white_len :: "bytes list \<Rightarrow> bytes \<Rightarrow> nat" where
  "white_len ws s = (case find (\<lambda>w. prefix w s) ws of None \<Rightarrow> 0 | Some w \<Rightarrow> length w)"

lemma white_len_le: "white_len ws s \<le> length s"
  by (auto simp: white_len_def split: option.splits dest!: find_Some_in_set prefix_length_le)

function trim_front :: "bytes list \<Rightarrow> bytes \<Rightarrow> bytes" where
  "trim_front ws s =
     (if white_len ws s = 0 then s else trim_front ws (drop (white_len ws s) s))"
  by pat_completeness auto
termination
proof (relation "measure (\<lambda>(ws, s). length s)", goal_cases)
  case (2 ws s)
  with white_len_le [of ws s] show ?case by auto
qed simp

declare trim_front.simps [simp del]

lemma white_len_trim_front [simp]: "white_len ws (trim_front ws s) = 0"
proof (induction ws s rule: trim_front.induct)
  case (1 ws s)
  then show ?case by (cases "white_len ws s = 0") (simp_all add: trim_front.simps [of ws s])
qed

lemma trim_front_id: "white_len ws s = 0 \<Longrightarrow> trim_front ws s = s"
  by (simp add: trim_front.simps)

lemma trim_front_idem [simp]: "trim_front ws (trim_front ws s) = trim_front ws s"
  by (simp add: trim_front_id)

lemma trim_front_suffix: "suffix (trim_front ws s) s"
proof (induction ws s rule: trim_front.induct)
  case (1 ws s)
  then show ?case
    by (cases "white_len ws s = 0")
      (auto simp: trim_front.simps [of ws s] intro: suffix_order.trans suffix_drop)
qed

lemma trim_front_Nil [simp]: "trim_front ws [] = []"
  using trim_front_suffix [of ws "[]"] by simp

lemma white_len_prefix:
  assumes "[] \<notin> set ws" "prefix t s" "white_len ws s = 0"
  shows "white_len ws t = 0"
proof -
  have none: "find (\<lambda>w. prefix w s) ws = None"
  proof (cases "find (\<lambda>w. prefix w s) ws")
    case (Some w)
    then have "w \<in> set ws" by (simp add: find_Some_in_set)
    moreover from Some assms(3) have "w = []" by (simp add: white_len_def)
    ultimately show ?thesis using assms(1) by simp
  qed simp
  then have "find (\<lambda>w. prefix w t) ws = None"
    using assms(2) by (auto simp: find_None_all dest: prefix_order.trans)
  then show ?thesis by (simp add: white_len_def)
qed

definition space_seqs :: "bytes list" where
  "space_seqs =
     [[CHR 0x09], [CHR 0x0A], [CHR 0x0B], [CHR 0x0C], [CHR 0x0D], [CHR 0x20],
      [CHR 0xC2, CHR 0x85], [CHR 0xC2, CHR 0xA0], [CHR 0xE1, CHR 0x9A, CHR 0x80],
      [CHR 0xE2, CHR 0x80, CHR 0x80], [CHR 0xE2, CHR 0x80, CHR 0x81],
      [CHR 0xE2, CHR 0x80, CHR 0x82], [CHR 0xE2, CHR 0x80, CHR 0x83],
      [CHR 0xE2, CHR 0x80, CHR 0x84], [CHR 0xE2, CHR 0x80, CHR 0x85],
      [CHR 0xE2, CHR 0x80, CHR 0x86], [CHR 0xE2, CHR 0x80, CHR 0x87],
      [CHR 0xE2, CHR 0x80, CHR 0x88], [CHR 0xE2, CHR 0x80, CHR 0x89],
      [CHR 0xE2, CHR 0x80, CHR 0x8A], [CHR 0xE2, CHR 0x80, CHR 0xA8],
      [CHR 0xE2, CHR 0x80, CHR 0xA9], [CHR 0xE2, CHR 0x80, CHR 0xAF],
      [CHR 0xE2, CHR 0x81, CHR 0x9F], [CHR 0xE3, CHR 0x80, CHR 0x80]]"

text \<open>\<open>strings.TrimSpace\<close>: the front first, then the back.\<close>

definition trim_space :: "bytes \<Rightarrow> bytes" where
  "trim_space s =
     rev (trim_front (map rev space_seqs) (rev (trim_front space_seqs s)))"

lemma trim_space_idem [simp]: "trim_space (trim_space s) = trim_space s"
proof -
  let ?t = "trim_front space_seqs s"
  have "prefix (trim_space s) ?t"
    unfolding trim_space_def using trim_front_suffix [of "map rev space_seqs" "rev ?t"]
    by (simp add: suffix_to_prefix)
  moreover have "[] \<notin> set space_seqs" by (simp add: space_seqs_def)
  ultimately have "white_len space_seqs (trim_space s) = 0"
    by (meson white_len_prefix white_len_trim_front)
  then have "trim_front space_seqs (trim_space s) = trim_space s"
    by (rule trim_front_id)
  then show ?thesis by (simp add: trim_space_def)
qed

lemma trim_space_Nil [simp]: "trim_space [] = []"
  by (simp add: trim_space_def)

lemma sublist_trim_space: "sublist (trim_space s) s"
proof -
  have "sublist (trim_space s) (trim_front space_seqs s)"
    unfolding trim_space_def
    using trim_front_suffix [of "map rev space_seqs" "rev (trim_front space_seqs s)"]
    by (simp add: suffix_to_prefix prefix_imp_sublist)
  then show ?thesis
    by (meson suffix_imp_sublist sublist_order.order.trans trim_front_suffix)
qed

section \<open>Case\<close>

text \<open>
  \<open>strings.ToLower\<close>: ASCII letters are mapped here; a string with a byte outside ASCII goes
  through the Unicode case tables, which are the parameter \<open>uni\<close>.
\<close>

definition ascii :: "bytes \<Rightarrow> bool" where
  "ascii s \<longleftrightarrow> (\<forall>c \<in> set s. byte c < 128)"

definition lower_byte :: "char \<Rightarrow> char" where
  "lower_byte c = (if 65 \<le> byte c \<and> byte c \<le> 90 then char_of (byte c + 32) else c)"

definition to_lower :: "(bytes \<Rightarrow> bytes) \<Rightarrow> bytes \<Rightarrow> bytes" where
  "to_lower uni s = (if ascii s then map lower_byte s else uni s)"

lemma lower_byte_idem [simp]: "lower_byte (lower_byte c) = lower_byte c"
  by (simp add: lower_byte_def)

lemma ascii_lower: "ascii s \<Longrightarrow> ascii (map lower_byte s)"
  by (auto simp: ascii_def lower_byte_def)

lemma ascii_sublist: "sublist t s \<Longrightarrow> ascii s \<Longrightarrow> ascii t"
  by (auto simp: ascii_def sublist_def)

lemma to_lower_idem: "ascii s \<Longrightarrow> to_lower uni (to_lower uni s) = to_lower uni s"
  by (simp add: to_lower_def ascii_lower comp_def)

text \<open>Trimming and lowering commute: no byte of a white space character is a letter.\<close>

definition letter_byte :: "char \<Rightarrow> bool" where
  "letter_byte c \<longleftrightarrow> (65 \<le> byte c \<and> byte c \<le> 90) \<or> (97 \<le> byte c \<and> byte c \<le> 122)"

lemma lower_byte_eq_iff: "\<not> letter_byte x \<Longrightarrow> lower_byte c = x \<longleftrightarrow> c = x"
  by (auto simp: lower_byte_def letter_byte_def)

lemma prefix_map_lower:
  "list_all (\<lambda>x. \<not> letter_byte x) w \<Longrightarrow> prefix w (map lower_byte s) \<longleftrightarrow> prefix w s"
proof (induction w arbitrary: s)
  case (Cons x w)
  then have "x = lower_byte c \<longleftrightarrow> x = c" for c
    using lower_byte_eq_iff [of x c] by auto
  with Cons show ?case by (cases s) simp_all
qed simp

lemma trim_front_lower:
  assumes "list_all (list_all (\<lambda>x. \<not> letter_byte x)) ws"
  shows "trim_front ws (map lower_byte s) = map lower_byte (trim_front ws s)"
proof (induction s rule: length_induct)
  case (1 s)
  have "find (\<lambda>w. prefix w (map lower_byte s)) ws = find (\<lambda>w. prefix w s) ws"
    using assms by (induction ws) (auto simp: prefix_map_lower)
  then have same: "white_len ws (map lower_byte s) = white_len ws s"
    by (simp add: white_len_def)
  show ?case
  proof (cases "white_len ws s = 0")
    case False
    with white_len_le [of ws s] have "length (drop (white_len ws s) s) < length s" by simp
    with 1 same False show ?thesis
      by (simp add: trim_front.simps [of ws s] trim_front.simps [of ws "map lower_byte s"] drop_map)
  qed (simp add: same trim_front_id)
qed

lemma space_seqs_no_letter:
  "list_all (list_all (\<lambda>x. \<not> letter_byte x)) space_seqs"
  "list_all (list_all (\<lambda>x. \<not> letter_byte x)) (map rev space_seqs)"
  by (simp_all add: space_seqs_def letter_byte_def)

lemma trim_space_lower: "trim_space (map lower_byte s) = map lower_byte (trim_space s)"
  by (simp add: trim_space_def trim_front_lower space_seqs_no_letter rev_map del: rev_map [symmetric])

end
