(* ===== verification/Go_Format.thy ===== *)
theory Go_Format
  imports Go_Strings
begin

text \<open>
  Decimal numbers as \<open>fmt\<close> and \<open>strconv\<close> print and read them: \<open>%d\<close>, \<open>strconv.Atoi\<close>, and
  the verbs of \<open>fmt.Sscanf\<close> the source uses.  \<open>Sscanf\<close> skips white space before a number,
  refuses a newline there, and leaves what follows the number unread.
\<close>

section \<open>Printing\<close>

definition digit :: "nat \<Rightarrow> char" where
  "digit d = char_of (48 + d)"

definition is_digit :: "char \<Rightarrow> bool" where
  "is_digit c \<longleftrightarrow> 48 \<le> byte c \<and> byte c \<le> 57"

definition digit_val :: "char \<Rightarrow> nat" where
  "digit_val c = byte c - 48"

fun show_nat :: "nat \<Rightarrow> bytes" where
  "show_nat n = (if n < 10 then [digit n] else show_nat (n div 10) @ [digit (n mod 10)])"

declare show_nat.simps [simp del]

definition show_int :: "int \<Rightarrow> bytes" where
  "show_int i = (if i < 0 then CHR ''-'' # show_nat (nat (- i)) else show_nat (nat i))"

definition read_digits :: "bytes \<Rightarrow> nat" where
  "read_digits s = foldl (\<lambda>a c. a * 10 + digit_val c) 0 s"

lemma byte_digit: "d < 10 \<Longrightarrow> byte (digit d) = 48 + d"
  by (simp add: digit_def)

lemma is_digit_digit [simp]: "d < 10 \<Longrightarrow> is_digit (digit d)"
  by (simp add: is_digit_def byte_digit)

lemma digit_val_digit [simp]: "d < 10 \<Longrightarrow> digit_val (digit d) = d"
  by (simp add: digit_val_def byte_digit)

lemma show_nat_nonempty [simp]: "show_nat n \<noteq> []"
  by (subst show_nat.simps) simp

lemma show_nat_digits: "\<forall>c \<in> set (show_nat n). is_digit c"
proof (induction n rule: show_nat.induct)
  case (1 n)
  then show ?case by (cases "n < 10") (auto simp: show_nat.simps [of n])
qed

lemma read_show_nat [simp]: "read_digits (show_nat n) = n"
proof (induction n rule: show_nat.induct)
  case (1 n)
  then show ?case
    by (cases "n < 10") (simp_all add: show_nat.simps [of n] read_digits_def)
qed

lemma show_nat_no_byte: "\<not> is_digit c \<Longrightarrow> c \<notin> set (show_nat n)"
  using show_nat_digits by blast

section \<open>Reading: Atoi\<close>

definition in_int64 :: "int \<Rightarrow> bool" where
  "in_int64 i \<longleftrightarrow> - (2 ^ 63) \<le> i \<and> i < 2 ^ 63"

definition atoi :: "bytes \<Rightarrow> int option" where
  "atoi s =
     (let (neg, ds) =
        (case s of [] \<Rightarrow> (False, [])
         | c # cs \<Rightarrow> if c = CHR ''-'' then (True, cs)
                    else if c = CHR ''+'' then (False, cs) else (False, s))
      in if ds = [] \<or> \<not> list_all is_digit ds then None
         else let v = (if neg then - int (read_digits ds) else int (read_digits ds))
              in if in_int64 v then Some v else None)"

lemma not_digit_sign [simp]: "\<not> is_digit (CHR ''-'')" "\<not> is_digit (CHR ''+'')"
  by (simp_all add: is_digit_def)

lemma list_all_show_nat [simp]: "list_all is_digit (show_nat n)"
  using show_nat_digits by (simp add: list_all_iff)

lemma atoi_show_nat: "in_int64 (int n) \<Longrightarrow> atoi (show_nat n) = Some (int n)"
  using list_all_show_nat [of n] read_show_nat [of n]
  by (cases "show_nat n") (auto simp: atoi_def Let_def)

lemma atoi_minus_show_nat: "in_int64 (- int n) \<Longrightarrow> atoi (CHR ''-'' # show_nat n) = Some (- int n)"
  by (simp add: atoi_def Let_def)

lemma atoi_show_int: "in_int64 i \<Longrightarrow> atoi (show_int i) = Some i"
  using atoi_show_nat [of "nat i"] atoi_minus_show_nat [of "nat (- i)"]
  by (simp add: show_int_def)

interpretation int_text: codec show_int atoi in_int64
  by unfold_locales (rule atoi_show_int)

lemma atoi_range: "atoi s = Some i \<Longrightarrow> in_int64 i"
  by (auto simp: atoi_def Let_def split: list.splits if_splits)

section \<open>Reading: Sscanf\<close>

text \<open>Blanks that \<open>Sscanf\<close> skips before \<open>%d\<close>; a newline is an error.\<close>

definition scan_seqs :: "bytes list" where
  "scan_seqs = filter (\<lambda>w. w \<noteq> [CHR 0x0A]) space_seqs"

definition skip_space :: "bytes \<Rightarrow> bytes option" where
  "skip_space s =
     (let t = trim_front scan_seqs s
      in if t \<noteq> [] \<and> hd t = CHR 0x0A then None else Some t)"

text \<open>A literal of the format, \<open>%d\<close> into an unsigned of \<open>w\<close> bits, \<open>%d\<close> into an \<open>int\<close>.\<close>

definition scan_lit :: "bytes \<Rightarrow> bytes \<Rightarrow> bytes option" where
  "scan_lit l s = (if prefix l s then Some (drop (length l) s) else None)"

definition scan_uint :: "nat \<Rightarrow> bytes \<Rightarrow> (nat \<times> bytes) option" where
  "scan_uint w s =
     (case skip_space s of
        None \<Rightarrow> None
      | Some t \<Rightarrow>
          let ds = takeWhile is_digit t; n = read_digits ds
          in if ds = [] \<or> 2 ^ w \<le> n then None else Some (n, dropWhile is_digit t))"

definition scan_int :: "bytes \<Rightarrow> (int \<times> bytes) option" where
  "scan_int s =
     (case skip_space s of
        None \<Rightarrow> None
      | Some t \<Rightarrow>
          let neg = (t \<noteq> [] \<and> hd t = CHR ''-'');
              u = (if t \<noteq> [] \<and> (hd t = CHR ''-'' \<or> hd t = CHR ''+'') then tl t else t);
              ds = takeWhile is_digit u;
              v = (if neg then - int (read_digits ds) else int (read_digits ds))
          in if ds = [] \<or> \<not> in_int64 v then None else Some (v, dropWhile is_digit u))"

lemma white_len_digit:
  assumes "is_digit c"
  shows "white_len scan_seqs (c # cs) = 0"
proof -
  have "\<forall>w \<in> set scan_seqs. w \<noteq> [] \<and> \<not> is_digit (hd w)"
    by (auto simp: scan_seqs_def space_seqs_def is_digit_def)
  then have "find (\<lambda>w. prefix w (c # cs)) scan_seqs = None"
    using assms by (auto simp: find_None_all prefix_Cons)
  then show ?thesis by (simp add: white_len_def)
qed

lemma skip_space_digit:
  assumes "is_digit c"
  shows "skip_space (c # cs) = Some (c # cs)"
proof -
  have "c \<noteq> CHR 0x0A" using assms by (auto simp: is_digit_def)
  then show ?thesis
    using white_len_digit [OF assms] by (simp add: skip_space_def trim_front_id)
qed

lemma skip_space_show_nat [simp]: "skip_space (show_nat n @ s) = Some (show_nat n @ s)"
  using show_nat_digits [of n] by (cases "show_nat n") (auto simp: skip_space_digit)

text \<open>What follows a scanned number must not continue it.\<close>

definition no_digit_head :: "bytes \<Rightarrow> bool" where
  "no_digit_head s \<longleftrightarrow> (case s of [] \<Rightarrow> True | c # _ \<Rightarrow> \<not> is_digit c)"

lemma takeWhile_digits:
  assumes "no_digit_head s"
  shows "takeWhile is_digit (show_nat n @ s) = show_nat n"
    and "dropWhile is_digit (show_nat n @ s) = s"
  using assms show_nat_digits [of n]
  by (auto simp: takeWhile_append dropWhile_append no_digit_head_def takeWhile_eq_Nil_iff
      split: list.splits)

lemma scan_uint_show [go_std]:
  assumes "n < 2 ^ w" "no_digit_head s"
  shows "scan_uint w (show_nat n @ s) = Some (n, s)"
  using assms by (simp add: scan_uint_def takeWhile_digits Let_def not_le)

lemma hd_show_nat: "hd (show_nat n @ s) \<noteq> CHR ''-''" "hd (show_nat n @ s) \<noteq> CHR ''+''"
  using show_nat_digits [of n] by (cases "show_nat n"; auto)+

lemma scan_int_show [go_std]:
  assumes "int n < 2 ^ 63" "no_digit_head s"
  shows "scan_int (show_nat n @ s) = Some (int n, s)"
  using assms hd_show_nat [of n s]
  by (simp add: scan_int_def takeWhile_digits Let_def in_int64_def)

lemma scan_lit_append [go_std]: "scan_lit l (l @ s) = Some s"
  by (simp add: scan_lit_def)

lemma scan_uint_bound: "scan_uint w s = Some (n, t) \<Longrightarrow> n < 2 ^ w"
  by (auto simp: scan_uint_def Let_def split: option.splits if_splits)

end
