(* ===== verification/Http.thy ===== *)
theory Http
  imports Go_Format "HOL-Library.AList"
begin

text \<open>
  The HTTP vocabulary of the server: headers, requests and the response writer of \<open>net/http\<close>,
  and the helpers of \<open>server/internal/utils\<close> (\<open>http.go\<close>, \<open>utils.go\<close>) and
  \<open>server/pkg/env.go\<close>.

  Bodies are kept as the Go values handed to \<open>encoding/json\<close> (type \<open>gov\<close>), not as their text.
  Status codes are those the source writes, all between 200 and 599.
\<close>

section \<open>Values given to the JSON encoder\<close>

text \<open>
  \<open>JFloat m e\<close> is the number \<open>m * 2 ^ e\<close>; \<open>JObj\<close> is a struct or a map, as the pairs it is encoded
  to; \<open>JUnsupported\<close> a value the
  encoder refuses (a channel, a function, a NaN).
\<close>

datatype gov =
  JNull | JBool bool | JInt int | JFloat int int | JStr bytes | JArr "gov list" | JObj "(bytes \<times> gov) list"
  | JUnsupported

fun marshalable :: "gov \<Rightarrow> bool" where
  "marshalable JUnsupported = False"
| "marshalable (JArr vs) = list_all marshalable vs"
| "marshalable (JObj kvs) = list_all (\<lambda>(k, v). marshalable v) kvs"
| "marshalable _ = True"

text \<open>The field \<open>k\<close> of an encoded object.\<close>

fun gov_field :: "bytes \<Rightarrow> gov \<Rightarrow> gov option" where
  "gov_field k (JObj kvs) = map_of kvs k"
| "gov_field k _ = None"

section \<open>Headers\<close>

type_synonym header = "bytes \<rightharpoonup> bytes list"

definition upper_byte :: "char \<Rightarrow> char" where
  "upper_byte c = (if 97 \<le> byte c \<and> byte c \<le> 122 then char_of (byte c - 32) else c)"

definition token_byte :: "char \<Rightarrow> bool" where
  "token_byte c \<longleftrightarrow> is_digit c \<or> (65 \<le> byte c \<and> byte c \<le> 90) \<or> (97 \<le> byte c \<and> byte c \<le> 122)
     \<or> c \<in> set ''!#$%&*+-.^_|~'' \<or> byte c = 39 \<or> byte c = 96"

text \<open>\<open>textproto.CanonicalMIMEHeaderKey\<close>: words are capitalised, other keys are left alone.\<close>

fun canon_words :: "bool \<Rightarrow> bytes \<Rightarrow> bytes" where
  "canon_words up [] = []"
| "canon_words up (c # cs) =
     (if up then upper_byte c else lower_byte c) # canon_words (c = CHR ''-'') cs"

definition canon_key :: "bytes \<Rightarrow> bytes" where
  "canon_key k = (if list_all token_byte k then canon_words True k else k)"

definition hget :: "header \<Rightarrow> bytes \<Rightarrow> bytes" where
  "hget h k = (case h (canon_key k) of Some (v # _) \<Rightarrow> v | _ \<Rightarrow> [])"

definition hset :: "header \<Rightarrow> bytes \<Rightarrow> bytes \<Rightarrow> header" where
  "hset h k v = h(canon_key k \<mapsto> [v])"

definition hadd :: "header \<Rightarrow> bytes \<Rightarrow> bytes \<Rightarrow> header" where
  "hadd h k v =
     h(canon_key k \<mapsto> (case h (canon_key k) of None \<Rightarrow> [] | Some vs \<Rightarrow> vs) @ [v])"

lemma hget_hset [handler_simps]:
  "hget (hset h k v) k' = (if canon_key k = canon_key k' then v else hget h k')"
  by (simp add: hget_def hset_def)

lemma hget_empty [simp]: "hget Map.empty k = []"
  by (simp add: hget_def)

section \<open>Requests and the response writer\<close>

text \<open>
  The request context holds the two values the middlewares store: the user id and the validated
  body, whose type is a parameter.  \<open>req_cookies\<close> are the cookies as \<open>net/http\<close> parsed them, and
  \<open>req_vars\<close> the path variables \<open>gorilla/mux\<close> matched.
\<close>

record 'b request =
  req_method :: bytes
  req_path :: bytes
  req_query :: bytes
  req_header :: header
  req_cookies :: "(bytes \<times> bytes) list"
  req_body :: "bytes option"
  req_remote :: bytes
  req_vars :: "bytes \<rightharpoonup> bytes"
  ctx_uid :: "bytes option"
  ctx_body :: "'b option"

datatype chunk = Json gov | Text bytes

text \<open>
  A response writer: the headers set so far, the status line and headers once sent, the body.
  \<open>rsp_capture\<close> is the \<open>StatusCode\<close> field of the wrapper \<open>utils.ResponseWriter\<close>, where one is
  in place.
\<close>

record response =
  rsp_header :: header
  rsp_sent :: "(int \<times> header) option"
  rsp_body :: "chunk list"
  rsp_capture :: "int option"

definition new_response :: response where
  "new_response = \<lparr>rsp_header = Map.empty, rsp_sent = None, rsp_body = [], rsp_capture = None\<rparr>"

definition set_header :: "bytes \<Rightarrow> bytes \<Rightarrow> response \<Rightarrow> response" where
  "set_header k v w = w\<lparr>rsp_header := hset (rsp_header w) k v\<rparr>"

text \<open>Only the first status counts; headers set after it are not sent.\<close>

definition send_status :: "int \<Rightarrow> response \<Rightarrow> response" where
  "send_status code w =
     (case rsp_sent w of
        None \<Rightarrow> w\<lparr>rsp_sent := Some (code, rsp_header w)\<rparr>
      | Some _ \<Rightarrow> w)"

definition WriteHeader :: "int \<Rightarrow> response \<Rightarrow> response" where
  "WriteHeader code w =
     send_status code
       (w\<lparr>rsp_capture := (case rsp_capture w of None \<Rightarrow> None | Some _ \<Rightarrow> Some code)\<rparr>)"

definition Write :: "chunk \<Rightarrow> response \<Rightarrow> response" where
  "Write c w = (let w = send_status 200 w in w\<lparr>rsp_body := rsp_body w @ [c]\<rparr>)"

definition status :: "response \<Rightarrow> int option" where
  "status w = map_option fst (rsp_sent w)"

section \<open>The response envelope\<close>

record ApiResponse =
  Success :: bool
  Message :: bytes
  Data :: "gov option"
  Errors :: "gov option"
  StatusCode :: int
  RequestID :: bytes

definition ApiSuccess :: "bytes \<Rightarrow> gov option \<Rightarrow> int \<Rightarrow> ApiResponse" where
  "ApiSuccess message data code =
     \<lparr>Success = True, Message = message, Data = data, Errors = None, StatusCode = code,
      RequestID = []\<rparr>"

definition ApiError :: "bytes \<Rightarrow> gov option \<Rightarrow> int \<Rightarrow> ApiResponse" where
  "ApiError message errs code =
     \<lparr>Success = False, Message = message, Data = None, Errors = errs, StatusCode = code,
      RequestID = []\<rparr>"

text \<open>The object an \<open>ApiResponse\<close> is encoded to: \<open>omitempty\<close> drops a nil value, an empty text.\<close>

definition api_gov :: "ApiResponse \<Rightarrow> gov" where
  "api_gov r = JObj
     ([(''success'', JBool (Success r)), (''message'', JStr (Message r))]
      @ (case Data r of None \<Rightarrow> [] | Some d \<Rightarrow> [(''data'', d)])
      @ (case Errors r of None \<Rightarrow> [] | Some e \<Rightarrow> [(''errors'', e)])
      @ [(''status_code'', JInt (StatusCode r))]
      @ (if RequestID r = [] then [] else [(''request_id'', JStr (RequestID r))]))"

abbreviation HeaderContentTypeName :: bytes where
  "HeaderContentTypeName \<equiv> ''Content-Type''"

abbreviation HeaderContentTypeJSON :: bytes where
  "HeaderContentTypeJSON \<equiv> ''application/json''"

abbreviation HeaderContentTypeText :: bytes where
  "HeaderContentTypeText \<equiv> ''text/plain; charset=utf-8''"

definition SendResponse :: "response \<Rightarrow> ApiResponse \<Rightarrow> response" where
  "SendResponse w r =
     (let r = r\<lparr>RequestID := hget (rsp_header w) ''X-Request-ID''\<rparr>;
          w = set_header HeaderContentTypeName HeaderContentTypeJSON w;
          w = WriteHeader (StatusCode r) w
      in if marshalable (api_gov r) then Write (Json (api_gov r)) w else w)"

section \<open>HttpWriter\<close>

record 'b HttpWriter =
  hw_W :: response
  hw_R :: "'b request"
  hw_StatusCode :: int

definition NewHttpWriter :: "response \<Rightarrow> 'b request \<Rightarrow> 'b HttpWriter" where
  "NewHttpWriter w r = \<lparr>hw_W = w, hw_R = r, hw_StatusCode = 200\<rparr>"

definition hw_Status :: "int \<Rightarrow> 'b HttpWriter \<Rightarrow> 'b HttpWriter" where
  "hw_Status code hw = hw\<lparr>hw_StatusCode := code\<rparr>"

definition hw_JSON :: "(bytes \<times> gov) list \<Rightarrow> 'b HttpWriter \<Rightarrow> response" where
  "hw_JSON data hw =
     (let w = hw_W hw;
          rid = hget (rsp_header w) ''X-Request-ID'';
          data = (if rid \<noteq> [] then AList.update ''request_id'' (JStr rid) data
                  else AList.update ''request_id'' (JStr ''unknown'') data)
      in if marshalable (JObj data)
         then Write (Json (JObj data))
                (WriteHeader (hw_StatusCode hw)
                   (set_header HeaderContentTypeName HeaderContentTypeJSON w))
         else Write (Text ''failed to marshal response'')
                (WriteHeader 500
                   (set_header HeaderContentTypeName HeaderContentTypeText w)))"

definition hw_Text :: "bytes \<Rightarrow> 'b HttpWriter \<Rightarrow> response" where
  "hw_Text text hw =
     (let w = set_header HeaderContentTypeName HeaderContentTypeText (hw_W hw);
          w = WriteHeader (hw_StatusCode hw) w;
          rid = hget (rsp_header w) ''X-Request-ID''
      in Write (Text (join_byte (CHR '';'') [text, ''RequestId='' @ rid])) w)"

definition hw_Error :: "bytes \<Rightarrow> int option \<Rightarrow> 'b HttpWriter \<Rightarrow> 'b HttpWriter" where
  "hw_Error err code hw =
     (let st = (if hw_StatusCode hw = 200 then
                  (case code of
                     Some c \<Rightarrow> if 400 \<le> c then c else 500
                   | None \<Rightarrow> 500)
                else hw_StatusCode hw);
          w = set_header HeaderContentTypeName HeaderContentTypeText (hw_W hw);
          w = WriteHeader st w;
          rid = hget (rsp_header w) ''X-Request-ID''
      in hw\<lparr>hw_StatusCode := st, hw_W := Write (Text (err @ '';RequestId='' @ rid)) w\<rparr>)"

section \<open>Reading requests\<close>

text \<open>
  \<open>ParseBody\<close>: the text decoder of \<open>encoding/json\<close> for the destination type is \<open>decode\<close>.
\<close>

definition ParseBody :: "(bytes \<Rightarrow> 'd fallible) \<Rightarrow> 'b request \<Rightarrow> 'd fallible" where
  "ParseBody decode r =
     (case req_body r of
        None \<Rightarrow> Inl ''request has no body''
      | Some body \<Rightarrow>
          let ct = hget (req_header r) HeaderContentTypeName
          in if ct = [] \<or> \<not> contains ct ''application/json''
             then Inl ''Content-Type must be application/json''
             else (case decode body of
                     Inl e \<Rightarrow> Inl (''failed to decode JSON body: '' @ e)
                   | Inr d \<Rightarrow> Inr d))"

definition hw_ParseBody :: "(bytes \<Rightarrow> 'd fallible) \<Rightarrow> 'b HttpWriter \<Rightarrow> 'd fallible" where
  "hw_ParseBody decode hw = ParseBody decode (hw_R hw)"

definition GetEnv :: "(bytes \<rightharpoonup> bytes) \<Rightarrow> bytes \<Rightarrow> bytes \<Rightarrow> bytes" where
  "GetEnv env key defaultVal = (case env key of Some v \<Rightarrow> v | None \<Rightarrow> defaultVal)"

text \<open>\<open>server/pkg/env.go\<close> has the same function once more.\<close>

definition pkg_GetEnv :: "(bytes \<rightharpoonup> bytes) \<Rightarrow> bytes \<Rightarrow> bytes \<Rightarrow> bytes" where
  "pkg_GetEnv env key dflt = (case env key of Some v \<Rightarrow> v | None \<Rightarrow> dflt)"

definition GetParam :: "'b request \<Rightarrow> bytes \<Rightarrow> bytes" where
  "GetParam r key = (case req_vars r key of Some v \<Rightarrow> v | None \<Rightarrow> [])"

definition GetIP :: "'b request \<Rightarrow> bytes" where
  "GetIP r =
     (let xff = hget (req_header r) ''X-Forwarded-For''
      in if xff \<noteq> [] then trim_space (hd (split_byte (CHR '','') xff))
         else let xri = hget (req_header r) ''X-Real-IP''
              in if xri \<noteq> [] then xri
                 else let addr = req_remote r
                      in case last_index (CHR '':'') addr of
                           Some idx \<Rightarrow> take idx addr
                         | None \<Rightarrow> addr)"

end
