(* ===== verification/Handlers.thy ===== *)
theory Handlers
  imports Http
begin

text \<open>
  HTTP handlers over a state of the server, and the contract every middleware of
  \<open>server/internal/middlewares\<close> keeps towards the handler it wraps.
\<close>

section \<open>Handlers\<close>

text \<open>A handler returns or panics; what it did to the state before a panic stays.\<close>

datatype 's run = Done 's | Panicked 's

primrec run_then :: "'s run \<Rightarrow> ('s \<Rightarrow> 's) \<Rightarrow> 's run" where
  "run_then (Done s) f = Done (f s)"
| "run_then (Panicked s) f = Panicked s"

primrec run_state :: "'s run \<Rightarrow> 's" where
  "run_state (Done s) = s"
| "run_state (Panicked s) = s"

primrec run_bind :: "'s run \<Rightarrow> ('s \<Rightarrow> 's run) \<Rightarrow> 's run" where
  "run_bind (Done s) k = k s"
| "run_bind (Panicked s) k = Panicked s"

lemma run_bind_Done [simp]: "run_bind m Done = m"
  by (cases m) simp_all

text \<open>A call with a result; after a panic there is a state and no result.\<close>

datatype ('r, 's) call = Returned 'r 's | Crashed 's

primrec call_bind :: "('r, 's) call \<Rightarrow> ('r \<Rightarrow> 's \<Rightarrow> ('t, 's) call) \<Rightarrow> ('t, 's) call" where
  "call_bind (Returned r s) k = k r s"
| "call_bind (Crashed s) k = Crashed s"

definition call_run :: "'s run \<Rightarrow> (unit, 's) call" where
  "call_run r = (case r of Done s \<Rightarrow> Returned () s | Panicked s \<Rightarrow> Crashed s)"

lemma call_run_simps [simp]:
  "call_run (Done s) = Returned () s" "call_run (Panicked s) = Crashed s"
  by (simp_all add: call_run_def)

lemma call_bind_Returned:
  "call_bind c k = Returned r s \<longleftrightarrow> (\<exists>r' s'. c = Returned r' s' \<and> k r' s' = Returned r s)"
  by (cases c) auto

type_synonym ('b, 'w) handler = "'b request \<Rightarrow> 'w \<times> response \<Rightarrow> ('w \<times> response) run"

text \<open>Two requests that differ in their context only.\<close>

definition same_request :: "'b request \<Rightarrow> 'b request \<Rightarrow> bool" where
  "same_request r r' \<longleftrightarrow> r' = r\<lparr>ctx_uid := ctx_uid r', ctx_body := ctx_body r'\<rparr>"

lemma same_request_refl [simp, intro]: "same_request r r"
  by (simp add: same_request_def)

lemma same_request_trans [trans]:
  "same_request r r' \<Longrightarrow> same_request r' r'' \<Longrightarrow> same_request r r''"
  by (cases r; cases r'; cases r'') (simp add: same_request_def)

lemma same_request_ctx [simp, intro]:
  "same_request r (r\<lparr>ctx_uid := u\<rparr>)" "same_request r (r\<lparr>ctx_body := b\<rparr>)"
  by (simp_all add: same_request_def)

lemma same_request_GetIP: "same_request r r' \<Longrightarrow> GetIP r' = GetIP r"
  by (cases r; cases r') (simp add: same_request_def GetIP_def Let_def)

section \<open>The contract of a middleware\<close>

text \<open>
  On every request a middleware either gives the same result whatever the handler it wraps, or
  runs that handler exactly once, on the same request up to the context, and only transforms the
  outcome.
\<close>

definition answers :: "(('b, 'w) handler \<Rightarrow> ('b, 'w) handler) \<Rightarrow> 'b request \<Rightarrow> 'w \<times> response \<Rightarrow> bool" where
  "answers mw r s \<longleftrightarrow> (\<forall>next next'. mw next r s = mw next' r s)"

definition forwards :: "(('b, 'w) handler \<Rightarrow> ('b, 'w) handler) \<Rightarrow> 'b request \<Rightarrow> 'w \<times> response \<Rightarrow>
    'b request \<Rightarrow> 'w \<times> response \<Rightarrow> bool" where
  "forwards mw r s r' s' \<longleftrightarrow>
     same_request r r' \<and> (\<exists>post. \<forall>next. mw next r s = post (next r' s'))"

lemma answersI: "(\<And>next. mw next r s = t) \<Longrightarrow> answers mw r s"
  by (simp add: answers_def)

lemma forwardsI: "same_request r r' \<Longrightarrow> (\<And>next. mw next r s = post (next r' s')) \<Longrightarrow> forwards mw r s r' s'"
  by (auto simp: forwards_def)

text \<open>The two ways a case of a middleware meets the contract.\<close>

lemma mw_answer:
  "(\<And>next. mw next r s = t) \<Longrightarrow> answers mw r s \<or> (\<exists>r' s'. forwards mw r s r' s')"
  by (simp add: answers_def)

lemma mw_forward:
  assumes "\<And>next. mw next r s = next r' s'" "same_request r r'"
  shows "answers mw r s \<or> (\<exists>r' s'. forwards mw r s r' s')"
proof -
  have "forwards mw r s r' s'"
    using assms by (intro forwardsI [where post = "\<lambda>x. x"])
  then show ?thesis by blast
qed

locale middleware =
  fixes mw :: "('b, 'w) handler \<Rightarrow> ('b, 'w) handler"
  assumes answers_or_forwards: "answers mw r s \<or> (\<exists>r' s'. forwards mw r s r' s')"
begin

text \<open>Where two handlers lead to different outcomes, the request reached them.\<close>

lemma handler_reached:
  assumes "mw next r s \<noteq> mw next' r s"
  shows "\<exists>r' s'. same_request r r' \<and> next r' s' \<noteq> next' r' s'"
proof -
  have "\<not> answers mw r s"
    using assms by (auto simp: answers_def)
  then obtain r' s' post where "same_request r r'" "\<And>next. mw next r s = post (next r' s')"
    using answers_or_forwards [of r s] by (auto simp: forwards_def)
  with assms show ?thesis by metis
qed

end

locale middleware_pair = outer: middleware mw1 + inner: middleware mw2
  for mw1 mw2 :: "('b, 'w) handler \<Rightarrow> ('b, 'w) handler"

text \<open>A chain of middlewares is a middleware.\<close>

sublocale middleware_pair \<subseteq> chain: middleware "\<lambda>next. mw1 (mw2 next)"
proof
  fix r :: "'b request" and s :: "'w \<times> response"
  consider "answers mw1 r s" | r1 s1 post where "same_request r r1"
      "\<And>next. mw1 next r s = post (next r1 s1)"
    using outer.answers_or_forwards [of r s] by (auto simp: forwards_def)
  then show "answers (\<lambda>next. mw1 (mw2 next)) r s
    \<or> (\<exists>r' s'. forwards (\<lambda>next. mw1 (mw2 next)) r s r' s')"
  proof cases
    case 1
    then show ?thesis by (simp add: answers_def)
  next
    case 2
    consider "answers mw2 r1 s1" | r2 s2 post2 where "same_request r1 r2"
        "\<And>next. mw2 next r1 s1 = post2 (next r2 s2)"
      using inner.answers_or_forwards [of r1 s1] by (auto simp: forwards_def)
    then show ?thesis
    proof cases
      case 1
      with 2 have "answers (\<lambda>next. mw1 (mw2 next)) r s"
        unfolding answers_def by metis
      then show ?thesis ..
    next
      case inner: 2
      have "forwards (\<lambda>next. mw1 (mw2 next)) r s r2 s2"
        using 2 inner same_request_trans [of r r1 r2]
        by (intro forwardsI [where post = "\<lambda>x. post (post2 x)"]) simp_all
      then show ?thesis by blast
    qed
  qed
qed

end
