(* ===== verification/Rate_Limit.thy ===== *)
theory Rate_Limit
  imports Prelude
begin

text \<open>
  The limiter of \<open>server/internal/middlewares/ratelimit_middleware.go\<close>: the map of entries, the
  critical section of \<open>Middleware\<close> and one tick of \<open>cleanup\<close>.  Times and durations are
  nanoseconds.  Both sections hold the mutex, so every concurrent execution is a list of events,
  each with its reading of the clock, and the clock is monotonic.  The HTTP side of the
  middleware is in \<open>Middlewares\<close>.
\<close>

section \<open>State and operations\<close>

record rateLimitEntry =
  count :: int
  windowEnd :: int

record RateLimiter =
  entries :: "bytes \<rightharpoonup> rateLimitEntry"
  limit :: int
  window :: int

definition NewRateLimiter :: "int \<Rightarrow> int \<Rightarrow> RateLimiter" where
  "NewRateLimiter lim win = \<lparr>entries = Map.empty, limit = lim, window = win\<rparr>"

text \<open>
  The section of \<open>Middleware\<close> under the lock: \<open>True\<close> where the request goes on to the next
  handler, \<open>False\<close> where it is answered with 429.  The count, a 64-bit integer, is kept without bound.
\<close>

definition allow :: "bytes \<Rightarrow> int \<Rightarrow> RateLimiter \<Rightarrow> bool \<times> RateLimiter" where
  "allow ip now rl =
     (case entries rl ip of
        None \<Rightarrow>
          (True, rl\<lparr>entries := (entries rl)(ip \<mapsto> \<lparr>count = 1, windowEnd = now + window rl\<rparr>)\<rparr>)
      | Some entry \<Rightarrow>
          if now > windowEnd entry then
            (True, rl\<lparr>entries := (entries rl)(ip \<mapsto> \<lparr>count = 1, windowEnd = now + window rl\<rparr>)\<rparr>)
          else
            let entry = entry\<lparr>count := count entry + 1\<rparr>;
                rl = rl\<lparr>entries := (entries rl)(ip \<mapsto> entry)\<rparr>
            in if count entry > limit rl then (False, rl) else (True, rl))"

text \<open>One tick of the background goroutine, which deletes the expired entries.\<close>

definition cleanup_tick :: "int \<Rightarrow> RateLimiter \<Rightarrow> RateLimiter" where
  "cleanup_tick now rl =
     rl\<lparr>entries := (\<lambda>ip. case entries rl ip of
          None \<Rightarrow> None
        | Some e \<Rightarrow> if now > windowEnd e then None else Some e)\<rparr>"

text \<open>
  The goroutine started by \<open>NewRateLimiter\<close>, over the clock readings of its ticks.
  \<open>time.NewTicker\<close> panics for an interval that is not positive.
\<close>

definition cleanup :: "int list \<Rightarrow> RateLimiter \<Rightarrow> RateLimiter go" where
  "cleanup ticks rl =
     (if window rl \<le> 0 then Panic ''non-positive interval for NewTicker''
      else Ret (fold cleanup_tick ticks rl))"

section \<open>Runs\<close>

datatype rl_event = Request bytes (at: int) | Tick (at: int)

type_synonym rl_log = "(bytes \<times> int \<times> bool) list"

fun rl_run :: "RateLimiter \<Rightarrow> rl_event list \<Rightarrow> rl_log \<times> RateLimiter" where
  "rl_run rl [] = ([], rl)"
| "rl_run rl (Request ip t # es) =
     (let (ok, rl1) = allow ip t rl; (log, rl2) = rl_run rl1 es in ((ip, t, ok) # log, rl2))"
| "rl_run rl (Tick t # es) = rl_run (cleanup_tick t rl) es"

definition admitted :: "bytes \<Rightarrow> int \<Rightarrow> int \<Rightarrow> rl_log \<Rightarrow> nat" where
  "admitted ip a b log = length (filter (\<lambda>(i, t, ok). i = ip \<and> ok \<and> a \<le> t \<and> t \<le> b) log)"

section \<open>One client at a time\<close>

text \<open>
  What the limiter does to one client: an entry that has expired is the same as none.
\<close>

definition live :: "int \<Rightarrow> rateLimitEntry option \<Rightarrow> rateLimitEntry option" where
  "live now st = (case st of None \<Rightarrow> None
     | Some e \<Rightarrow> if now > windowEnd e then None else Some e)"

definition client_step ::
  "int \<Rightarrow> int \<Rightarrow> rateLimitEntry option \<Rightarrow> int \<Rightarrow> bool \<times> rateLimitEntry" where
  "client_step lim win st now =
     (case live now st of
        None \<Rightarrow> (True, \<lparr>count = 1, windowEnd = now + win\<rparr>)
      | Some e \<Rightarrow> (count e + 1 \<le> lim, e\<lparr>count := count e + 1\<rparr>))"

fun client_run :: "int \<Rightarrow> int \<Rightarrow> rateLimitEntry option \<Rightarrow> int list \<Rightarrow> (int \<times> bool) list" where
  "client_run lim win st [] = []"
| "client_run lim win st (t # ts) =
     (case client_step lim win st t of (ok, e) \<Rightarrow> (t, ok) # client_run lim win (Some e) ts)"

lemma allow_client_step:
  "allow ip now rl =
     (case client_step (limit rl) (window rl) (entries rl ip) now of
        (ok, e) \<Rightarrow> (ok, rl\<lparr>entries := (entries rl)(ip \<mapsto> e)\<rparr>))"
  by (auto simp: allow_def client_step_def live_def Let_def split: option.splits)

lemma cleanup_tick_live: "cleanup_tick now rl = rl\<lparr>entries := (\<lambda>ip. live now (entries rl ip))\<rparr>"
  by (auto simp: cleanup_tick_def live_def cong: option.case_cong)

lemma live_live [simp]: "s \<le> t \<Longrightarrow> live t (live s st) = live t st"
  by (auto simp: live_def split: option.splits)

lemma client_step_live: "live t st = live t st' \<Longrightarrow> client_step lim win st t = client_step lim win st' t"
  by (simp add: client_step_def)

lemma client_run_live:
  assumes "live t0 st = live t0 st'" "\<forall>t \<in> set ts. t0 \<le> t"
  shows "client_run lim win st ts = client_run lim win st' ts"
proof (cases ts)
  case (Cons t us)
  with assms have "live t st = live t st'" by (metis list.set_intros(1) live_live)
  then have "client_step lim win st t = client_step lim win st' t"
    by (rule client_step_live)
  with Cons show ?thesis by simp
qed simp

lemma limiter_frame [simp]:
  "limit (snd (allow ip t rl)) = limit rl" "window (snd (allow ip t rl)) = window rl"
  "limit (cleanup_tick t rl) = limit rl" "window (cleanup_tick t rl) = window rl"
  by (simp_all add: allow_client_step cleanup_tick_def split: prod.splits)

fun requests_of :: "bytes \<Rightarrow> rl_event list \<Rightarrow> int list" where
  "requests_of ip [] = []"
| "requests_of ip (Request i t # es) = (if i = ip then t # requests_of ip es else requests_of ip es)"
| "requests_of ip (Tick t # es) = requests_of ip es"

lemma requests_of_ge: "\<forall>e \<in> set es. t0 \<le> at e \<Longrightarrow> \<forall>t \<in> set (requests_of ip es). t0 \<le> t"
  by (induction ip es rule: requests_of.induct) auto

lemma sorted_requests_of: "sorted (map at es) \<Longrightarrow> sorted (requests_of ip es)"
proof (induction ip es rule: requests_of.induct)
  case (2 ip i t es)
  then show ?case using requests_of_ge [of es t ip] by auto
qed auto

text \<open>The log of a client is the run of that client alone: other clients and ticks do not matter.\<close>

lemma rl_run_client:
  assumes "sorted (map at es)"
  shows "map snd (filter (\<lambda>e. fst e = ip) (fst (rl_run rl es)))
    = client_run (limit rl) (window rl) (entries rl ip) (requests_of ip es)"
  using assms
proof (induction rl es rule: rl_run.induct)
  case (2 rl i t es)
  obtain ok e where s: "client_step (limit rl) (window rl) (entries rl i) t = (ok, e)"
    by fastforce
  obtain log rl2 where r: "rl_run (rl\<lparr>entries := (entries rl)(i \<mapsto> e)\<rparr>) es = (log, rl2)"
    by fastforce
  from 2 have "map snd (filter (\<lambda>e. fst e = ip) log)
      = client_run (limit rl) (window rl) (((entries rl)(i \<mapsto> e)) ip) (requests_of ip es)"
    by (simp add: allow_client_step s r)
  with s r show ?case by (auto simp: allow_client_step)
next
  case (3 rl t es)
  then have "\<forall>s \<in> set (requests_of ip es). t \<le> s"
    by (intro requests_of_ge) auto
  then have "client_run (limit rl) (window rl) (live t (entries rl ip)) (requests_of ip es)
      = client_run (limit rl) (window rl) (entries rl ip) (requests_of ip es)"
    by (rule client_run_live [rotated]) simp
  with 3 show ?case by (simp add: cleanup_tick_live)
qed simp

section \<open>Counting\<close>

definition hits :: "int \<Rightarrow> int \<Rightarrow> (int \<times> bool) list \<Rightarrow> int" where
  "hits a b xs = int (length (filter (\<lambda>(t, ok). ok \<and> a \<le> t \<and> t \<le> b) xs))"

lemma hits_simps [simp]:
  "hits a b [] = 0"
  "hits a b ((t, ok) # xs) = (if ok \<and> a \<le> t \<and> t \<le> b then 1 else 0) + hits a b xs"
  by (simp_all add: hits_def)

lemma hits_beyond: "\<forall>t \<in> set ts. b < t \<Longrightarrow> hits a b (client_run lim win st ts) = 0"
  by (induction lim win st ts rule: client_run.induct) (auto split: prod.splits)

lemma admitted_hits:
  "int (admitted ip a b log) = hits a b (map snd (filter (\<lambda>e. fst e = ip) log))"
  by (induction log) (auto simp: admitted_def hits_def split: if_splits)

text \<open>Within the current window no more than the rest of the quota is admitted.\<close>

lemma hits_current_window:
  assumes "\<forall>t \<in> set ts. s \<le> t" "sorted ts" "b \<le> windowEnd e"
  shows "hits a b (client_run lim win (Some e) ts) \<le> max 0 (lim - count e)"
  using assms
proof (induction ts arbitrary: e)
  case (Cons t ts)
  show ?case
  proof (cases "t > windowEnd e")
    case True
    with Cons.prems have "\<forall>u \<in> set (t # ts). b < u" by auto
    then have "hits a b (client_run lim win (Some e) (t # ts)) = 0" by (rule hits_beyond)
    then show ?thesis by linarith
  next
    case False
    then have step: "client_step lim win (Some e) t = (count e + 1 \<le> lim, e\<lparr>count := count e + 1\<rparr>)"
      by (simp add: client_step_def live_def)
    have "hits a b (client_run lim win (Some (e\<lparr>count := count e + 1\<rparr>)) ts)
        \<le> max 0 (lim - (count e + 1))"
      using Cons.IH [of "e\<lparr>count := count e + 1\<rparr>"] Cons.prems by simp
    with step show ?thesis by auto
  qed
qed simp

text \<open>An interval as long as the window meets at most two windows of a client.\<close>

lemma hits_two_windows:
  assumes "sorted ts" "0 \<le> win"
  shows "hits a (a + win) (client_run lim win st ts) \<le>
    (case st of Some e \<Rightarrow>
       if a \<le> windowEnd e then max 0 (lim - count e) + max 1 lim else 2 * max 1 lim
     | None \<Rightarrow> 2 * max 1 lim)"
  using assms
proof (induction ts arbitrary: st)
  case (Cons t ts)
  show ?case
  proof (cases "live t st")
    case None
    let ?new = "\<lparr>count = 1, windowEnd = t + win\<rparr>"
    have step: "client_step lim win st t = (True, ?new)"
      using None by (simp add: client_step_def)
    have stale: "windowEnd e < t" if "st = Some e" for e
      using None that by (auto simp: live_def split: if_splits)
    have rest: "hits a (a + win) (client_run lim win (Some ?new) ts) \<le> max 0 (lim - 1)" if "a \<le> t"
      using hits_current_window [of ts t "a + win" ?new a lim win] Cons.prems that by simp
    have rest': "hits a (a + win) (client_run lim win (Some ?new) ts) \<le> 2 * max 1 lim"
      using Cons.IH [of "Some ?new"] Cons.prems by (auto split: if_splits)
    show ?thesis
    proof (cases "a \<le> t")
      case True
      with rest step show ?thesis by (auto split: option.splits)
    next
      case False
      with stale rest' step show ?thesis by (fastforce split: option.splits)
    qed
  next
    case (Some e)
    then have e: "st = Some e" "\<not> t > windowEnd e"
      by (auto simp: live_def split: option.splits if_splits)
    let ?new = "e\<lparr>count := count e + 1\<rparr>"
    have step: "client_step lim win st t = (count e + 1 \<le> lim, ?new)"
      using Some by (simp add: client_step_def)
    show ?thesis
      using Cons.IH [of "Some ?new"] Cons.prems e step by (auto split: if_splits)
  qed
qed (auto split: option.splits)

text \<open>Requests at one moment inside a window are admitted while the quota lasts.\<close>

lemma client_run_burst:
  assumes "t \<le> windowEnd e" "count e + int n \<le> lim"
  shows "client_run lim win (Some e) (replicate n t @ us)
    = replicate n (t, True) @ client_run lim win (Some (e\<lparr>count := count e + int n\<rparr>)) us"
  using assms
proof (induction n arbitrary: e)
  case (Suc n)
  then have "client_step lim win (Some e) t = (True, e\<lparr>count := count e + 1\<rparr>)"
    by (simp add: client_step_def live_def)
  with Suc.IH [of "e\<lparr>count := count e + 1\<rparr>"] Suc.prems show ?case
    by (simp add: algebra_simps)
qed simp

lemma hits_append: "hits a b (xs @ ys) = hits a b xs + hits a b ys"
  by (simp add: hits_def)

lemma hits_replicate_True:
  "hits a b (replicate n (t, True)) = (if a \<le> t \<and> t \<le> b then int n else 0)"
  by (induction n) auto

lemma requests_of_simps [simp]:
  "requests_of ip (xs @ ys) = requests_of ip xs @ requests_of ip ys"
  "requests_of ip (replicate n (Request ip t)) = replicate n t"
  by (induction xs rule: requests_of.induct) (auto, induction n, auto)

section \<open>Properties\<close>

text \<open>
  C7. Whatever the requests of the other clients and the ticks of the cleanup, a client gets at
  most twice its quota admitted in any interval as long as the window; the quota is at least one,
  because the request that opens a window is always admitted.
\<close>

theorem rate_limit_interval_bound:
  assumes "sorted (map at es)" and "0 \<le> win"
  shows "int (admitted ip a (a + win) (fst (rl_run (NewRateLimiter lim win) es)))
    \<le> 2 * max 1 lim"
  using hits_two_windows [OF sorted_requests_of [OF assms(1)] assms(2), of a lim None ip]
    rl_run_client [OF assms(1), of ip "NewRateLimiter lim win"]
  by (simp add: admitted_hits NewRateLimiter_def)

theorem rate_limit_interval_bound_witness:
  "int (admitted ''10.0.0.1'' 100 200
     (fst (rl_run (NewRateLimiter 1 100)
        [Request ''10.0.0.1'' 0, Request ''10.0.0.1'' 100, Tick 101, Request ''10.0.0.1'' 101])))
   \<le> 2"
  using rate_limit_interval_bound
    [of "[Request ''10.0.0.1'' 0, Request ''10.0.0.1'' 100, Tick 101, Request ''10.0.0.1'' 101]"
      100 "''10.0.0.1''" 100 1]
  by simp

text \<open>
  From the request that opens a client's first window until that window ends, no more than
  the quota is admitted.
\<close>

theorem rate_limit_first_window:
  assumes "sorted (map at (Request ip t # es))"
  shows "int (admitted ip t (t + win) (fst (rl_run (NewRateLimiter lim win) (Request ip t # es))))
    \<le> max 1 lim"
proof -
  let ?new = "\<lparr>count = 1, windowEnd = t + win\<rparr>"
  have "sorted (requests_of ip es)" "\<forall>u \<in> set (requests_of ip es). t \<le> u"
    using sorted_requests_of [of "Request ip t # es" ip] assms by auto
  then have "hits t (t + win) (client_run lim win (Some ?new) (requests_of ip es)) \<le> max 0 (lim - 1)"
    using hits_current_window [of "requests_of ip es" t "t + win" ?new t lim win] by simp
  moreover have "client_step lim win None t = (True, ?new)"
    by (simp add: client_step_def live_def)
  ultimately show ?thesis
    using rl_run_client [OF assms, of ip "NewRateLimiter lim win"]
    by (auto simp: admitted_hits NewRateLimiter_def)
qed

theorem rate_limit_first_window_witness:
  "int (admitted ''10.0.0.1'' 0 100
     (fst (rl_run (NewRateLimiter 2 100)
        (Request ''10.0.0.1'' 0 # replicate 5 (Request ''10.0.0.1'' 50))))) \<le> 2"
  using rate_limit_first_window
    [of "''10.0.0.1''" 0 "replicate 5 (Request ''10.0.0.1'' 50)" 100 2]
  by (simp add: numeral_eq_Suc)

text \<open>
  C32. The window does not slide: one nanosecond apart, around the end of a window, a client can
  get one request less than twice its quota admitted.
\<close>

theorem rate_limit_boundary_burst:
  assumes "1 \<le> lim" and "1 \<le> win"
  shows "admitted ip (t + win) (t + win + 1)
      (fst (rl_run (NewRateLimiter (int lim) win)
         (Request ip t # replicate (lim - 1) (Request ip (t + win))
           @ replicate lim (Request ip (t + win + 1)))))
    = 2 * lim - 1"
    (is "admitted _ _ _ (fst (rl_run _ ?es)) = _")
proof -
  obtain n where n: "lim = Suc n" using assms(1) by (cases lim) auto
  let ?e = "\<lambda>k s. \<lparr>count = int k, windowEnd = s + win\<rparr>"
  have first: "client_step (int lim) win None t = (True, ?e 1 t)"
    by (simp add: client_step_def live_def)
  have full: "client_run (int lim) win (Some (?e 1 t)) (replicate n (t + win) @ us)
      = replicate n (t + win, True) @ client_run (int lim) win (Some (?e lim t)) us" for us
    using client_run_burst [of "t + win" "?e 1 t" n "int lim" win us] by (simp add: n)
  have fresh: "client_step (int lim) win (Some (?e lim t)) (t + win + 1) = (True, ?e 1 (t + win + 1))"
    by (simp add: client_step_def live_def)
  have next_window: "client_run (int lim) win (Some (?e lim t)) (replicate lim (t + win + 1))
      = replicate lim (t + win + 1, True)"
    using fresh client_run_burst [of "t + win + 1" "?e 1 (t + win + 1)" n "int lim" win "[]"] assms(2)
    by (simp add: n)
  have "sorted (map at ?es)"
    using assms(2) by (auto simp: sorted_append)
  from rl_run_client [OF this, of ip "NewRateLimiter (int lim) win"]
  have "int (admitted ip (t + win) (t + win + 1) (fst (rl_run (NewRateLimiter (int lim) win) ?es)))
      = int (2 * lim - 1)"
    using assms(2) first full [of "replicate lim (t + win + 1)"] next_window
    by (simp add: admitted_hits NewRateLimiter_def hits_append hits_replicate_True n)
  then show ?thesis by simp
qed

theorem rate_limit_boundary_burst_witness:
  "admitted ''10.0.0.1'' 60 61
      (fst (rl_run (NewRateLimiter (int 3) 60)
         (Request ''10.0.0.1'' 0 # replicate 2 (Request ''10.0.0.1'' 60)
           @ replicate 3 (Request ''10.0.0.1'' 61)))) = 5"
  using rate_limit_boundary_burst [of 3 60 "''10.0.0.1''" 0] by simp

text \<open>
  C31. Clients are independent and the cleanup is invisible: the decisions on a client's requests
  are those of a run holding these requests only.
\<close>

theorem rate_limit_noninterference:
  assumes "sorted (map at es)"
  shows "filter (\<lambda>e. fst e = ip) (fst (rl_run rl es))
    = fst (rl_run rl (map (Request ip) (requests_of ip es)))"
proof -
  have other: "filter (\<lambda>e. fst e = ip) log = map (Pair ip) (map snd (filter (\<lambda>e. fst e = ip) log))"
    for log :: rl_log by (induction log) auto
  have own: "filter (\<lambda>e. fst e = ip) (fst (rl_run r (map (Request ip) ts)))
      = fst (rl_run r (map (Request ip) ts))" for r ts
    by (induction ts arbitrary: r) (simp_all add: case_prod_beta Let_def)
  have same: "requests_of ip (map (Request ip) ts) = ts" for ts
    by (induction ts) auto
  have "sorted (map at (map (Request ip) (requests_of ip es)))"
    using sorted_requests_of [OF assms] by (simp add: comp_def)
  from rl_run_client [OF this, of ip rl] rl_run_client [OF assms, of ip rl]
  show ?thesis by (metis other own same)
qed

theorem rate_limit_noninterference_witness:
  "filter (\<lambda>e. fst e = ''a'') (fst (rl_run (NewRateLimiter 1 10)
      [Request ''a'' 0, Request ''b'' 1, Tick 2, Request ''a'' 3]))
    = fst (rl_run (NewRateLimiter 1 10) [Request ''a'' 0, Request ''a'' 3])"
  using rate_limit_noninterference
    [of "[Request ''a'' 0, Request ''b'' 1, Tick 2, Request ''a'' 3]" "''a''" "NewRateLimiter 1 10"]
  by simp

lemma client_step_windowEnd:
  assumes "client_step lim win st now = (ok, e)"
  shows "windowEnd e = now + win \<or> (\<exists>e0. st = Some e0 \<and> windowEnd e = windowEnd e0)"
  using assms by (auto simp: client_step_def live_def split: option.splits if_splits)

lemma rl_run_entries:
  assumes "entries (snd (rl_run rl es)) ip = Some e"
  shows "(\<exists>t. Request ip t \<in> set es \<and> windowEnd e = t + window rl)
    \<or> (\<exists>e0. entries rl ip = Some e0 \<and> windowEnd e = windowEnd e0)"
  using assms
proof (induction rl es rule: rl_run.induct)
  case (2 rl i t es)
  obtain ok d where s: "client_step (limit rl) (window rl) (entries rl i) t = (ok, d)"
    by fastforce
  from 2 have "(\<exists>t. Request ip t \<in> set es \<and> windowEnd e = t + window rl)
    \<or> (\<exists>e0. ((entries rl)(i \<mapsto> d)) ip = Some e0 \<and> windowEnd e = windowEnd e0)"
    by (simp add: allow_client_step s case_prod_beta Let_def)
  with client_step_windowEnd [OF s] show ?case by (fastforce split: if_splits)
next
  case (3 rl t es)
  then show ?case
    by (fastforce simp: cleanup_tick_live live_def split: option.splits if_splits)
qed auto

lemma rl_run_snoc_Tick:
  "snd (rl_run rl (es @ [Tick now])) = cleanup_tick now (snd (rl_run rl es))"
proof (induction es arbitrary: rl)
  case (Cons e es)
  then show ?case by (cases e) (simp_all add: case_prod_beta Let_def)
qed simp

text \<open>
  The memory of the limiter is bounded by its recent clients: after a tick only clients with a
  request within the last window have an entry.
\<close>

theorem rate_limit_memory:
  "dom (entries (snd (rl_run (NewRateLimiter lim win) (es @ [Tick now]))))
    \<subseteq> {ip. \<exists>t. Request ip t \<in> set es \<and> now \<le> t + win}"
proof
  fix ip
  let ?rl = "snd (rl_run (NewRateLimiter lim win) es)"
  assume "ip \<in> dom (entries (snd (rl_run (NewRateLimiter lim win) (es @ [Tick now]))))"
  then obtain e where "entries ?rl ip = Some e" "now \<le> windowEnd e"
    by (auto simp: rl_run_snoc_Tick cleanup_tick_live live_def split: option.splits if_splits)
  with rl_run_entries [of "NewRateLimiter lim win" es ip e]
  show "ip \<in> {ip. \<exists>t. Request ip t \<in> set es \<and> now \<le> t + win}"
    by (auto simp: NewRateLimiter_def)
qed

end
