(* ===== verification/Base64.thy ===== *)
theory Base64
  imports Go_Strings
begin

text \<open>
  \<open>base64.RawStdEncoding\<close> of Go's \<open>encoding/base64\<close>: the standard alphabet without padding.
  The decoder skips carriage returns and newlines, refuses every other byte outside the
  alphabet (the padding sign included), refuses a last group of one character, and ignores the
  unused low bits of the last group.
\<close>

section \<open>The alphabet\<close>

definition b64_char :: "nat \<Rightarrow> char" where
  "b64_char n =
     (if n < 26 then char_of (65 + n)
      else if n < 52 then char_of (97 + (n - 26))
      else if n < 62 then char_of (48 + (n - 52))
      else if n = 62 then CHR ''+'' else CHR ''/'')"

definition b64_val :: "char \<Rightarrow> nat option" where
  "b64_val c =
     (let b = byte c
      in if 65 \<le> b \<and> b \<le> 90 then Some (b - 65)
         else if 97 \<le> b \<and> b \<le> 122 then Some (b - 97 + 26)
         else if 48 \<le> b \<and> b \<le> 57 then Some (b - 48 + 52)
         else if b = 43 then Some 62 else if b = 47 then Some 63 else None)"

lemma b64_val_char [simp]: "n < 64 \<Longrightarrow> b64_val (b64_char n) = Some n"
  by (auto simp: b64_char_def b64_val_def Let_def)

lemma b64_val_less_64: "b64_val c = Some n \<Longrightarrow> n < 64"
  by (auto simp: b64_val_def Let_def split: if_splits)

lemma byte_b64_char:
  "n < 64 \<Longrightarrow> byte (b64_char n) \<in> {65..90} \<union> {97..122} \<union> {47..57} \<union> {43}"
  by (auto simp: b64_char_def)

section \<open>Encoding and decoding\<close>

fun b64_groups :: "nat list \<Rightarrow> nat list" where
  "b64_groups [] = []"
| "b64_groups [a] = [a div 4, (a mod 4) * 16]"
| "b64_groups [a, b] = [a div 4, (a mod 4) * 16 + b div 16, (b mod 16) * 4]"
| "b64_groups (a # b # c # r) =
     [a div 4, (a mod 4) * 16 + b div 16, (b mod 16) * 4 + c div 64, c mod 64] @ b64_groups r"

definition b64_encode :: "bytes \<Rightarrow> bytes" where
  "b64_encode s = map b64_char (b64_groups (map of_char s))"

fun b64_ungroup :: "nat list \<Rightarrow> nat list option" where
  "b64_ungroup [] = Some []"
| "b64_ungroup [p] = None"
| "b64_ungroup [p, q] = Some [p * 4 + q div 16]"
| "b64_ungroup [p, q, r] = Some [p * 4 + q div 16, (q mod 16) * 16 + r div 4]"
| "b64_ungroup (p # q # r # s # t) =
     map_option (\<lambda>u. [p * 4 + q div 16, (q mod 16) * 16 + r div 4, (r mod 4) * 64 + s] @ u)
       (b64_ungroup t)"

fun all_vals :: "bytes \<Rightarrow> nat list option" where
  "all_vals [] = Some []"
| "all_vals (c # cs) =
     (case b64_val c of None \<Rightarrow> None | Some v \<Rightarrow> map_option ((#) v) (all_vals cs))"

definition not_crlf :: "char \<Rightarrow> bool" where
  "not_crlf c \<longleftrightarrow> c \<noteq> CHR 0x0A \<and> c \<noteq> CHR 0x0D"

definition b64_decode :: "bytes \<Rightarrow> bytes option" where
  "b64_decode s =
     (case all_vals (filter not_crlf s) of
        None \<Rightarrow> None
      | Some vs \<Rightarrow> map_option (map char_of) (b64_ungroup vs))"

section \<open>Round trip\<close>

lemma b64_groups_less_64:
  "\<forall>a \<in> set bs. a < 256 \<Longrightarrow> \<forall>v \<in> set (b64_groups bs). v < 64"
  by (induction bs rule: b64_groups.induct) auto

lemma b64_ungroup_groups:
  "\<forall>a \<in> set bs. a < 256 \<Longrightarrow> b64_ungroup (b64_groups bs) = Some bs"
  by (induction bs rule: b64_groups.induct) (auto simp: algebra_simps)

lemma all_vals_map [simp]: "\<forall>v \<in> set vs. v < 64 \<Longrightarrow> all_vals (map b64_char vs) = Some vs"
  by (induction vs) auto

lemma not_crlf_b64_char: "n < 64 \<Longrightarrow> not_crlf (b64_char n)"
  using byte_b64_char [of n] by (auto simp: not_crlf_def)

lemma b64_decode_encode: "b64_decode (b64_encode s) = Some s"
proof -
  let ?g = "b64_groups (map of_char s)"
  have "\<forall>a \<in> set (map of_char s :: nat list). a < 256" by auto
  then have g: "\<forall>v \<in> set ?g. v < 64" and u: "b64_ungroup ?g = Some (map of_char s)"
    by (rule b64_groups_less_64, rule b64_ungroup_groups)
  then have "filter not_crlf (map b64_char ?g) = map b64_char ?g"
    by (auto simp: filter_id_conv not_crlf_b64_char)
  with g u show ?thesis by (simp add: b64_decode_def b64_encode_def comp_def)
qed

interpretation base64: codec b64_encode b64_decode "\<lambda>_. True"
  by unfold_locales (rule b64_decode_encode)

lemma length_b64_groups: "length (b64_groups bs) = (4 * length bs + 2) div 3"
  by (induction bs rule: b64_groups.induct) auto

lemma length_b64_encode: "length (b64_encode s) = (4 * length s + 2) div 3"
  by (simp add: b64_encode_def length_b64_groups)

lemma b64_encode_chars:
  assumes "c \<in> set (b64_encode s)"
  shows "byte c \<in> {65..90} \<union> {97..122} \<union> {47..57} \<union> {43}"
proof -
  have "\<forall>a \<in> set (map of_char s :: nat list). a < 256" by auto
  from b64_groups_less_64 [OF this] assms obtain n where "n < 64" "c = b64_char n"
    by (auto simp: b64_encode_def)
  then show ?thesis by (simp only: byte_b64_char)
qed

lemma b64_encode_no_dollar: "CHR ''$'' \<notin> set (b64_encode s)"
  using b64_encode_chars [of "CHR ''$''" s] by auto

lemma length_b64_decode:
  assumes "b64_decode s = Some t"
  shows "length t \<le> length s"
proof -
  have u: "b64_ungroup vs = Some us \<Longrightarrow> length us \<le> length vs" for vs us
    by (induction vs arbitrary: us rule: b64_ungroup.induct) fastforce+
  have v: "all_vals cs = Some vs \<Longrightarrow> length vs = length cs" for cs vs
    by (induction cs arbitrary: vs) (auto split: option.splits)
  from assms obtain vs us where "all_vals (filter not_crlf s) = Some vs"
    "b64_ungroup vs = Some us" "t = map char_of us"
    by (auto simp: b64_decode_def split: option.splits)
  with u v show ?thesis by (metis le_trans length_filter_le length_map)
qed

end
