(* ===== verification/Jwt.thy ===== *)
theory Jwt
  imports Http Base64
begin

text \<open>
  \<open>server/pkg/jwt.go\<close>: signing and verifying tokens.  The package \<open>golang-jwt\<close> is the parameter
  \<open>lib\<close>: \<open>NewWithClaims\<close> with \<open>SignedString\<close>, and \<open>Parse\<close> with a key function at a clock
  reading.  What its documentation promises and the code relies on is named below: a signed token
  is parsed back until it expires, an expired one is refused, a token whose key function fails is
  refused, and two keys may be separate (what one signs the other refuses).
\<close>

section \<open>The library\<close>

datatype sig_method = HMAC bytes | OtherMethod bytes

type_synonym claims = "bytes \<rightharpoonup> gov"

datatype claims_kind = MapClaims claims | OtherClaims

record jwt_token =
  tok_method :: sig_method
  tok_claims :: claims_kind
  tok_valid :: bool

type_synonym keyfunc = "jwt_token \<Rightarrow> bytes fallible"

record jwt_lib =
  jwt_sign :: "sig_method \<Rightarrow> claims \<Rightarrow> bytes \<Rightarrow> bytes fallible"
  jwt_parse :: "int \<Rightarrow> bytes \<Rightarrow> keyfunc \<Rightarrow> jwt_token fallible"

section \<open>TokenSigner\<close>

record TokenSigner =
  key :: bytes
  sign_method :: sig_method

definition NewTokenSigner :: "bytes \<Rightarrow> TokenSigner" where
  "NewTokenSigner k = \<lparr>key = k, sign_method = HMAC ''HS256''\<rparr>"

definition Sign :: "jwt_lib \<Rightarrow> TokenSigner \<Rightarrow> claims \<Rightarrow> bytes fallible" where
  "Sign lib ts c = jwt_sign lib (sign_method ts) c (key ts)"

text \<open>The key function \<open>Verify\<close> gives to the parser.\<close>

definition verify_keyfunc :: "TokenSigner \<Rightarrow> keyfunc" where
  "verify_keyfunc ts t =
     (case tok_method t of
        HMAC _ \<Rightarrow> Inr (key ts)
      | OtherMethod alg \<Rightarrow> Inl (''unexpected signing method: '' @ alg))"

definition Verify :: "jwt_lib \<Rightarrow> int \<Rightarrow> TokenSigner \<Rightarrow> bytes \<Rightarrow> claims fallible" where
  "Verify lib now ts tokenString =
     (case jwt_parse lib now tokenString (verify_keyfunc ts) of
        Inl e \<Rightarrow> Inl (''invalid or expired token: '' @ e)
      | Inr t \<Rightarrow>
          if \<not> tok_valid t then Inl ''invalid or expired token: %!w(<nil>)''
          else (case tok_claims t of
                  MapClaims c \<Rightarrow> Inr c
                | OtherClaims \<Rightarrow> Inl ''invalid token claims''))"

text \<open>\<open>time.Time.Unix\<close>: whole seconds since the epoch.\<close>

definition unix :: "int \<Rightarrow> int" where
  "unix t = t div 1000000000"

definition StandardClaims :: "int \<Rightarrow> bytes \<Rightarrow> int \<Rightarrow> claims" where
  "StandardClaims now uid ttl =
     [''uid'' \<mapsto> JStr uid, ''iat'' \<mapsto> JInt (unix now), ''exp'' \<mapsto> JInt (unix (now + ttl))]"

text \<open>The type assertion \<open>claims["uid"].(string)\<close> with the check for an empty text.\<close>

definition uid_claim :: "claims \<Rightarrow> bytes option" where
  "uid_claim c =
     (case c ''uid'' of
        Some (JStr uid) \<Rightarrow> if uid = [] then None else Some uid
      | _ \<Rightarrow> None)"

section \<open>What the library promises\<close>

definition jwt_round_trip :: "jwt_lib \<Rightarrow> bool" where
  "jwt_round_trip lib \<longleftrightarrow>
     (\<forall>alg c k tok now kf uid e.
        jwt_sign lib (HMAC alg) c k = Inr tok \<and> c ''uid'' = Some (JStr uid) \<and> ascii uid
        \<and> c ''exp'' = Some (JInt e) \<and> now < e * 1000000000
        \<and> (\<forall>t. tok_method t = HMAC alg \<longrightarrow> kf t = Inr k)
        \<longrightarrow> (\<exists>t c'. jwt_parse lib now tok kf = Inr t \<and> tok_valid t
               \<and> tok_claims t = MapClaims c' \<and> c' ''uid'' = Some (JStr uid)))"

definition jwt_refuses_expired :: "jwt_lib \<Rightarrow> bool" where
  "jwt_refuses_expired lib \<longleftrightarrow>
     (\<forall>alg c k tok now kf e.
        jwt_sign lib (HMAC alg) c k = Inr tok \<and> c ''exp'' = Some (JInt e)
        \<and> e * 1000000000 \<le> now \<longrightarrow> is_err (jwt_parse lib now tok kf))"

definition jwt_asks_key :: "jwt_lib \<Rightarrow> bool" where
  "jwt_asks_key lib \<longleftrightarrow>
     (\<forall>now tok kf t. jwt_parse lib now tok kf = Inr t
        \<longrightarrow> (\<exists>k. kf (t\<lparr>tok_valid := False\<rparr>) = Inr k))"

definition keys_separate :: "jwt_lib \<Rightarrow> bytes \<Rightarrow> bytes \<Rightarrow> bool" where
  "keys_separate lib k k' \<longleftrightarrow>
     (\<forall>alg c tok now kf. jwt_sign lib (HMAC alg) c k = Inr tok
        \<and> (\<forall>t. tok_method t = HMAC alg \<longrightarrow> kf t = Inr k') \<longrightarrow> is_err (jwt_parse lib now tok kf))"

text \<open>
  A library for the witnesses, which writes the algorithm, the key and the two claims into the
  token and compares the key.
\<close>

definition sample_jwt :: jwt_lib where
  "sample_jwt =
     \<lparr>jwt_sign = (\<lambda>m c k. case (m, c ''uid'', c ''exp'') of
          (HMAC alg, Some (JStr uid), Some (JInt e)) \<Rightarrow>
            if in_int64 e
            then Inr (join_byte (CHR ''.'')
                   [b64_encode alg, b64_encode k, b64_encode uid, show_int e])
            else Inl ''exp out of range''
        | _ \<Rightarrow> Inl ''unsupported''),
      jwt_parse = (\<lambda>now tok kf. case map b64_decode (split_byte (CHR ''.'') tok) of
          [Some alg, Some k, Some uid, _] \<Rightarrow>
            (case atoi (last (split_byte (CHR ''.'') tok)) of
               None \<Rightarrow> Inl ''token is malformed''
             | Some e \<Rightarrow>
                 let t = \<lparr>tok_method = HMAC alg,
                          tok_claims = MapClaims [''uid'' \<mapsto> JStr uid, ''exp'' \<mapsto> JInt e],
                          tok_valid = False\<rparr>
                 in case kf t of
                      Inl err \<Rightarrow> Inl err
                    | Inr k' \<Rightarrow>
                        if k' \<noteq> k then Inl ''signature is invalid''
                        else if e * 1000000000 \<le> now then Inl ''token is expired''
                        else Inr (t\<lparr>tok_valid := True\<rparr>))
        | _ \<Rightarrow> Inl ''token is malformed'')\<rparr>"

section \<open>Lemmas\<close>

lemma Verify_Sign:
  assumes "jwt_round_trip lib" "Sign lib (NewTokenSigner k) (StandardClaims iat uid ttl) = Inr tok"
    "ascii uid" "now < unix (iat + ttl) * 1000000000"
  shows "\<exists>c. Verify lib now (NewTokenSigner k) tok = Inr c \<and> c ''uid'' = Some (JStr uid)"
proof -
  let ?c = "StandardClaims iat uid ttl" and ?kf = "verify_keyfunc (NewTokenSigner k)"
  have "jwt_sign lib (HMAC ''HS256'') ?c k = Inr tok"
    using assms(2) by (simp add: Sign_def NewTokenSigner_def)
  moreover have "?c ''uid'' = Some (JStr uid)" "?c ''exp'' = Some (JInt (unix (iat + ttl)))"
    by (simp_all add: StandardClaims_def)
  moreover have "\<forall>t. tok_method t = HMAC ''HS256'' \<longrightarrow> ?kf t = Inr k"
    by (simp add: verify_keyfunc_def NewTokenSigner_def)
  ultimately obtain t c where "jwt_parse lib now tok ?kf = Inr t" "tok_valid t"
    "tok_claims t = MapClaims c" "c ''uid'' = Some (JStr uid)"
    using assms(1,3,4) unfolding jwt_round_trip_def by meson
  then show ?thesis by (auto simp: Verify_def)
qed

lemma Verify_expired:
  assumes "jwt_refuses_expired lib"
    and "Sign lib (NewTokenSigner k) (StandardClaims iat uid ttl) = Inr tok"
    and "unix (iat + ttl) * 1000000000 \<le> now"
  shows "is_err (Verify lib now (NewTokenSigner k') tok)"
proof -
  have "jwt_sign lib (HMAC ''HS256'') (StandardClaims iat uid ttl) k = Inr tok"
    "StandardClaims iat uid ttl ''exp'' = Some (JInt (unix (iat + ttl)))"
    using assms(2) by (simp_all add: Sign_def NewTokenSigner_def StandardClaims_def)
  with assms(1,3) have "is_err (jwt_parse lib now tok (verify_keyfunc (NewTokenSigner k')))"
    unfolding jwt_refuses_expired_def by meson
  then show ?thesis by (auto simp: Verify_def is_err_def split: sum.splits)
qed

lemma Verify_other_key:
  assumes "keys_separate lib k k'" "Sign lib (NewTokenSigner k) c = Inr tok"
  shows "is_err (Verify lib now (NewTokenSigner k') tok)"
proof -
  have "jwt_sign lib (HMAC ''HS256'') c k = Inr tok"
    "\<forall>t. tok_method t = HMAC ''HS256'' \<longrightarrow> verify_keyfunc (NewTokenSigner k') t = Inr k'"
    using assms(2) by (simp_all add: Sign_def NewTokenSigner_def verify_keyfunc_def)
  with assms(1) have "is_err (jwt_parse lib now tok (verify_keyfunc (NewTokenSigner k')))"
    unfolding keys_separate_def by meson
  then show ?thesis by (auto simp: Verify_def is_err_def split: sum.splits)
qed

lemma uid_claim_Some: "c ''uid'' = Some (JStr uid) \<Longrightarrow> uid \<noteq> [] \<Longrightarrow> uid_claim c = Some uid"
  by (simp add: uid_claim_def)

lemma uid_claim_nonempty: "uid_claim c = Some uid \<Longrightarrow> uid \<noteq> []"
  by (auto simp: uid_claim_def split: option.splits gov.splits if_splits)

text \<open>The sample library keeps every promise.\<close>

lemma b64_encode_no_dot: "CHR ''.'' \<notin> set (b64_encode s)"
  using b64_encode_chars [of "CHR ''.''" s] by auto

lemma show_int_no_dot: "CHR ''.'' \<notin> set (show_int i)"
  by (simp add: show_int_def show_nat_no_byte is_digit_def)

lemma sample_token_split:
  "split_byte (CHR ''.'') (join_byte (CHR ''.'') [b64_encode a, b64_encode k, b64_encode u, show_int e])
    = [b64_encode a, b64_encode k, b64_encode u, show_int e]"
  by (rule split_join_byte) (simp_all add: b64_encode_no_dot show_int_no_dot)

lemma sample_jwt_sign:
  assumes "jwt_sign sample_jwt m c k = Inr tok"
  obtains alg uid e where "m = HMAC alg" "c ''uid'' = Some (JStr uid)"
    "c ''exp'' = Some (JInt e)" "in_int64 e"
    "tok = join_byte (CHR ''.'') [b64_encode alg, b64_encode k, b64_encode uid, show_int e]"
  using assms
  by (auto simp: sample_jwt_def split: sig_method.splits option.splits gov.splits if_splits)

lemma sample_parse:
  assumes "in_int64 e"
  shows "jwt_parse sample_jwt now
      (join_byte (CHR ''.'') [b64_encode a, b64_encode k, b64_encode u, show_int e]) kf =
    (let t = \<lparr>tok_method = HMAC a, tok_claims = MapClaims [''uid'' \<mapsto> JStr u, ''exp'' \<mapsto> JInt e],
              tok_valid = False\<rparr>
     in case kf t of
          Inl err \<Rightarrow> Inl err
        | Inr k' \<Rightarrow>
            if k' \<noteq> k then Inl ''signature is invalid''
            else if e * 1000000000 \<le> now then Inl ''token is expired''
            else Inr (t\<lparr>tok_valid := True\<rparr>))"
  using assms
  by (simp add: sample_jwt_def sample_token_split b64_decode_encode atoi_show_int Let_def
      del: join_byte.simps)

lemma sample_jwt_ok:
  "jwt_round_trip sample_jwt" "jwt_refuses_expired sample_jwt" "jwt_asks_key sample_jwt"
  "k \<noteq> k' \<Longrightarrow> keys_separate sample_jwt k k'"
proof -
  show "jwt_round_trip sample_jwt"
    unfolding jwt_round_trip_def
    by (auto elim!: sample_jwt_sign simp: sample_parse Let_def simp del: join_byte.simps)
  show "jwt_refuses_expired sample_jwt"
    unfolding jwt_refuses_expired_def
    by (auto elim!: sample_jwt_sign simp: sample_parse Let_def simp del: join_byte.simps split: sum.splits)
  show "jwt_asks_key sample_jwt"
    unfolding jwt_asks_key_def
    by (auto simp: sample_jwt_def Let_def split: list.splits option.splits sum.splits if_splits)
  show "k \<noteq> k' \<Longrightarrow> keys_separate sample_jwt k k'"
    unfolding keys_separate_def
    by (auto elim!: sample_jwt_sign simp: sample_parse Let_def simp del: join_byte.simps)
qed

end
