(* ===== verification/Middlewares.thy ===== *)
theory Middlewares
  imports Handlers Rate_Limit Jwt
begin

text \<open>
  The middlewares of \<open>server/internal/middlewares\<close>, over a state that holds the rate limiter and
  the access log.  What a middleware reads from outside the request is an argument: the process
  environment \<open>env\<close>, the clock, the random request id, whether a log file could be opened, the
  JWT library.
\<close>

section \<open>State\<close>

record access_entry =
  al_method :: bytes
  al_path :: bytes
  al_status :: int
  al_duration :: int
  al_ip :: bytes
  al_request_id :: bytes
  al_details :: "(bytes \<times> (bytes \<rightharpoonup> bytes) \<times> bytes) option"

record incoming_entry =
  in_error :: "bytes option"
  in_request_id :: bytes
  in_method :: bytes
  in_path :: bytes

record web =
  limiter :: RateLimiter
  events_log :: "access_entry list"
  stdout_log :: "access_entry list"
  app_log :: "incoming_entry list"

section \<open>Request ids\<close>

text \<open>
  \<open>RequestIDMiddleware\<close>.  \<open>logger_ok\<close> is false where \<open>pkg.NewLogger\<close> returns nil; the first use
  of the nil logger panics.  \<open>app_log\<close> is what the middleware logs, to the file and to the standard output
  alike: the line \<open>Incoming request\<close> of each request, or the error where no id could be drawn.
\<close>

definition incoming :: "bytes fallible \<Rightarrow> 'b request \<Rightarrow> incoming_entry" where
  "incoming uuid r =
     (case uuid of
        Inl err \<Rightarrow> \<lparr>in_error = Some err, in_request_id = [], in_method = [], in_path = []\<rparr>
      | Inr rid \<Rightarrow> \<lparr>in_error = None, in_request_id = rid, in_method = req_method r, in_path = req_path r\<rparr>)"

definition log_incoming :: "incoming_entry \<Rightarrow> 'a web_scheme \<Rightarrow> 'a web_scheme" where
  "log_incoming e w = w\<lparr>app_log := app_log w @ [e]\<rparr>"

lemma log_incoming_web [simp]:
  "limiter (log_incoming e w) = limiter w" "events_log (log_incoming e w) = events_log w"
  "stdout_log (log_incoming e w) = stdout_log w" "app_log (log_incoming e w) = app_log w @ [e]"
  by (simp_all add: log_incoming_def)

definition RequestIDMiddleware ::
  "bool \<Rightarrow> bytes fallible \<Rightarrow> ('b, 'a web_scheme) handler \<Rightarrow> ('b, 'a web_scheme) handler" where
  "RequestIDMiddleware logger_ok uuid next r s =
     (case uuid of
        Inl err \<Rightarrow>
          if \<not> logger_ok then Panicked s
          else next r (log_incoming (incoming uuid r) (fst s), snd s)
      | Inr rid \<Rightarrow>
          let s = (fst s, set_header ''X-Request-ID'' rid (snd s))
          in if \<not> logger_ok then Panicked s
             else next r (log_incoming (incoming uuid r) (fst s), snd s))"

section \<open>CORS\<close>

definition cors_allowed :: "bytes \<Rightarrow> bytes \<Rightarrow> bool" where
  "cors_allowed allowedOrigins origin \<longleftrightarrow> contains allowedOrigins origin"

definition request_origin :: "'b request \<Rightarrow> bytes" where
  "request_origin r =
     (let origin = hget (req_header r) ''Origin''
      in if origin = [] then hget (req_header r) ''Host'' else origin)"

definition cors_headers :: "bytes \<Rightarrow> bytes \<Rightarrow> response \<Rightarrow> response" where
  "cors_headers allowedOrigins origin w =
     (let w = (if cors_allowed allowedOrigins origin
               then set_header ''Access-Control-Allow-Origin'' origin w else w);
          w = set_header ''Access-Control-Allow-Methods''
                ''GET, POST, PUT, PATCH, DELETE, OPTIONS'' w;
          w = set_header ''Access-Control-Allow-Headers''
                ''Content-Type, Authorization, X-Request-ID'' w;
          w = set_header ''Access-Control-Allow-Credentials'' ''true'' w
      in set_header ''Access-Control-Expose-Headers'' ''X-Request-ID'' w)"

definition CORSMiddleware ::
  "(bytes \<rightharpoonup> bytes) \<Rightarrow> ('b, 'w) handler \<Rightarrow> ('b, 'w) handler" where
  "CORSMiddleware env next r s =
     (let allowedOrigins = GetEnv env ''CORS_ORIGINS'' ''http://localhost:3000,http://localhost:5173'';
          w = cors_headers allowedOrigins (request_origin r) (snd s)
      in if req_method r = ''OPTIONS'' then Done (fst s, WriteHeader 204 w)
         else next r (fst s, w))"

section \<open>Rate limiting\<close>

definition rate_limited :: "'b request \<Rightarrow> response \<Rightarrow> response" where
  "rate_limited r w =
     hw_JSON [(''success'', JBool False),
              (''message'', JStr ''rate limit exceeded, please slow down'')]
       (hw_Status 429 (NewHttpWriter w r))"

definition RateLimitMiddleware ::
  "int \<Rightarrow> ('b, 'a web_scheme) handler \<Rightarrow> ('b, 'a web_scheme) handler" where
  "RateLimitMiddleware now next r s =
     (let (ok, rl) = allow (GetIP r) now (limiter (fst s));
          s = ((fst s)\<lparr>limiter := rl\<rparr>, snd s)
      in if \<not> ok then Done (fst s, rate_limited r (snd s)) else next r s)"

section \<open>Access log\<close>

text \<open>\<open>strings.EqualFold(env, "development")\<close>: no letter of this word has a non-ASCII fold.\<close>

definition log_details :: "bytes \<Rightarrow> bool" where
  "log_details env \<longleftrightarrow> map lower_byte env = ''development''"

definition access_args :: "bool \<Rightarrow> bytes \<Rightarrow> int \<Rightarrow> 'b request \<Rightarrow> int \<Rightarrow> response \<Rightarrow> access_entry" where
  "access_args details body duration r code w =
     \<lparr>al_method = req_method r, al_path = req_path r, al_status = code,
      al_duration = duration, al_ip = GetIP r,
      al_request_id = hget (rsp_header w) ''X-Request-ID'',
      al_details = (if details then Some (req_query r, req_vars r, body) else None)\<rparr>"

text \<open>
  Mounting \<open>LoggerMiddleware\<close> makes sure of its directory and its file before the first request;
  failures are reported and mounting goes on.  A file that is there is left as it is.
\<close>

record log_files =
  logs_dir :: bool
  events_file :: "bytes option"

definition LoggerMiddleware_mount ::
  "bytes option \<Rightarrow> bytes option \<Rightarrow> log_files \<Rightarrow> log_files \<times> bytes list" where
  "LoggerMiddleware_mount mkdir_err create_err fs =
     (let (fs, out) =
        (if logs_dir fs then (fs, [])
         else case mkdir_err of
             None \<Rightarrow> (fs\<lparr>logs_dir := True\<rparr>, [])
           | Some err \<Rightarrow> (fs, [''Failed to create logs directory'']))
      in if events_file fs \<noteq> None then (fs, out)
         else if create_err = None \<and> logs_dir fs then (fs\<lparr>events_file := Some []\<rparr>, out)
         else (fs, out @ [''Failed to create events log file'']))"

lemma mount_keeps_log:
  "events_file fs = Some text \<Longrightarrow> events_file (fst (LoggerMiddleware_mount mk cr fs)) = Some text"
  "mk = None \<Longrightarrow> cr = None \<Longrightarrow> events_file (fst (LoggerMiddleware_mount mk cr fs)) \<noteq> None"
  by (auto simp: LoggerMiddleware_mount_def split: option.splits)

text \<open>
  \<open>LoggerMiddleware\<close>, with the clock before and after the handler, for a writer that is not
  wrapped yet.  The body is read and put back, so the handler sees the same request.
\<close>

definition LoggerMiddleware ::
  "bytes \<Rightarrow> bool \<Rightarrow> int \<Rightarrow> int \<Rightarrow> ('b, 'a web_scheme) handler \<Rightarrow> ('b, 'a web_scheme) handler" where
  "LoggerMiddleware env file_ok start finish next r s =
     (let details = log_details env;
          body = (if details then (case req_body r of Some b \<Rightarrow> b | None \<Rightarrow> []) else []);
          unwrap = (\<lambda>(w, rsp). (w, rsp\<lparr>rsp_capture := None\<rparr>))
      in case next r (fst s, (snd s)\<lparr>rsp_capture := Some 200\<rparr>) of
           Panicked t \<Rightarrow> Panicked (unwrap t)
         | Done t \<Rightarrow>
             let code = (case rsp_capture (snd t) of Some c \<Rightarrow> c | None \<Rightarrow> 200);
                 entry = access_args details body (finish - start) r code (snd t);
                 w = (if file_ok then (fst t)\<lparr>events_log := events_log (fst t) @ [entry]\<rparr>
                      else fst t);
                 w = w\<lparr>stdout_log := stdout_log w @ [entry]\<rparr>
             in Done (unwrap (w, snd t)))"

section \<open>Authentication\<close>

text \<open>The \<open>jwt\<close> cookie where there is one, else the bearer token of the header.\<close>

definition extractToken :: "'b request \<Rightarrow> bytes" where
  "extractToken r =
     (case map_of (req_cookies r) ''jwt'' of
        Some v \<Rightarrow> v
      | None \<Rightarrow>
          let auth = hget (req_header r) ''Authorization''
          in if prefix ''Bearer '' auth then trim_prefix auth ''Bearer '' else [])"

definition unauthorized :: "'b request \<Rightarrow> bytes \<Rightarrow> response \<Rightarrow> response" where
  "unauthorized r message w =
     hw_JSON [(''success'', JBool False), (''message'', JStr message)]
       (hw_Status 401 (NewHttpWriter w r))"

definition access_signer :: "(bytes \<rightharpoonup> bytes) \<Rightarrow> TokenSigner" where
  "access_signer env = NewTokenSigner (GetEnv env ''JWT_SECRET'' ''change-me'')"

definition Guard ::
  "jwt_lib \<Rightarrow> (bytes \<rightharpoonup> bytes) \<Rightarrow> int \<Rightarrow> ('b, 'w) handler \<Rightarrow> ('b, 'w) handler" where
  "Guard lib env now next r s =
     (let token = extractToken r
      in if token = [] then Done (fst s, unauthorized r ''missing or malformed token'' (snd s))
         else case Verify lib now (access_signer env) token of
             Inl err \<Rightarrow> Done (fst s, unauthorized r ''invalid or expired token'' (snd s))
           | Inr claims \<Rightarrow>
               (case uid_claim claims of
                  None \<Rightarrow> Done (fst s, unauthorized r ''token is missing uid claim'' (snd s))
                | Some uid \<Rightarrow> next (r\<lparr>ctx_uid := Some uid\<rparr>) s))"

definition OptionalGuard ::
  "jwt_lib \<Rightarrow> (bytes \<rightharpoonup> bytes) \<Rightarrow> int \<Rightarrow> ('b, 'w) handler \<Rightarrow> ('b, 'w) handler" where
  "OptionalGuard lib env now next r s =
     (let token = extractToken r
      in if token = [] then next r s
         else case Verify lib now (access_signer env) token of
             Inl err \<Rightarrow> next r s
           | Inr claims \<Rightarrow>
               (case uid_claim claims of
                  Some uid \<Rightarrow> next (r\<lparr>ctx_uid := Some uid\<rparr>) s
                | None \<Rightarrow> next r s))"

definition UIDFromContext :: "'b request \<Rightarrow> bytes" where
  "UIDFromContext r = (case ctx_uid r of Some uid \<Rightarrow> uid | None \<Rightarrow> [])"

section \<open>Body validation\<close>

definition contextWithBody :: "'b \<Rightarrow> 'b request \<Rightarrow> 'b request" where
  "contextWithBody v r = r\<lparr>ctx_body := Some v\<rparr>"

declare contextWithBody_def [simp]

text \<open>
  \<open>Validate[T]\<close>: \<open>decode\<close> is the JSON decoder into \<open>T\<close>, \<open>validate\<close> the method \<open>(*T).Validate\<close>,
  which may rewrite its receiver, and \<open>wrap\<close> the conversion of a \<open>T\<close> to the \<open>any\<close> of the context.
\<close>

definition Validate ::
  "(bytes \<Rightarrow> 'd fallible) \<Rightarrow> ('d \<Rightarrow> bytes option \<times> 'd) \<Rightarrow> ('d \<Rightarrow> 'b) \<Rightarrow>
   ('b, 'w) handler \<Rightarrow> ('b, 'w) handler" where
  "Validate decode validate wrap next r s =
     (case ParseBody decode r of
        Inl err \<Rightarrow> Done (fst s, SendResponse (snd s) (ApiError err None 400))
      | Inr input \<Rightarrow>
          (case validate input of
             (Some err, _) \<Rightarrow> Done (fst s, SendResponse (snd s) (ApiError err None 422))
           | (None, input) \<Rightarrow> next (contextWithBody (wrap input) r) s))"

text \<open>\<open>BodyFromContext[T]\<close>: the zero value where nothing of type \<open>T\<close> was stored.\<close>

definition BodyFromContext :: "('b \<Rightarrow> 'd option) \<Rightarrow> 'd \<Rightarrow> 'b request \<Rightarrow> 'd" where
  "BodyFromContext proj zero r =
     (case ctx_body r of
        Some v \<Rightarrow> (case proj v of Some d \<Rightarrow> d | None \<Rightarrow> zero)
      | None \<Rightarrow> zero)"

section \<open>Every middleware keeps the contract\<close>

interpretation request_id: middleware
  "RequestIDMiddleware logger_ok uuid ::
     ('b, 'a web_scheme) handler \<Rightarrow> ('b, 'a web_scheme) handler"
  for logger_ok uuid
proof (unfold_locales, cases logger_ok)
  fix r :: "'b request" and s :: "'a web_scheme \<times> response"
  let ?mw = "RequestIDMiddleware logger_ok uuid :: ('b, 'a web_scheme) handler \<Rightarrow> ('b, 'a web_scheme) handler"
  case True
  then show "answers ?mw r s \<or> (\<exists>r' s'. forwards ?mw r s r' s')"
    by (cases uuid; intro mw_forward [where r' = r]) (simp_all add: RequestIDMiddleware_def Let_def)
next
  fix r :: "'b request" and s :: "'a web_scheme \<times> response"
  let ?mw = "RequestIDMiddleware logger_ok uuid :: ('b, 'a web_scheme) handler \<Rightarrow> ('b, 'a web_scheme) handler"
  case False
  then show "answers ?mw r s \<or> (\<exists>r' s'. forwards ?mw r s r' s')"
    by (cases uuid; intro mw_answer) (simp_all add: RequestIDMiddleware_def Let_def)
qed

interpretation cors: middleware
  "CORSMiddleware env ::
     ('b, 'w) handler \<Rightarrow> ('b, 'w) handler"
  for env
proof
  fix r :: "'b request" and s :: "'w \<times> response"
  let ?mw = "CORSMiddleware env :: ('b, 'w) handler \<Rightarrow> ('b, 'w) handler"
  show "answers ?mw r s \<or> (\<exists>r' s'. forwards ?mw r s r' s')"
  proof (cases "req_method r = ''OPTIONS''")
    case True
    then show ?thesis by (intro mw_answer) (simp add: CORSMiddleware_def Let_def)
  next
    case False
    then show ?thesis
      by (intro mw_forward [where r' = r]) (simp_all add: CORSMiddleware_def Let_def)
  qed
qed

interpretation rate_limit: middleware
  "RateLimitMiddleware now ::
     ('b, 'a web_scheme) handler \<Rightarrow> ('b, 'a web_scheme) handler"
  for now
proof
  fix r :: "'b request" and s :: "'a web_scheme \<times> response"
  let ?mw = "RateLimitMiddleware now :: ('b, 'a web_scheme) handler \<Rightarrow> ('b, 'a web_scheme) handler"
  obtain ok rl where a: "allow (GetIP r) now (limiter (fst s)) = (ok, rl)" by fastforce
  show "answers ?mw r s \<or> (\<exists>r' s'. forwards ?mw r s r' s')"
  proof (cases ok)
    case True
    with a show ?thesis
      by (intro mw_forward [where r' = r]) (simp_all add: RateLimitMiddleware_def Let_def)
  next
    case False
    with a show ?thesis by (intro mw_answer) (simp add: RateLimitMiddleware_def Let_def)
  qed
qed

interpretation logger: middleware
  "LoggerMiddleware env file_ok start finish ::
     ('b, 'a web_scheme) handler \<Rightarrow> ('b, 'a web_scheme) handler"
  for env file_ok start finish
proof
  fix r :: "'b request" and s :: "'a web_scheme \<times> response"
  let ?mw = "LoggerMiddleware env file_ok start finish
    :: ('b, 'a web_scheme) handler \<Rightarrow> ('b, 'a web_scheme) handler"
  have "forwards ?mw r s r (fst s, (snd s)\<lparr>rsp_capture := Some 200\<rparr>)"
    by (rule forwardsI [OF same_request_refl]) (simp only: LoggerMiddleware_def Let_def)
  then show "answers ?mw r s \<or> (\<exists>r' s'. forwards ?mw r s r' s')" by blast
qed

interpretation guard: middleware
  "Guard lib env now ::
     ('b, 'w) handler \<Rightarrow> ('b, 'w) handler"
  for lib env now
proof
  fix r :: "'b request" and s :: "'w \<times> response"
  let ?mw = "Guard lib env now :: ('b, 'w) handler \<Rightarrow> ('b, 'w) handler"
  let ?v = "Verify lib now (access_signer env) (extractToken r)"
  consider "extractToken r = [] \<or> (\<forall>c. ?v = Inr c \<longrightarrow> uid_claim c = None)"
    | c uid where "extractToken r \<noteq> []" "?v = Inr c" "uid_claim c = Some uid"
    by (meson not_None_eq)
  then show "answers ?mw r s \<or> (\<exists>r' s'. forwards ?mw r s r' s')"
  proof cases
    case 1
    then show ?thesis
      by (cases "extractToken r = []"; cases ?v; intro mw_answer) (auto simp: Guard_def Let_def)
  next
    case 2
    then show ?thesis
      by (intro mw_forward [where r' = "r\<lparr>ctx_uid := Some uid\<rparr>"])
        (simp_all add: Guard_def Let_def)
  qed
qed

interpretation optional_guard: middleware
  "OptionalGuard lib env now ::
     ('b, 'w) handler \<Rightarrow> ('b, 'w) handler"
  for lib env now
proof
  fix r :: "'b request" and s :: "'w \<times> response"
  let ?mw = "OptionalGuard lib env now :: ('b, 'w) handler \<Rightarrow> ('b, 'w) handler"
  let ?v = "Verify lib now (access_signer env) (extractToken r)"
  consider "extractToken r = [] \<or> (\<forall>c. ?v = Inr c \<longrightarrow> uid_claim c = None)"
    | c uid where "extractToken r \<noteq> []" "?v = Inr c" "uid_claim c = Some uid"
    by (meson not_None_eq)
  then show "answers ?mw r s \<or> (\<exists>r' s'. forwards ?mw r s r' s')"
  proof cases
    case 1
    then show ?thesis
      by (intro mw_forward [where r' = r]) (auto simp: OptionalGuard_def Let_def split: sum.splits)
  next
    case 2
    then show ?thesis
      by (intro mw_forward [where r' = "r\<lparr>ctx_uid := Some uid\<rparr>"])
        (simp_all add: OptionalGuard_def Let_def)
  qed
qed

interpretation validate: middleware
  "Validate decode validate wrap ::
     ('b, 'w) handler \<Rightarrow> ('b, 'w) handler"
  for decode validate wrap
proof
  fix r :: "'b request" and s :: "'w \<times> response"
  let ?mw = "Validate decode validate wrap :: ('b, 'w) handler \<Rightarrow> ('b, 'w) handler"
  show "answers ?mw r s \<or> (\<exists>r' s'. forwards ?mw r s r' s')"
  proof (cases "ParseBody decode r")
    case (Inl e)
    then show ?thesis by (intro mw_answer) (simp add: Validate_def)
  next
    case (Inr input)
    obtain err input' where v: "validate input = (err, input')" by fastforce
    show ?thesis
    proof (cases err)
      case None
      with Inr v show ?thesis
        by (intro mw_forward [where r' = "r\<lparr>ctx_body := Some (wrap input')\<rparr>"])
          (simp_all add: Validate_def)
    next
      case (Some e)
      with Inr v show ?thesis by (intro mw_answer) (simp add: Validate_def)
    qed
  qed
qed

end
