(* ===== verification/Auth_Schema.thy ===== *)
theory Auth_Schema
  imports Middlewares
begin

text \<open>
  \<open>server/internal/modules/auth/auth.schema.go\<close>: the request bodies of the auth endpoints and
  their \<open>Validate\<close> methods, with the contract between such a type and the \<open>Validate\<close>
  middleware.  A method returns the text of its error, if any, and the receiver as it left it.
\<close>

section \<open>Input types\<close>

record RegisterInput =
  ri_FirstName :: bytes
  ri_LastName :: bytes
  ri_Email :: bytes
  ri_Password :: bytes

record LoginInput =
  li_Email :: bytes
  li_Password :: bytes

record RefreshInput =
  rf_RefreshToken :: bytes

definition RegisterInput_Validate ::
  "(bytes \<Rightarrow> bytes) \<Rightarrow> RegisterInput \<Rightarrow> bytes option \<times> RegisterInput" where
  "RegisterInput_Validate uni i =
     (let i = i\<lparr>ri_Email := trim_space (to_lower uni (ri_Email i))\<rparr>;
          i = i\<lparr>ri_FirstName := trim_space (ri_FirstName i)\<rparr>;
          i = i\<lparr>ri_LastName := trim_space (ri_LastName i)\<rparr>
      in if ri_FirstName i = [] then (Some ''first_name is required'', i)
         else if ri_Email i = [] \<or> \<not> contains (ri_Email i) ''@''
         then (Some ''a valid email is required'', i)
         else if length (ri_Password i) < 8
         then (Some ''password must be at least 8 characters'', i)
         else (None, i))"

definition LoginInput_Validate ::
  "(bytes \<Rightarrow> bytes) \<Rightarrow> LoginInput \<Rightarrow> bytes option \<times> LoginInput" where
  "LoginInput_Validate uni i =
     (let i = i\<lparr>li_Email := trim_space (to_lower uni (li_Email i))\<rparr>
      in if li_Email i = [] then (Some ''email is required'', i)
         else if li_Password i = [] then (Some ''password is required'', i)
         else (None, i))"

definition RefreshInput_Validate :: "RefreshInput \<Rightarrow> bytes option \<times> RefreshInput" where
  "RefreshInput_Validate i =
     (if trim_space (rf_RefreshToken i) = [] then (Some ''refresh_token is required'', i)
      else (None, i))"

text \<open>The value of the request context, and the type assertion to each of the types.\<close>

datatype body =
  RegisterBody RegisterInput | LoginBody LoginInput | RefreshBody RefreshInput

primrec as_register :: "body \<Rightarrow> RegisterInput option" where
  "as_register (RegisterBody i) = Some i"
| "as_register (LoginBody i) = None"
| "as_register (RefreshBody i) = None"

primrec as_login :: "body \<Rightarrow> LoginInput option" where
  "as_login (RegisterBody i) = None"
| "as_login (LoginBody i) = Some i"
| "as_login (RefreshBody i) = None"

primrec as_refresh :: "body \<Rightarrow> RefreshInput option" where
  "as_refresh (RegisterBody i) = None"
| "as_refresh (LoginBody i) = None"
| "as_refresh (RefreshBody i) = Some i"

definition zero_register :: RegisterInput where
  "zero_register = \<lparr>ri_FirstName = [], ri_LastName = [], ri_Email = [], ri_Password = []\<rparr>"

definition zero_login :: LoginInput where
  "zero_login = \<lparr>li_Email = [], li_Password = []\<rparr>"

definition zero_refresh :: RefreshInput where
  "zero_refresh = \<lparr>rf_RefreshToken = []\<rparr>"

section \<open>The contract of a validated input type\<close>

text \<open>
  A type the middleware can validate: what \<open>validate\<close> lets pass satisfies \<open>accepted\<close>, and the
  context gives a stored value back.
\<close>

locale validatable =
  fixes validate :: "'d \<Rightarrow> bytes option \<times> 'd"
    and accepted :: "'d \<Rightarrow> bool"
    and wrap :: "'d \<Rightarrow> 'b"
    and proj :: "'b \<Rightarrow> 'd option"
  assumes accepts: "validate i = (None, j) \<Longrightarrow> accepted j"
    and proj_wrap: "proj (wrap j) = Some j"
begin

lemma body_stored: "BodyFromContext proj zero (r\<lparr>ctx_body := Some (wrap j)\<rparr>) = j"
  by (simp add: BodyFromContext_def proj_wrap)

text \<open>
  The handler behind the middleware sees accepted bodies only: two handlers that agree on them
  cannot be told apart.
\<close>

lemma validated_only:
  assumes "\<And>r' s'. same_request r r' \<Longrightarrow> accepted (BodyFromContext proj zero r')
      \<Longrightarrow> next r' s' = next' r' s'"
  shows "Validate decode validate wrap next r s = Validate decode validate wrap next' r s"
proof (cases "ParseBody decode r")
  case (Inr i)
  obtain err j where v: "validate i = (err, j)" by fastforce
  show ?thesis
  proof (cases err)
    case None
    with v have "accepted j" by (simp add: accepts)
    with assms [of "r\<lparr>ctx_body := Some (wrap j)\<rparr>"] Inr v None show ?thesis
      by (simp add: Validate_def body_stored)
  qed (use Inr v in \<open>simp add: Validate_def\<close>)
qed (simp add: Validate_def)

text \<open>What the middleware answers itself: 400 for a body it cannot read, 422 for one it refuses.\<close>

lemma Validate_cases:
  obtains (unreadable) e where "ParseBody decode r = Inl e"
      "Validate decode validate wrap next r s = Done (fst s, SendResponse (snd s) (ApiError e None 400))"
  | (refused) i e j where "ParseBody decode r = Inr i" "validate i = (Some e, j)"
      "Validate decode validate wrap next r s = Done (fst s, SendResponse (snd s) (ApiError e None 422))"
  | (passed) i j where "ParseBody decode r = Inr i" "validate i = (None, j)" "accepted j"
      "Validate decode validate wrap next r s = next (r\<lparr>ctx_body := Some (wrap j)\<rparr>) s"
proof (cases "ParseBody decode r")
  case (Inl e)
  with that(1) show ?thesis by (simp add: Validate_def)
next
  case (Inr i)
  obtain err j where v: "validate i = (err, j)" by fastforce
  with Inr that(2,3) accepts [of i j] show ?thesis
    by (cases err) (simp_all add: Validate_def)
qed

end

section \<open>The three types meet it\<close>

definition accepted_register :: "RegisterInput \<Rightarrow> bool" where
  "accepted_register i \<longleftrightarrow>
     ri_FirstName i \<noteq> [] \<and> contains (ri_Email i) ''@'' \<and> 8 \<le> length (ri_Password i)
     \<and> trim_space (ri_FirstName i) = ri_FirstName i \<and> trim_space (ri_LastName i) = ri_LastName i
     \<and> trim_space (ri_Email i) = ri_Email i"

definition accepted_login :: "LoginInput \<Rightarrow> bool" where
  "accepted_login i \<longleftrightarrow>
     li_Email i \<noteq> [] \<and> trim_space (li_Email i) = li_Email i \<and> li_Password i \<noteq> []"

definition accepted_refresh :: "RefreshInput \<Rightarrow> bool" where
  "accepted_refresh i \<longleftrightarrow> trim_space (rf_RefreshToken i) \<noteq> []"

interpretation register_input: validatable
  "RegisterInput_Validate uni" accepted_register RegisterBody as_register for uni
  by unfold_locales
    (auto simp: RegisterInput_Validate_def accepted_register_def Let_def split: if_splits)

interpretation login_input: validatable
  "LoginInput_Validate uni" accepted_login LoginBody as_login for uni
  by unfold_locales
    (auto simp: LoginInput_Validate_def accepted_login_def Let_def split: if_splits)

interpretation refresh_input: validatable
  RefreshInput_Validate accepted_refresh RefreshBody as_refresh
  by unfold_locales
    (auto simp: RefreshInput_Validate_def accepted_refresh_def split: if_splits)

text \<open>
  The two endpoints that take an email normalise it alike: a registration whose email passes
  validation and a login with any spelling of that email, in upper or lower case and with
  surrounding white space, look up the same account name.
\<close>
theorem email_spellings_agree:
  assumes "RegisterInput_Validate uni i = (None, i')" "LoginInput_Validate uni l = (None, l')"
    and "ascii (ri_Email i)" "ascii (li_Email l)"
    and "map lower_byte (trim_space (ri_Email i)) = map lower_byte (trim_space (li_Email l))"
  shows "ri_Email i' = li_Email l'"
proof -
  have "ri_Email i' = trim_space (map lower_byte (ri_Email i))"
    using assms(1,3)
    by (auto simp: RegisterInput_Validate_def to_lower_def Let_def split: if_splits)
  moreover have "li_Email l' = trim_space (map lower_byte (li_Email l))"
    using assms(2,4)
    by (auto simp: LoginInput_Validate_def to_lower_def Let_def split: if_splits)
  ultimately show ?thesis
    using assms(5) by (simp add: trim_space_lower)
qed

theorem email_spellings_agree_witness:
  "ri_Email \<lparr>ri_FirstName = ''Ann'', ri_LastName = [], ri_Email = ''a@b.c'', ri_Password = ''12345678''\<rparr>
   = li_Email \<lparr>li_Email = ''a@b.c'', li_Password = ''x''\<rparr>"
  by (rule email_spellings_agree
      [where i = "\<lparr>ri_FirstName = ''Ann '', ri_LastName = [], ri_Email = ''A@b.c '', ri_Password = ''12345678''\<rparr>"
        and l = "\<lparr>li_Email = '' a@B.c'', li_Password = ''x''\<rparr>" and uni = id]) code_simp+

end
