(* ===== verification/Password.thy ===== *)
theory Password
  imports Go_Format Base64 "HOL-Library.Monad_Syntax"
begin

text \<open>
  \<open>server/pkg/password.go\<close>: Argon2id hashes in PHC string format.  The key derivation function
  \<open>argon2.IDKey\<close> (package \<open>golang.org/x/crypto\<close>) is the parameter \<open>kdf\<close>, the random source
  \<open>rand.Read\<close> the parameter \<open>rnd\<close>: \<open>rnd n\<close> fills a buffer of \<open>n\<close> bytes.  What the code
  relies on is named: \<open>kdf_length\<close> (the key has the length asked for) and \<open>kdf_guards\<close> (the
  function panics for zero passes or zero threads), both from the package documentation.
\<close>

section \<open>Parameters and errors\<close>

record argon2Params =
  memory :: "32 word"
  iterations :: "32 word"
  parallelism :: "8 word"
  saltLen :: "32 word"
  keyLen :: "32 word"

definition defaultParams :: argon2Params where
  "defaultParams =
     \<lparr>memory = 64 * 1024, iterations = 3, parallelism = 4, saltLen = 16, keyLen = 32\<rparr>"

definition argon2_Version :: int where
  "argon2_Version = 19"

type_synonym kdf = "bytes \<Rightarrow> bytes \<Rightarrow> 32 word \<Rightarrow> 32 word \<Rightarrow> 8 word \<Rightarrow> 32 word \<Rightarrow> bytes go"

definition kdf_length :: "kdf \<Rightarrow> bool" where
  "kdf_length kdf \<longleftrightarrow>
     (\<forall>pw salt t m p k key. kdf pw salt t m p k = Ret key \<longrightarrow> length key = unat k)"

definition kdf_guards :: "kdf \<Rightarrow> bool" where
  "kdf_guards kdf \<longleftrightarrow>
     (\<forall>pw salt t m p k. t = 0 \<or> p = 0 \<longrightarrow> (\<exists>msg. kdf pw salt t m p k = Panic msg))"

datatype hash_error =
  WrongSegments | UnsupportedAlgorithm bytes | ParsingVersion | IncompatibleVersion int
  | ParsingParams | DecodingSalt | DecodingHash

datatype compare_error = DecodingFailed hash_error | PasswordMismatch

section \<open>Hashing\<close>

text \<open>The PHC string built by \<open>fmt.Sprintf\<close> in \<open>HashPassword\<close>.\<close>

definition phc_string :: "argon2Params \<Rightarrow> bytes \<Rightarrow> bytes \<Rightarrow> bytes" where
  "phc_string p salt hash =
     ''$argon2id$v='' @ show_int argon2_Version
     @ ''$m='' @ show_nat (unat (memory p))
     @ '',t='' @ show_nat (unat (iterations p))
     @ '',p='' @ show_nat (unat (parallelism p))
     @ ''$'' @ b64_encode salt @ ''$'' @ b64_encode hash"

definition HashPassword :: "(nat \<Rightarrow> bytes fallible) \<Rightarrow> kdf \<Rightarrow> bytes \<Rightarrow> bytes fallible go" where
  "HashPassword rnd kdf plain =
     (case rnd (unat (saltLen defaultParams)) of
        Inl e \<Rightarrow> Ret (Inl (''generating salt: '' @ e))
      | Inr salt \<Rightarrow>
          go_map (\<lambda>hash. Inr (phc_string defaultParams salt hash))
            (kdf plain salt (iterations defaultParams) (memory defaultParams)
               (parallelism defaultParams) (keyLen defaultParams)))"

section \<open>Decoding and comparing\<close>

text \<open>\<open>fmt.Sscanf(s, "v=%d")\<close> and \<open>fmt.Sscanf(s, "m=%d,t=%d,p=%d")\<close>.\<close>

definition scan_version :: "bytes \<Rightarrow> int option" where
  "scan_version s = do {
     s \<leftarrow> scan_lit ''v='' s;
     (v, _) \<leftarrow> scan_int s;
     Some v
   }"

definition scan_params :: "bytes \<Rightarrow> (nat \<times> nat \<times> nat) option" where
  "scan_params s = do {
     s \<leftarrow> scan_lit ''m='' s;
     (m, s) \<leftarrow> scan_uint 32 s;
     s \<leftarrow> scan_lit '',t='' s;
     (t, s) \<leftarrow> scan_uint 32 s;
     s \<leftarrow> scan_lit '',p='' s;
     (p, _) \<leftarrow> scan_uint 8 s;
     Some (m, t, p)
   }"

definition decodeHash :: "bytes \<Rightarrow> hash_error + (argon2Params \<times> bytes \<times> bytes)" where
  "decodeHash encoded =
     (case split_byte (CHR ''$'') encoded of
        [_, alg, ver, par, salt64, hash64] \<Rightarrow>
          if alg \<noteq> ''argon2id'' then Inl (UnsupportedAlgorithm alg)
          else (case scan_version ver of
            None \<Rightarrow> Inl ParsingVersion
          | Some version \<Rightarrow>
              if version \<noteq> argon2_Version then Inl (IncompatibleVersion version)
              else (case scan_params par of
                None \<Rightarrow> Inl ParsingParams
              | Some (m, t, p) \<Rightarrow>
                  (case b64_decode salt64 of
                     None \<Rightarrow> Inl DecodingSalt
                   | Some salt \<Rightarrow>
                       (case b64_decode hash64 of
                          None \<Rightarrow> Inl DecodingHash
                        | Some hash \<Rightarrow>
                            Inr (\<lparr>memory = of_nat m, iterations = of_nat t,
                                  parallelism = of_nat p, saltLen = 0,
                                  keyLen = of_nat (length hash)\<rparr>, salt, hash)))))
      | _ \<Rightarrow> Inl WrongSegments)"

text \<open>\<open>subtle.ConstantTimeCompare\<close> is 1 for equal slices and 0 otherwise.\<close>

definition ConstantTimeCompare :: "bytes \<Rightarrow> bytes \<Rightarrow> int" where
  "ConstantTimeCompare x y = (if x = y then 1 else 0)"

definition ComparePassword :: "kdf \<Rightarrow> bytes \<Rightarrow> bytes \<Rightarrow> compare_error option go" where
  "ComparePassword kdf encoded plain =
     (case decodeHash encoded of
        Inl e \<Rightarrow> Ret (Some (DecodingFailed e))
      | Inr (p, salt, hash) \<Rightarrow>
          go_map (\<lambda>other. if ConstantTimeCompare hash other \<noteq> 1 then Some PasswordMismatch
                          else None)
            (kdf plain salt (iterations p) (memory p) (parallelism p) (keyLen p)))"

section \<open>The PHC string is parsed back\<close>

lemma not_digit_punct [simp]:
  "\<not> is_digit (CHR ''$'')" "\<not> is_digit (CHR '','')" "\<not> is_digit (CHR ''='')"
  "\<not> is_digit (CHR ''m'')" "\<not> is_digit (CHR ''t'')" "\<not> is_digit (CHR ''p'')"
  by (simp_all add: is_digit_def)

lemma no_digit_head_simps [simp]:
  "no_digit_head []" "no_digit_head (c # s) \<longleftrightarrow> \<not> is_digit c"
  by (simp_all add: no_digit_head_def)

lemma scan_version_phc: "scan_version (''v='' @ show_int argon2_Version) = Some argon2_Version"
  using scan_int_show [of 19 "[]"]
  by (simp add: scan_version_def argon2_Version_def show_int_def scan_lit_def)

lemma scan_params_phc:
  assumes "m < 2 ^ 32" "t < 2 ^ 32" "p < 2 ^ 8"
  shows "scan_params (''m='' @ show_nat m @ '',t='' @ show_nat t @ '',p='' @ show_nat p)
    = Some (m, t, p)"
  using assms scan_uint_show [of m 32] scan_uint_show [of t 32] scan_uint_show [of p 8 "[]"]
  by (simp add: scan_params_def scan_lit_def)

lemma phc_split:
  "split_byte (CHR ''$'') (phc_string p salt hash) =
     [[], ''argon2id'', ''v='' @ show_int argon2_Version,
      ''m='' @ show_nat (unat (memory p)) @ '',t='' @ show_nat (unat (iterations p))
        @ '',p='' @ show_nat (unat (parallelism p)),
      b64_encode salt, b64_encode hash]"
proof -
  let ?ps = "[[], ''argon2id'', ''v='' @ show_int argon2_Version,
      ''m='' @ show_nat (unat (memory p)) @ '',t='' @ show_nat (unat (iterations p))
        @ '',p='' @ show_nat (unat (parallelism p)),
      b64_encode salt, b64_encode hash]"
  have "phc_string p salt hash = join_byte (CHR ''$'') ?ps"
    by (simp add: phc_string_def)
  moreover have "\<forall>q \<in> set ?ps. CHR ''$'' \<notin> set q"
    by (simp add: show_int_def argon2_Version_def show_nat_no_byte b64_encode_no_dollar)
  ultimately show ?thesis by (metis list.discI split_join_byte)
qed

lemma decodeHash_phc:
  "decodeHash (phc_string p salt hash) =
     Inr (p\<lparr>saltLen := 0, keyLen := of_nat (length hash)\<rparr>, salt, hash)"
proof -
  have "unat (memory p) < 2 ^ 32" "unat (iterations p) < 2 ^ 32" "unat (parallelism p) < 2 ^ 8"
    using unsigned_less [of "memory p"] unsigned_less [of "iterations p"]
      unsigned_less [of "parallelism p"]
    by simp_all
  then show ?thesis
    unfolding decodeHash_def phc_split
    using scan_version_phc scan_params_phc
    by (simp add: b64_decode_encode)
qed

lemma HashPassword_Ret:
  assumes "HashPassword rnd kdf pw = Ret (Inr h)"
  obtains salt key where "rnd 16 = Inr salt" "kdf pw salt 3 65536 4 32 = Ret key"
    "h = phc_string defaultParams salt key"
  using assms by (auto simp: HashPassword_def defaultParams_def split: sum.splits)

lemma ComparePassword_phc:
  assumes "length key = 32"
  shows "ComparePassword kdf (phc_string defaultParams salt key) pw =
    go_map (\<lambda>other. if key \<noteq> other then Some PasswordMismatch else None)
      (kdf pw salt 3 65536 4 32)"
  using assms
  by (cases "kdf pw salt 3 65536 4 32")
    (simp_all add: ComparePassword_def decodeHash_phc defaultParams_def ConstantTimeCompare_def)

lemma show_nat_literals:
  "show_nat 19 = ''19''" "show_nat 65536 = ''65536''" "show_nat 3 = ''3''" "show_nat 4 = ''4''"
  by (simp_all add: show_nat.simps digit_def char_of_eq_iff)

lemma phc_default:
  "phc_string defaultParams salt key =
     ''$argon2id$v=19$m=65536,t=3,p=4$'' @ b64_encode salt @ ''$'' @ b64_encode key"
  by (simp add: phc_string_def defaultParams_def argon2_Version_def show_int_def
      show_nat_literals)

lemma ascii_b64_encode: "ascii (b64_encode s)"
  by (auto simp: ascii_def dest!: b64_encode_chars)

lemma ascii_phc_default: "ascii (phc_string defaultParams salt key)"
  using ascii_b64_encode [of salt] ascii_b64_encode [of key]
  by (auto simp: phc_default ascii_def)

lemma HashPassword_shape:
  assumes "kdf_length kdf" "\<And>salt. rnd 16 = Inr salt \<Longrightarrow> length salt = 16"
    and "HashPassword rnd kdf pw = Ret (Inr h)"
  shows "length h = 97 \<and> ascii h"
proof -
  obtain salt key where "rnd 16 = Inr salt" "kdf pw salt 3 65536 4 32 = Ret key"
    and h: "h = phc_string defaultParams salt key"
    by (rule HashPassword_Ret [OF assms(3)])
  with assms(1,2) have "length salt = 16" "length key = 32"
    by (force simp: kdf_length_def)+
  then show ?thesis
    by (simp add: h ascii_phc_default) (simp add: phc_default length_b64_encode)
qed

section \<open>Properties\<close>

text \<open>
  A derivation function for the witnesses: the password, cut or filled up to the key length.
\<close>

definition sample_kdf :: kdf where
  "sample_kdf pw salt t m p k =
     (if t = 0 then Panic ''argon2: number of rounds too small''
      else if p = 0 then Panic ''argon2: parallelism degree too low''
      else Ret (take (unat k) (pw @ replicate (unat k) (CHR 0x00))))"

lemma sample_kdf_ok: "kdf_length sample_kdf" "kdf_guards sample_kdf"
  by (auto simp: kdf_length_def kdf_guards_def sample_kdf_def)

text \<open>
  C25. A stored hash accepts the password it was made from, and accepts another password exactly
  when the derivation function maps both to the same key under the stored salt.
\<close>

theorem ComparePassword_HashPassword:
  assumes "kdf_length kdf" and "rnd 16 = Inr salt"
    and "HashPassword rnd kdf pw = Ret (Inr h)"
  shows "ComparePassword kdf h pw = Ret None
    \<and> (ComparePassword kdf h pw' = Ret None
         \<longleftrightarrow> kdf pw' salt 3 65536 4 32 = kdf pw salt 3 65536 4 32)"
proof -
  obtain key where key: "kdf pw salt 3 65536 4 32 = Ret key"
    and h: "h = phc_string defaultParams salt key"
    using assms(2,3) by (auto elim!: HashPassword_Ret)
  with assms(1) have "length key = 32" by (force simp: kdf_length_def)
  then have "ComparePassword kdf h q = Ret None \<longleftrightarrow> kdf q salt 3 65536 4 32 = Ret key" for q
    by (auto simp: h ComparePassword_phc)
  then show ?thesis by (simp add: key)
qed

theorem ComparePassword_HashPassword_witness:
  "\<exists>h. HashPassword (\<lambda>n. Inr (replicate n (CHR ''s''))) sample_kdf ''secret'' = Ret (Inr h)
     \<and> ComparePassword sample_kdf h ''secret'' = Ret None
     \<and> ComparePassword sample_kdf h ''Secret'' \<noteq> Ret None"
proof -
  let ?rnd = "\<lambda>n. Inr (replicate n (CHR ''s'')) :: bytes fallible"
  obtain h where h: "HashPassword ?rnd sample_kdf ''secret'' = Ret (Inr h)"
    by (simp add: HashPassword_def sample_kdf_def defaultParams_def)
  have r: "?rnd 16 = Inr (replicate 16 (CHR ''s''))" by simp
  show ?thesis
    using h ComparePassword_HashPassword [where rnd = ?rnd and pw' = "''Secret''",
        OF sample_kdf_ok(1) r h]
    by (auto simp: sample_kdf_def)
qed

text \<open>
  A stored hash whose parameters ask for zero passes or zero threads is not reported as
  malformed: \<open>decodeHash\<close> accepts it and the comparison panics.
\<close>

theorem ComparePassword_zero_params_panics:
  assumes "kdf_guards kdf" and "iterations p = 0 \<or> parallelism p = 0"
  shows "(\<exists>q. decodeHash (phc_string p salt hash) = Inr (q, salt, hash))
    \<and> (\<exists>msg. ComparePassword kdf (phc_string p salt hash) pw = Panic msg)"
proof -
  obtain msg where "kdf pw salt (iterations p) (memory p) (parallelism p)
      (of_nat (length hash)) = Panic msg"
    using assms unfolding kdf_guards_def by blast
  then show ?thesis by (simp add: ComparePassword_def decodeHash_phc)
qed

theorem ComparePassword_zero_params_panics_witness:
  "\<exists>msg. ComparePassword sample_kdf
     (phc_string (defaultParams\<lparr>iterations := 0\<rparr>) ''salt'' ''hash'') ''pw'' = Panic msg"
  using ComparePassword_zero_params_panics [OF sample_kdf_ok(2),
      of "defaultParams\<lparr>iterations := 0\<rparr>" "''salt''" "''hash''" "''pw''"]
  by simp

text \<open>
  \<open>decodeHash\<close> ignores whatever follows the version number and the last parameter inside
  their segments: a string no encoder wrote decodes to the same parameters, salt and hash.
\<close>

theorem decodeHash_trailing_text:
  assumes "no_digit_head junk" "no_digit_head junk'"
    and "CHR ''$'' \<notin> set junk" "CHR ''$'' \<notin> set junk'"
    and "m < 2 ^ 32" "t < 2 ^ 32" "p < 2 ^ 8"
  shows "decodeHash (join_byte (CHR ''$'')
      [[], ''argon2id'', ''v=19'' @ junk,
       ''m='' @ show_nat m @ '',t='' @ show_nat t @ '',p='' @ show_nat p @ junk',
       b64_encode salt, b64_encode hash])
    = Inr (\<lparr>memory = of_nat m, iterations = of_nat t, parallelism = of_nat p,
            saltLen = 0, keyLen = of_nat (length hash)\<rparr>, salt, hash)"
    (is "decodeHash (join_byte _ ?ps) = _")
proof -
  have "\<forall>q \<in> set ?ps. CHR ''$'' \<notin> set q"
    using assms(3,4) by (simp add: show_nat_no_byte b64_encode_no_dollar)
  then have split: "split_byte (CHR ''$'') (join_byte (CHR ''$'') ?ps) = ?ps"
    by (intro split_join_byte) simp_all
  have "scan_version (''v=19'' @ junk) = Some 19"
    using scan_int_show [of 19 junk] assms(1)
    by (simp add: scan_version_def scan_lit_def show_nat_literals)
  moreover have "scan_params (''m='' @ show_nat m @ '',t='' @ show_nat t @ '',p='' @ show_nat p @ junk')
      = Some (m, t, p)"
    using assms scan_uint_show [of m 32] scan_uint_show [of t 32] scan_uint_show [of p 8 junk']
    by (simp add: scan_params_def scan_lit_def)
  ultimately show ?thesis
    unfolding decodeHash_def split by (simp add: argon2_Version_def b64_decode_encode)
qed

theorem decodeHash_trailing_text_witness:
  "decodeHash (join_byte (CHR ''$'')
      [[], ''argon2id'', ''v=19'' @ ''.junk'',
       ''m='' @ show_nat 65536 @ '',t='' @ show_nat 3 @ '',p='' @ show_nat 4 @ '' or more'',
       b64_encode ''salt'', b64_encode ''hash''])
    = Inr (\<lparr>memory = of_nat 65536, iterations = of_nat 3, parallelism = of_nat 4,
            saltLen = 0, keyLen = of_nat (length ''hash'')\<rparr>, ''salt'', ''hash'')"
  by (rule decodeHash_trailing_text) (simp_all add: is_digit_def)

end
