(* ===== verification/Utf8.thy ===== *)
theory Utf8
  imports Go_Strings
begin

text \<open>
  UTF-8 (RFC 3629), as the column types of the database and \<open>encoding/json\<close> read it: a string
  is split into the encodings of its characters, or is refused.
\<close>

definition in_range :: "bytes \<Rightarrow> nat \<Rightarrow> nat \<Rightarrow> nat \<Rightarrow> bool" where
  "in_range s i lo hi \<longleftrightarrow> i < length s \<and> lo \<le> byte (s ! i) \<and> byte (s ! i) \<le> hi"

text \<open>
  The length of the character at the front, 0 where there is none: \<open>utf8_len b rng\<close> for its
  first byte \<open>b\<close>, where \<open>rng i lo hi\<close> tells that byte \<open>i\<close> is between \<open>lo\<close> and \<open>hi\<close>.
\<close>

definition utf8_len :: "nat \<Rightarrow> (nat \<Rightarrow> nat \<Rightarrow> nat \<Rightarrow> bool) \<Rightarrow> nat" where
  "utf8_len b rng =
     (let cont = (\<lambda>i. rng i 128 191)
      in if b < 128 then 1
         else if 194 \<le> b \<and> b \<le> 223 then (if cont 1 then 2 else 0)
         else if b = 224 then (if rng 1 160 191 \<and> cont 2 then 3 else 0)
         else if b = 237 then (if rng 1 128 159 \<and> cont 2 then 3 else 0)
         else if 225 \<le> b \<and> b \<le> 239 then (if cont 1 \<and> cont 2 then 3 else 0)
         else if b = 240 then (if rng 1 144 191 \<and> cont 2 \<and> cont 3 then 4 else 0)
         else if 241 \<le> b \<and> b \<le> 243 then (if cont 1 \<and> cont 2 \<and> cont 3 then 4 else 0)
         else if b = 244 then (if rng 1 128 143 \<and> cont 2 \<and> cont 3 then 4 else 0)
         else 0)"

definition utf8_head :: "bytes \<Rightarrow> nat" where
  "utf8_head s = (case s of [] \<Rightarrow> 0 | c # _ \<Rightarrow> utf8_len (byte c) (in_range s))"

function utf8_chars :: "bytes \<Rightarrow> bytes list option" where
  "utf8_chars s =
     (if s = [] then Some []
      else if utf8_head s = 0 then None
      else map_option ((#) (take (utf8_head s) s)) (utf8_chars (drop (utf8_head s) s)))"
  by pat_completeness auto
termination by (relation "measure length") auto

declare utf8_chars.simps [simp del]

lemma utf8_chars_Nil [simp]: "utf8_chars [] = Some []"
  by (simp add: utf8_chars.simps)

lemma utf8_chars_ascii: "ascii s \<Longrightarrow> utf8_chars s = Some (map (\<lambda>c. [c]) s)"
proof (induction s)
  case (Cons c s)
  then have "utf8_head (c # s) = 1" "ascii s"
    by (auto simp: utf8_head_def utf8_len_def ascii_def)
  with Cons.IH show ?case by (simp add: utf8_chars.simps [of "c # s"])
qed simp

lemma concat_utf8_chars: "utf8_chars s = Some cs \<Longrightarrow> concat cs = s"
proof (induction s arbitrary: cs rule: utf8_chars.induct)
  case (1 s)
  show ?case
  proof (cases "s = [] \<or> utf8_head s = 0")
    case True
    with "1.prems" show ?thesis
      by (cases "s = []") (simp_all add: utf8_chars.simps [of s])
  next
    case False
    with "1.prems" obtain ds where "utf8_chars (drop (utf8_head s) s) = Some ds"
      "cs = take (utf8_head s) s # ds"
      by (auto simp: utf8_chars.simps [of s])
    with False "1.IH" show ?thesis by simp
  qed
qed

text \<open>Every prefix of whole characters splits into those characters.\<close>

lemma utf8_leads:
  "b < 128 \<or> (128 \<le> b \<and> b < 194) \<or> (194 \<le> b \<and> b \<le> 223) \<or> b = 224 \<or> b = 237
   \<or> (225 \<le> b \<and> b \<le> 239 \<and> b \<noteq> 237) \<or> b = 240 \<or> (241 \<le> b \<and> b \<le> 243) \<or> b = 244 \<or> 244 < b"
  for b :: nat
  by linarith

lemma utf8_len_cong:
  assumes "utf8_len b rng = h" "h \<noteq> 0" "\<And>i lo hi. i < h \<Longrightarrow> rng' i lo hi = rng i lo hi"
  shows "utf8_len b rng' = h"
  using utf8_leads [of b] assms(1,2) assms(3) [of 1] assms(3) [of 2] assms(3) [of 3]
  by (elim disjE) (simp_all add: utf8_len_def Let_def split: if_splits)

lemma utf8_len_le:
  assumes "\<And>i lo hi. rng i lo hi \<Longrightarrow> i < n" "0 < n"
  shows "utf8_len b rng \<le> n"
proof -
  have "rng 1 lo hi \<Longrightarrow> 2 \<le> n" "rng 2 lo hi \<Longrightarrow> 3 \<le> n" "rng 3 lo hi \<Longrightarrow> 4 \<le> n" for lo hi
    using assms(1) [of 1 lo hi] assms(1) [of 2 lo hi] assms(1) [of 3 lo hi] by auto
  with utf8_leads [of b] assms(2) show ?thesis
    by (elim disjE) (simp_all add: utf8_len_def Let_def, blast+)
qed

lemma utf8_head_length: "utf8_head s \<le> length s"
proof (cases s)
  case (Cons c s')
  then have "utf8_len (byte c) (in_range s) \<le> length s"
    by (intro utf8_len_le) (auto simp: in_range_def)
  with Cons show ?thesis by (simp add: utf8_head_def)
qed (simp add: utf8_head_def)

lemma utf8_head_take:
  assumes "utf8_head s = h" "h \<noteq> 0"
  shows "utf8_head (take h s @ t) = h"
proof -
  obtain c s' where s: "s = c # s'"
    using assms by (cases s) (auto simp: utf8_head_def)
  obtain s'' where s'': "take h s @ t = c # s''"
    using assms(2) s by (cases h) auto
  have "utf8_len (byte c) (in_range (take h s @ t)) = h"
  proof (rule utf8_len_cong [OF _ assms(2)])
    show "utf8_len (byte c) (in_range s) = h"
      using assms(1) by (simp add: s utf8_head_def)
    show "in_range (take h s @ t) i lo hi = in_range s i lo hi" if "i < h" for i lo hi
      using that assms(1) utf8_head_length [of s] by (auto simp: in_range_def nth_append)
  qed
  then show ?thesis by (simp add: s'' utf8_head_def)
qed

lemma utf8_chars_take:
  "utf8_chars s = Some cs \<Longrightarrow> utf8_chars (concat (take n cs)) = Some (take n cs)"
proof (induction s arbitrary: cs n rule: utf8_chars.induct)
  case (1 s)
  show ?case
  proof (cases "s = [] \<or> utf8_head s = 0 \<or> n = 0")
    case True
    with "1.prems" show ?thesis
      by (cases "s = []") (auto simp: utf8_chars.simps [of s] split: if_splits)
  next
    case False
    let ?h = "utf8_head s"
    from False "1.prems" obtain ds where ds: "utf8_chars (drop ?h s) = Some ds"
      "cs = take ?h s # ds"
      by (auto simp: utf8_chars.simps [of s])
    obtain m where n: "n = Suc m" using False by (cases n) auto
    have "length (take ?h s) = ?h"
      using utf8_head_length [of s] by simp
    moreover have "utf8_head (take ?h s @ t) = ?h" for t
      using False by (intro utf8_head_take) auto
    moreover have "utf8_chars (concat (take m ds)) = Some (take m ds)"
      using False "1.IH" ds(1) by simp
    ultimately show ?thesis
      using False by (simp add: ds(2) n utf8_chars.simps [of "take ?h s @ _"])
  qed
qed

end
