(* ===== verification/Repository.thy ===== *)
theory Repository
  imports Utf8
begin

text \<open>
  The data layer: \<open>server/internal/db/repository\<close> (row structs and query methods) over the tables
  of \<open>server/internal/db/migrations/000001_init_auth.up.sql\<close>.  Each method runs the SQL text of
  its constant; the model executes that statement on the tables, with the constraints of the
  schema: primary keys, \<open>UNIQUE (email)\<close>, the foreign key \<open>actor_user_id\<close> with
  \<open>ON DELETE SET NULL\<close>, and the column lengths, counted in characters.

  What the database engine adds is an argument: \<open>fault\<close> makes a statement fail without effect
  (a lost connection, a cancelled context), \<open>uuid\<close> is the value of \<open>uuid_generate_v4()\<close> and
  \<open>now\<close> that of \<open>CURRENT_TIMESTAMP\<close>.  Error texts name the failed check.
\<close>

section \<open>Rows\<close>

text \<open>\<open>pgtype.UUID\<close>; a NULL is the value with \<open>Valid\<close> false.\<close>

record pg_uuid =
  Bytes :: bytes
  Valid :: bool

definition null_uuid :: pg_uuid where
  "null_uuid = \<lparr>Bytes = replicate 16 (CHR 0x00), Valid = False\<rparr>"

record user =
  u_ID :: pg_uuid
  u_FirstName :: bytes
  u_LastName :: bytes
  u_Email :: bytes
  u_Password :: bytes
  u_Verified :: bool
  u_CreatedAt :: int
  u_UpdatedAt :: int

record audit_log =
  a_ID :: pg_uuid
  a_ActorUserID :: pg_uuid
  a_Action :: bytes
  a_Entity :: bytes
  a_Metadata :: "bytes option"
  a_Ip :: "bytes option"
  a_UserAgent :: "bytes option"
  a_CreatedAt :: int

record db =
  users :: "user list"
  audit_logs :: "audit_log list"

definition empty_db :: db where
  "empty_db = \<lparr>users = [], audit_logs = []\<rparr>"

text \<open>
  \<open>StringToUUID\<close>: \<open>scan\<close> is \<open>pgtype.UUID.Scan\<close>, which yields the sixteen bytes, and \<open>quote\<close>
  the verb \<open>%q\<close>.
\<close>

definition StringToUUID ::
  "(bytes \<Rightarrow> bytes fallible) \<Rightarrow> (bytes \<Rightarrow> bytes) \<Rightarrow> bytes \<Rightarrow> pg_uuid fallible" where
  "StringToUUID scan quote s =
     (case scan s of
        Inl err \<Rightarrow> Inl (''invalid UUID '' @ quote s @ '': '' @ err)
      | Inr b \<Rightarrow> Inr \<lparr>Bytes = b, Valid = True\<rparr>)"

section \<open>Column types\<close>

text \<open>A text parameter is refused unless it is UTF-8 without NUL.\<close>

definition pg_text :: "bytes \<Rightarrow> bytes fallible" where
  "pg_text s =
     (if utf8_chars s = None \<or> CHR 0x00 \<in> set s then Inl ''invalid byte sequence'' else Inr s)"

text \<open>Assignment to \<open>VARCHAR(n)\<close>: surplus characters are cut off when all are blanks.\<close>

definition varchar :: "nat \<Rightarrow> bytes \<Rightarrow> bytes fallible" where
  "varchar n s = and_then (pg_text s) (\<lambda>s.
     case utf8_chars s of
       None \<Rightarrow> Inl ''invalid byte sequence''
     | Some cs \<Rightarrow>
         if length cs \<le> n then Inr s
         else if list_all (\<lambda>c. c = '' '') (drop n cs) then Inr (concat (take n cs))
         else Inl ''value too long'')"

section \<open>Users\<close>

record CreateUserParams =
  FirstName :: bytes
  LastName :: bytes
  Email :: bytes
  Passwd :: bytes

definition new_user :: "bytes \<Rightarrow> int \<Rightarrow> CreateUserParams \<Rightarrow> db \<Rightarrow> user fallible" where
  "new_user uuid now arg d =
     and_then (varchar 50 (FirstName arg)) (\<lambda>first.
     and_then (varchar 50 (LastName arg)) (\<lambda>last.
     and_then (varchar 100 (Email arg)) (\<lambda>email.
     and_then (varchar 255 (Passwd arg)) (\<lambda>pw.
       if uuid \<in> Bytes ` u_ID ` set (users d) then Inl ''duplicate key users_pkey''
       else if email \<in> u_Email ` set (users d) then Inl ''duplicate key users_email_key''
       else Inr \<lparr>u_ID = \<lparr>Bytes = uuid, Valid = True\<rparr>, u_FirstName = first, u_LastName = last,
                 u_Email = email, u_Password = pw, u_Verified = False,
                 u_CreatedAt = now, u_UpdatedAt = now\<rparr>))))"

text \<open>
  A fault changes nothing here.  That the connection may also break after the row was stored is
  added where it matters, in \<open>Auth_Service\<close> (\<open>unconfirmed\<close>).
\<close>

definition CreateUser ::
  "bytes option \<Rightarrow> bytes \<Rightarrow> int \<Rightarrow> CreateUserParams \<Rightarrow> db \<Rightarrow> user fallible \<times> db" where
  "CreateUser fault uuid now arg d =
     (case fault of
        Some e \<Rightarrow> (Inl e, d)
      | None \<Rightarrow>
          (case new_user uuid now arg d of
             Inl e \<Rightarrow> (Inl e, d)
           | Inr u \<Rightarrow> (Inr u, d\<lparr>users := users d @ [u]\<rparr>)))"

text \<open>\<open>row.Scan\<close> on an empty result fails.\<close>

definition scan_one :: "'r option \<Rightarrow> 'r fallible" where
  "scan_one r = (case r of None \<Rightarrow> Inl ''no rows in result set'' | Some u \<Rightarrow> Inr u)"

definition GetUserByEmail :: "bytes option \<Rightarrow> bytes \<Rightarrow> db \<Rightarrow> user fallible" where
  "GetUserByEmail fault email d =
     (case fault of
        Some e \<Rightarrow> Inl e
      | None \<Rightarrow> and_then (pg_text email) (\<lambda>email.
          scan_one (find (\<lambda>u. u_Email u = email) (users d))))"

text \<open>A comparison with NULL selects no row.\<close>

definition GetUserByID :: "bytes option \<Rightarrow> pg_uuid \<Rightarrow> db \<Rightarrow> user fallible" where
  "GetUserByID fault uid d =
     (case fault of
        Some e \<Rightarrow> Inl e
      | None \<Rightarrow> scan_one (find (\<lambda>u. Valid uid \<and> Bytes (u_ID u) = Bytes uid) (users d)))"

text \<open>\<open>UPDATE users SET ... WHERE id = $1 RETURNING ...\<close> with one row scanned.\<close>

definition update_user :: "pg_uuid \<Rightarrow> (user \<Rightarrow> user) \<Rightarrow> db \<Rightarrow> user fallible \<times> db" where
  "update_user uid f d =
     (let hit = (\<lambda>u. Valid uid \<and> Bytes (u_ID u) = Bytes uid)
      in (scan_one (map_option f (find hit (users d))),
          d\<lparr>users := map (\<lambda>u. if hit u then f u else u) (users d)\<rparr>))"

definition VerifyUser :: "bytes option \<Rightarrow> int \<Rightarrow> pg_uuid \<Rightarrow> db \<Rightarrow> user fallible \<times> db" where
  "VerifyUser fault now uid d =
     (case fault of
        Some e \<Rightarrow> (Inl e, d)
      | None \<Rightarrow> update_user uid (\<lambda>u. u\<lparr>u_Verified := True, u_UpdatedAt := now\<rparr>) d)"

record UpdateUserPasswordParams =
  up_ID :: pg_uuid
  up_Password :: bytes

definition UpdateUserPassword ::
  "bytes option \<Rightarrow> int \<Rightarrow> UpdateUserPasswordParams \<Rightarrow> db \<Rightarrow> user fallible \<times> db" where
  "UpdateUserPassword fault now arg d =
     (case fault of
        Some e \<Rightarrow> (Inl e, d)
      | None \<Rightarrow>
          (case varchar 255 (up_Password arg) of
             Inl e \<Rightarrow> (Inl e, d)
           | Inr pw \<Rightarrow>
               update_user (up_ID arg) (\<lambda>u. u\<lparr>u_Password := pw, u_UpdatedAt := now\<rparr>) d))"

text \<open>\<open>DELETE FROM users WHERE id = $1\<close>; the foreign key sets the actor of its logs to NULL.\<close>

definition DeleteUser :: "bytes option \<Rightarrow> pg_uuid \<Rightarrow> db \<Rightarrow> bytes option \<times> db" where
  "DeleteUser fault uid d =
     (case fault of
        Some e \<Rightarrow> (Some e, d)
      | None \<Rightarrow>
          (None,
           if Valid uid then
             d\<lparr>users := filter (\<lambda>u. Bytes (u_ID u) \<noteq> Bytes uid) (users d),
               audit_logs := map (\<lambda>a. if Valid (a_ActorUserID a)
                                         \<and> Bytes (a_ActorUserID a) = Bytes uid
                                         \<and> Bytes uid \<in> Bytes ` u_ID ` set (users d)
                                      then a\<lparr>a_ActorUserID := null_uuid\<rparr> else a)
                               (audit_logs d)\<rparr>
           else d))"

section \<open>Audit logs\<close>

record CreateAuditLogParams =
  ca_ActorUserID :: pg_uuid
  ca_Action :: bytes
  ca_Entity :: bytes
  ca_Metadata :: "bytes option"
  ca_Ip :: "bytes option"
  ca_UserAgent :: "bytes option"

definition opt_col :: "(bytes \<Rightarrow> bytes fallible) \<Rightarrow> bytes option \<Rightarrow> bytes option fallible" where
  "opt_col ty v =
     (case v of None \<Rightarrow> Inr None | Some s \<Rightarrow> and_then (ty s) (\<lambda>s. Inr (Some s)))"

text \<open>
  \<open>jsonb\<close> is the engine's input function of the JSONB type.  A NULL comes back as the zero value.
\<close>

definition new_audit_log ::
  "(bytes \<Rightarrow> bytes fallible) \<Rightarrow> bytes \<Rightarrow> int \<Rightarrow> CreateAuditLogParams \<Rightarrow> db \<Rightarrow> audit_log fallible" where
  "new_audit_log jsonb uuid now arg d =
     and_then (pg_text (ca_Action arg)) (\<lambda>action.
     and_then (pg_text (ca_Entity arg)) (\<lambda>entity.
     and_then (opt_col jsonb (ca_Metadata arg)) (\<lambda>metadata.
     and_then (opt_col pg_text (ca_Ip arg)) (\<lambda>ip.
     and_then (opt_col pg_text (ca_UserAgent arg)) (\<lambda>ua.
       if uuid \<in> Bytes ` a_ID ` set (audit_logs d) then Inl ''duplicate key audit_logs_pkey''
       else if Valid (ca_ActorUserID arg) \<and> Bytes (ca_ActorUserID arg) \<notin> Bytes ` u_ID ` set (users d)
       then Inl ''foreign key audit_logs_actor_user_id_fkey''
       else Inr \<lparr>a_ID = \<lparr>Bytes = uuid, Valid = True\<rparr>,
                 a_ActorUserID = (if Valid (ca_ActorUserID arg) then ca_ActorUserID arg else null_uuid),
                 a_Action = action, a_Entity = entity, a_Metadata = metadata, a_Ip = ip,
                 a_UserAgent = ua, a_CreatedAt = now\<rparr>)))))"

definition CreateAuditLog ::
  "bytes option \<Rightarrow> (bytes \<Rightarrow> bytes fallible) \<Rightarrow> bytes \<Rightarrow> int \<Rightarrow> CreateAuditLogParams \<Rightarrow> db
    \<Rightarrow> audit_log fallible \<times> db" where
  "CreateAuditLog fault jsonb uuid now arg d =
     (case fault of
        Some e \<Rightarrow> (Inl e, d)
      | None \<Rightarrow>
          (case new_audit_log jsonb uuid now arg d of
             Inl e \<Rightarrow> (Inl e, d)
           | Inr a \<Rightarrow> (Inr a, d\<lparr>audit_logs := audit_logs d @ [a]\<rparr>)))"

record GetAuditLogsByUserParams =
  ga_ActorUserID :: pg_uuid
  ga_Limit :: "32 word"
  ga_Offset :: "32 word"

text \<open>
  Newest first; rows of the same instant come in insertion order here.  Negative limits and
  offsets are errors.
\<close>

definition GetAuditLogsByUser ::
  "bytes option \<Rightarrow> GetAuditLogsByUserParams \<Rightarrow> db \<Rightarrow> audit_log list fallible" where
  "GetAuditLogsByUser fault arg d =
     (case fault of
        Some e \<Rightarrow> Inl e
      | None \<Rightarrow>
          if sint (ga_Limit arg) < 0 then Inl ''LIMIT must not be negative''
          else if sint (ga_Offset arg) < 0 then Inl ''OFFSET must not be negative''
          else Inr (take (nat (sint (ga_Limit arg)))
                 (drop (nat (sint (ga_Offset arg)))
                   (sort_key (\<lambda>a. - a_CreatedAt a)
                     (filter (\<lambda>a. Valid (ga_ActorUserID arg) \<and> Valid (a_ActorUserID a)
                                  \<and> Bytes (a_ActorUserID a) = Bytes (ga_ActorUserID arg))
                       (audit_logs d))))))"

section \<open>The schema's constraints as an invariant\<close>

abbreviation user_ids :: "db \<Rightarrow> bytes set" where
  "user_ids d \<equiv> Bytes ` u_ID ` set (users d)"

definition db_ok :: "db \<Rightarrow> bool" where
  "db_ok d \<longleftrightarrow>
     distinct (map (Bytes \<circ> u_ID) (users d)) \<and> (\<forall>u \<in> set (users d). Valid (u_ID u))
     \<and> distinct (map u_Email (users d))
     \<and> distinct (map (Bytes \<circ> a_ID) (audit_logs d)) \<and> (\<forall>a \<in> set (audit_logs d). Valid (a_ID a))
     \<and> (\<forall>a \<in> set (audit_logs d). Valid (a_ActorUserID a)
           \<longrightarrow> Bytes (a_ActorUserID a) \<in> user_ids d)"

lemma db_ok_empty [simp]: "db_ok empty_db"
  by (simp add: db_ok_def empty_db_def)

text \<open>The statements that write, as values, and their effect on the tables.\<close>

datatype db_stmt =
    CreateUserStmt "bytes option" bytes int CreateUserParams
  | VerifyUserStmt "bytes option" int pg_uuid
  | UpdateUserPasswordStmt "bytes option" int UpdateUserPasswordParams
  | DeleteUserStmt "bytes option" pg_uuid
  | CreateAuditLogStmt "bytes option" "bytes \<Rightarrow> bytes fallible" bytes int CreateAuditLogParams

primrec exec_stmt :: "db_stmt \<Rightarrow> db \<Rightarrow> db" where
  "exec_stmt (CreateUserStmt fault uuid now arg) d = snd (CreateUser fault uuid now arg d)"
| "exec_stmt (VerifyUserStmt fault now uid) d = snd (VerifyUser fault now uid d)"
| "exec_stmt (UpdateUserPasswordStmt fault now arg) d = snd (UpdateUserPassword fault now arg d)"
| "exec_stmt (DeleteUserStmt fault uid) d = snd (DeleteUser fault uid d)"
| "exec_stmt (CreateAuditLogStmt fault jsonb uuid now arg) d
     = snd (CreateAuditLog fault jsonb uuid now arg d)"

lemma new_user_Inr:
  assumes "new_user uuid now arg d = Inr u"
  shows "Bytes (u_ID u) = uuid" "Valid (u_ID u)" "uuid \<notin> user_ids d"
    "u_Email u \<notin> u_Email ` set (users d)" "varchar 255 (Passwd arg) = Inr (u_Password u)"
    "varchar 100 (Email arg) = Inr (u_Email u)" "\<not> u_Verified u"
  using assms by (auto simp: new_user_def and_then_eq_Inr split: if_splits)

lemma new_audit_log_Inr:
  assumes "new_audit_log jsonb uuid now arg d = Inr a"
  shows "Bytes (a_ID a) = uuid" "uuid \<notin> Bytes ` a_ID ` set (audit_logs d)"
    "a_ActorUserID a = (if Valid (ca_ActorUserID arg) then ca_ActorUserID arg else null_uuid)"
    "Valid (a_ActorUserID a) \<Longrightarrow> Bytes (a_ActorUserID a) \<in> user_ids d" "Valid (a_ID a)"
  using assms by (auto simp: new_audit_log_def and_then_eq_Inr null_uuid_def split: if_splits)

lemma CreateUser_cases:
  obtains (failed) e where "CreateUser fault uuid now arg d = (Inl e, d)"
  | (inserted) u where "new_user uuid now arg d = Inr u"
      "CreateUser fault uuid now arg d = (Inr u, d\<lparr>users := users d @ [u]\<rparr>)"
proof (cases fault)
  case None
  then show ?thesis
    using that by (cases "new_user uuid now arg d") (auto simp: CreateUser_def)
qed (use that(1) in \<open>simp add: CreateUser_def\<close>)

lemma CreateAuditLog_cases:
  obtains (failed) e where "CreateAuditLog fault jsonb uuid now arg d = (Inl e, d)"
  | (inserted) a where "new_audit_log jsonb uuid now arg d = Inr a"
      "CreateAuditLog fault jsonb uuid now arg d
         = (Inr a, d\<lparr>audit_logs := audit_logs d @ [a]\<rparr>)"
proof (cases fault)
  case None
  then show ?thesis
    using that by (cases "new_audit_log jsonb uuid now arg d") (auto simp: CreateAuditLog_def)
qed (use that(1) in \<open>simp add: CreateAuditLog_def\<close>)

lemma CreateUser_ok: "db_ok d \<Longrightarrow> db_ok (snd (CreateUser fault uuid now arg d))"
proof (cases rule: CreateUser_cases [of fault uuid now arg d])
  case (inserted u)
  assume "db_ok d"
  with inserted(2) new_user_Inr(1-4) [OF inserted(1)] show ?thesis
    by (auto simp: db_ok_def image_image)
qed simp

lemma CreateAuditLog_ok: "db_ok d \<Longrightarrow> db_ok (snd (CreateAuditLog fault jsonb uuid now arg d))"
proof (cases rule: CreateAuditLog_cases [of fault jsonb uuid now arg d])
  case (inserted a)
  assume "db_ok d"
  with inserted(2) new_audit_log_Inr [OF inserted(1)] show ?thesis
    by (auto simp: db_ok_def image_image)
qed simp

lemma map_users_ok:
  assumes "db_ok d" and same: "\<And>u. u_ID (g u) = u_ID u" "\<And>u. u_Email (g u) = u_Email u"
  shows "db_ok (d\<lparr>users := map g (users d)\<rparr>)"
  using assms(1) by (simp add: db_ok_def comp_def image_image same)

lemma update_user_ok:
  assumes "db_ok d" "\<And>u. u_ID (f u) = u_ID u" "\<And>u. u_Email (f u) = u_Email u"
  shows "db_ok (snd (update_user uid f d))"
  using map_users_ok [OF assms(1), of "\<lambda>u. if Valid uid \<and> Bytes (u_ID u) = Bytes uid then f u else u"]
    assms(2,3)
  by (simp add: update_user_def Let_def)

lemma distinct_map_filterI: "distinct (map f xs) \<Longrightarrow> distinct (map f (filter P xs))"
  by (induction xs) auto

lemma DeleteUser_ok:
  assumes "db_ok d"
  shows "db_ok (snd (DeleteUser fault uid d))"
proof (cases fault)
  case None
  let ?k = "Bytes uid"
  let ?us = "filter (\<lambda>u. Bytes (u_ID u) \<noteq> ?k) (users d)"
  define g where "g = (\<lambda>a :: audit_log. if Valid (a_ActorUserID a) \<and> Bytes (a_ActorUserID a) = ?k \<and> ?k \<in> user_ids d
                 then a\<lparr>a_ActorUserID := null_uuid\<rparr> else a)"
  have id_g: "a_ID (g a) = a_ID a" for a by (simp add: g_def)
  have dangling: "Valid (a_ActorUserID a) \<Longrightarrow> a \<in> set (audit_logs d) \<Longrightarrow>
      Bytes (a_ActorUserID a) \<in> user_ids d" for a
    using assms unfolding db_ok_def by blast
  have ref: "Bytes (a_ActorUserID (g a)) \<in> Bytes ` u_ID ` set ?us"
    if "Valid (a_ActorUserID (g a))" "a \<in> set (audit_logs d)" for a
  proof (cases "Valid (a_ActorUserID a) \<and> Bytes (a_ActorUserID a) = ?k \<and> ?k \<in> user_ids d")
    case False
    with that have "Bytes (a_ActorUserID a) \<in> user_ids d - {?k}"
      using dangling [of a] by (auto simp only: g_def if_False split: if_splits)
    with False show ?thesis by (auto simp: g_def)
  qed (use that in \<open>simp add: g_def null_uuid_def\<close>)
  have "db_ok (d\<lparr>users := ?us, audit_logs := map g (audit_logs d)\<rparr>)"
    using assms ref by (simp add: db_ok_def distinct_map_filterI comp_def id_g)
  moreover have "snd (DeleteUser fault uid d)
      = (if Valid uid then d\<lparr>users := ?us, audit_logs := map g (audit_logs d)\<rparr> else d)"
    by (simp only: DeleteUser_def None g_def option.case snd_conv)
  ultimately show ?thesis
    using assms by (cases "Valid uid") (simp_all only: if_True if_False)
qed (use assms in \<open>simp add: DeleteUser_def\<close>)

lemma VerifyUser_ok: "db_ok d \<Longrightarrow> db_ok (snd (VerifyUser fault now uid d))"
  by (auto simp: VerifyUser_def intro!: update_user_ok split: option.splits)

lemma UpdateUserPassword_ok: "db_ok d \<Longrightarrow> db_ok (snd (UpdateUserPassword fault now arg d))"
  by (auto simp: UpdateUserPassword_def intro!: update_user_ok split: option.splits sum.splits)

lemma exec_stmt_ok: "db_ok d \<Longrightarrow> db_ok (exec_stmt st d)"
  by (cases st)
    (simp_all add: CreateUser_ok CreateAuditLog_ok DeleteUser_ok VerifyUser_ok
      UpdateUserPassword_ok)

text \<open>
  C14. Whatever statements the server issues, in whatever order and with whatever failures, on the
  empty schema: ids and emails stay unique, no id of an account or an audit log is NULL, and the actor of every audit log is
  NULL or an existing user.
\<close>
theorem database_constraints: "db_ok (fold exec_stmt stmts empty_db)"
proof -
  have "db_ok d \<Longrightarrow> db_ok (fold exec_stmt stmts d)" for d
    by (induction stmts arbitrary: d) (simp_all add: exec_stmt_ok)
  then show ?thesis by simp
qed

section \<open>The store the auth service relies on\<close>

text \<open>The users a sequence of inserts creates; \<open>'c\<close> is what the engine adds to each.\<close>

fun created ::
  "('c \<Rightarrow> CreateUserParams \<Rightarrow> 'd \<Rightarrow> user fallible \<times> 'd) \<Rightarrow> ('c \<times> CreateUserParams) list \<Rightarrow> 'd \<Rightarrow> user list"
where
  "created create [] d = []"
| "created create ((c, p) # cps) d =
     (case create c p d of
        (Inl e, d') \<Rightarrow> created create cps d'
      | (Inr u, d') \<Rightarrow> u # created create cps d')"

locale user_store =
  fixes ok :: "'d \<Rightarrow> bool"
    and create :: "'c \<Rightarrow> CreateUserParams \<Rightarrow> 'd \<Rightarrow> user fallible \<times> 'd"
    and by_email :: "bytes \<Rightarrow> 'd \<Rightarrow> user fallible"
    and by_id :: "pg_uuid \<Rightarrow> 'd \<Rightarrow> user fallible"
  assumes create_ok: "ok d \<Longrightarrow> create c p d = (res, d') \<Longrightarrow> ok d'"
    and create_failed: "create c p d = (Inl e, d') \<Longrightarrow> d' = d"
    and create_email: "ok d \<Longrightarrow> create c p d = (Inr u, d') \<Longrightarrow> by_email (u_Email u) d' = Inr u"
    and create_id: "ok d \<Longrightarrow> create c p d = (Inr u, d') \<Longrightarrow> by_id (u_ID u) d' = Inr u"
    and create_keeps: "create c p d = (res, d') \<Longrightarrow> by_email m d = Inr v \<Longrightarrow> by_email m d' = Inr v"
    and create_new: "create c p d = (Inr u, d') \<Longrightarrow> by_email (u_Email u) d \<noteq> Inr v"
begin

lemma taken_not_created: "by_email m d = Inr v \<Longrightarrow> m \<notin> u_Email ` set (created create cps d)"
proof (induction cps arbitrary: d)
  case (Cons cp cps)
  obtain c p res d' where cp: "cp = (c, p)" "create c p d = (res, d')" by fastforce
  from create_keeps [OF cp(2) Cons.prems]
  have IH: "m \<notin> u_Email ` set (created create cps d')" by (rule Cons.IH)
  show ?case
    using IH Cons.prems create_new [of c p d _ d'] cp by (cases res) auto
qed simp

text \<open>No sequence of inserts creates two users of one email.\<close>

lemma created_distinct: "ok d \<Longrightarrow> distinct (map u_Email (created create cps d))"
proof (induction cps arbitrary: d)
  case (Cons cp cps)
  obtain c p res d' where cp: "cp = (c, p)" "create c p d = (res, d')" by fastforce
  from create_ok [OF Cons.prems cp(2)]
  have IH: "distinct (map u_Email (created create cps d'))" by (rule Cons.IH)
  show ?case
  proof (cases res)
    case (Inr u)
    with cp create_email [OF Cons.prems] have "by_email (u_Email u) d' = Inr u" by blast
    with IH taken_not_created [of _ d'] Inr cp show ?thesis by auto
  qed (use IH cp in simp)
qed simp

text \<open>A user that was created is found under the id and the email the insert returned.\<close>

lemma created_found:
  assumes "ok d" "create c p d = (Inr u, d')"
  shows "by_email (u_Email u) d' = Inr u \<and> by_id (u_ID u) d' = Inr u"
  using assms create_email create_id by blast

end

lemma set_concat_take: "set (concat (take n cs)) \<subseteq> set (concat cs)"
  using set_take_subset [of n cs] by auto

text \<open>What a \<open>VARCHAR\<close> column holds is a text the engine accepts again.\<close>

lemma varchar_pg_text:
  assumes "varchar n s = Inr v"
  shows "pg_text v = Inr v"
proof -
  have s: "pg_text s = Inr s"
    using assms by (auto simp: varchar_def pg_text_def split: if_splits)
  then obtain cs where cs: "utf8_chars s = Some cs" "CHR 0x00 \<notin> set s"
    by (auto simp: pg_text_def split: if_splits)
  have "CHR 0x00 \<notin> set (concat (take n cs))"
    using cs(2) set_concat_take [of n cs] unfolding concat_utf8_chars [OF cs(1)] by blast
  then have "pg_text (concat (take n cs)) = Inr (concat (take n cs))"
    using utf8_chars_take [OF cs(1), of n] by (simp add: pg_text_def)
  with s assms cs(1) show ?thesis
    unfolding varchar_def and_then_simps by (simp split: if_splits)
qed

lemma varchar_ascii:
  "ascii s \<Longrightarrow> CHR 0x00 \<notin> set s \<Longrightarrow> length s \<le> n \<Longrightarrow> varchar n s = Inr s"
  by (simp add: varchar_def pg_text_def utf8_chars_ascii)

lemma pg_text_Inr: "pg_text s = Inr v \<Longrightarrow> v = s"
  by (simp add: pg_text_def split: if_splits)

lemma scan_one_Inr [simp]: "scan_one r = Inr u \<longleftrightarrow> r = Some u"
  by (simp add: scan_one_def split: option.splits)

lemma GetUserByEmail_Inr:
  "GetUserByEmail fault m d = Inr v \<longleftrightarrow>
     fault = None \<and> pg_text m = Inr m \<and> find (\<lambda>u. u_Email u = m) (users d) = Some v"
  by (auto simp: GetUserByEmail_def and_then_eq_Inr dest: pg_text_Inr split: option.splits)

lemma GetUserByID_Inr:
  "GetUserByID fault uid d = Inr v \<longleftrightarrow>
     fault = None \<and> find (\<lambda>u. Valid uid \<and> Bytes (u_ID u) = Bytes uid) (users d) = Some v"
  by (auto simp: GetUserByID_def split: option.splits)

interpretation pg: user_store db_ok "\<lambda>(fault, uuid, now). CreateUser fault uuid now"
  "GetUserByEmail None" "GetUserByID None"
proof (unfold_locales; clarsimp)
  fix d d' :: db and fault :: "bytes option" and uuid m e :: bytes and now :: int
    and p :: CreateUserParams and u v :: user and res
  assume c: "CreateUser fault uuid now p d = (res, d')"
  show "db_ok d'" if "db_ok d"
    using CreateUser_ok [OF that, of fault uuid now p] c by simp
  show "GetUserByEmail None m d' = Inr v" if "GetUserByEmail None m d = Inr v"
    using that c by (cases rule: CreateUser_cases [of fault uuid now p d])
      (auto simp: GetUserByEmail_Inr find_snoc)
next
  fix d d' :: db and fault :: "bytes option" and uuid m e :: bytes and now :: int
    and p :: CreateUserParams and u v :: user
  show "d' = d" if "CreateUser fault uuid now p d = (Inl e, d')"
    using that by (cases rule: CreateUser_cases [of fault uuid now p d]) auto
  assume c: "CreateUser fault uuid now p d = (Inr u, d')"
  then have n: "new_user uuid now p d = Inr u" and d': "d' = d\<lparr>users := users d @ [u]\<rparr>"
    by (cases rule: CreateUser_cases [of fault uuid now p d]; auto)+
  note facts = new_user_Inr [OF n]
  have "find (\<lambda>u'. u_Email u' = u_Email u) (users d) = None"
    using facts(4) by (auto simp: find_None_iff image_iff)
  then show "GetUserByEmail None (u_Email u) d' = Inr u"
    using varchar_pg_text [OF facts(6)]
    by (simp add: GetUserByEmail_Inr d' find_snoc)
  have "find (\<lambda>u'. Valid (u_ID u) \<and> Bytes (u_ID u') = Bytes (u_ID u)) (users d) = None"
    using facts(1,3) by (auto simp: find_None_iff image_iff)
  then show "GetUserByID None (u_ID u) d' = Inr u"
    using facts(2) by (simp add: GetUserByID_def d' find_snoc scan_one_def)
  show False if "GetUserByEmail None (u_Email u) d = Inr v"
    using that facts(4) by (auto simp: GetUserByEmail_Inr image_iff dest!: find_Some_in_set)
qed

section \<open>Paging through the audit log\<close>

definition user_audit_logs :: "pg_uuid \<Rightarrow> db \<Rightarrow> audit_log list" where
  "user_audit_logs uid d =
     sort_key (\<lambda>a. - a_CreatedAt a)
       (filter (\<lambda>a. Valid uid \<and> Valid (a_ActorUserID a) \<and> Bytes (a_ActorUserID a) = Bytes uid)
          (audit_logs d))"

lemma GetAuditLogsByUser_Inr:
  "GetAuditLogsByUser None arg d = Inr as \<longleftrightarrow>
     0 \<le> sint (ga_Limit arg) \<and> 0 \<le> sint (ga_Offset arg)
     \<and> as = take (nat (sint (ga_Limit arg)))
              (drop (nat (sint (ga_Offset arg))) (user_audit_logs (ga_ActorUserID arg) d))"
  by (auto simp: GetAuditLogsByUser_def user_audit_logs_def)

lemma sint_add_no_overflow:
  fixes a b :: "32 word"
  assumes "0 \<le> sint a" "0 \<le> sint b" "sint a + sint b < 2 ^ 31"
  shows "sint (a + b) = sint a + sint b"
  using assms by (simp add: sint_word_ariths signed_take_bit_int_eq_self)

text \<open>
  Pages of a user's audit log neither overlap nor skip: the page at an offset followed by the
  page that starts where it ended is the page of the joint length, as long as the 32-bit sums do
  not overflow; a page holds logs of that user only, newest first.
\<close>
theorem audit_log_pages:
  assumes "GetAuditLogsByUser None \<lparr>ga_ActorUserID = uid, ga_Limit = n, ga_Offset = off\<rparr> d = Inr as"
    and "GetAuditLogsByUser None \<lparr>ga_ActorUserID = uid, ga_Limit = m, ga_Offset = off + n\<rparr> d = Inr bs"
    and "sint off + sint n < 2 ^ 31" "sint n + sint m < 2 ^ 31"
  shows "GetAuditLogsByUser None \<lparr>ga_ActorUserID = uid, ga_Limit = n + m, ga_Offset = off\<rparr> d = Inr (as @ bs)
         \<and> sorted (map (\<lambda>a. - a_CreatedAt a) as)
         \<and> (\<forall>a \<in> set as. a \<in> set (audit_logs d) \<and> Bytes (a_ActorUserID a) = Bytes uid)"
proof -
  let ?L = "user_audit_logs uid d"
  from assms have n: "0 \<le> sint n" "0 \<le> sint m" "0 \<le> sint off"
    and as: "as = take (nat (sint n)) (drop (nat (sint off)) ?L)"
    and bs: "bs = take (nat (sint m)) (drop (nat (sint (off + n))) ?L)"
    by (auto simp: GetAuditLogsByUser_Inr)
  have s: "nat (sint (off + n)) = nat (sint n) + nat (sint off)"
      "nat (sint (n + m)) = nat (sint n) + nat (sint m)" "0 \<le> sint (n + m)"
    using n assms(3,4) by (simp_all add: sint_add_no_overflow nat_add_distrib)
  have "take (nat (sint (n + m))) (drop (nat (sint off)) ?L) = as @ bs"
    unfolding as bs s by (simp add: take_add)
  then have "GetAuditLogsByUser None \<lparr>ga_ActorUserID = uid, ga_Limit = n + m, ga_Offset = off\<rparr> d
      = Inr (as @ bs)"
    using n s(3) by (simp add: GetAuditLogsByUser_Inr)
  moreover have "sorted (map (\<lambda>a. - a_CreatedAt a) as)"
    by (simp add: as user_audit_logs_def sorted_wrt_take sorted_wrt_drop flip: take_map drop_map)
  moreover have "set as \<subseteq> set ?L"
    using set_take_subset set_drop_subset unfolding as by fast
  ultimately show ?thesis by (auto simp: user_audit_logs_def)
qed

definition sample_log :: "int \<Rightarrow> bytes \<Rightarrow> audit_log" where
  "sample_log t action =
     \<lparr>a_ID = \<lparr>Bytes = action, Valid = True\<rparr>, a_ActorUserID = \<lparr>Bytes = ''u'', Valid = True\<rparr>,
      a_Action = action, a_Entity = ''user'', a_Metadata = None, a_Ip = None, a_UserAgent = None,
      a_CreatedAt = t\<rparr>"

lemma audit_log_pages_witness:
  "GetAuditLogsByUser None \<lparr>ga_ActorUserID = \<lparr>Bytes = ''u'', Valid = True\<rparr>, ga_Limit = 1 + 1, ga_Offset = 0\<rparr>
     \<lparr>users = [], audit_logs = [sample_log 1 ''register'', sample_log 2 ''login'']\<rparr>
   = Inr ([sample_log 2 ''login''] @ [sample_log 1 ''register''])"
  by (rule conjunct1, rule audit_log_pages) 
    (simp_all add: GetAuditLogsByUser_Inr user_audit_logs_def sample_log_def)

end
