(* ===== verification/Events.thy ===== *)
theory Events
  imports Handlers
begin

text \<open>
  The domain event bus, \<open>server/internal/core/events\<close>: \<open>bus.go\<close> with the typed pairs of
  \<open>user.event.go\<close>, \<open>audit.event.go\<close> and \<open>job.event.go\<close>.

  A listener is a Go function value.  The closures the typed \<open>On...\<close> methods build around it,
  \<open>func(v any) { fn(v.(T)) }\<close>, are the constructors of \<open>closure\<close>; \<open>listener_code\<close> says what the
  functions do to the state.  The type assertion of the closure panics on a payload of another
  type.
\<close>

section \<open>Payloads\<close>

record UserRegisteredPayload =
  ur_UserID :: bytes
  ur_Email :: bytes

record AuditLogPayload =
  ap_ActorUserID :: bytes
  ap_Action :: bytes
  ap_Entity :: bytes
  ap_Metadata :: "bytes option"
  ap_IP :: bytes
  ap_UserAgent :: bytes

record JobEnqueuedPayload =
  je_Queue :: bytes
  je_JobName :: bytes
  je_JobID :: bytes

datatype any =
  AnyUserRegistered UserRegisteredPayload
| AnyAuditLog AuditLogPayload
| AnyJobEnqueued JobEnqueuedPayload

section \<open>The bus\<close>

datatype ('u, 'a, 'j) closure = UserRegisteredFn 'u | AuditLogFn 'a | JobEnqueuedFn 'j

record ('u, 'a, 'j, 'w) listener_code =
  run_u :: "'u \<Rightarrow> UserRegisteredPayload \<Rightarrow> 'w \<Rightarrow> 'w run"
  run_a :: "'a \<Rightarrow> AuditLogPayload \<Rightarrow> 'w \<Rightarrow> 'w run"
  run_j :: "'j \<Rightarrow> JobEnqueuedPayload \<Rightarrow> 'w \<Rightarrow> 'w run"

fun call_closure ::
  "('u, 'a, 'j, 'w) listener_code \<Rightarrow> ('u, 'a, 'j) closure \<Rightarrow> any \<Rightarrow> 'w \<Rightarrow> 'w run" where
  "call_closure i (UserRegisteredFn f) v w =
     (case v of AnyUserRegistered p \<Rightarrow> run_u i f p w | _ \<Rightarrow> Panicked w)"
| "call_closure i (AuditLogFn f) v w =
     (case v of AnyAuditLog p \<Rightarrow> run_a i f p w | _ \<Rightarrow> Panicked w)"
| "call_closure i (JobEnqueuedFn f) v w =
     (case v of AnyJobEnqueued p \<Rightarrow> run_j i f p w | _ \<Rightarrow> Panicked w)"

record ('u, 'a, 'j) Bus =
  listeners :: "bytes \<rightharpoonup> ('u, 'a, 'j) closure list"

definition New :: "('u, 'a, 'j) Bus" where
  "New = \<lparr>listeners = Map.empty\<rparr>"

definition bus_listeners :: "('u, 'a, 'j) Bus \<Rightarrow> bytes \<Rightarrow> ('u, 'a, 'j) closure list" where
  "bus_listeners b name = (case listeners b name of None \<Rightarrow> [] | Some fns \<Rightarrow> fns)"

definition on :: "bytes \<Rightarrow> ('u, 'a, 'j) closure \<Rightarrow> ('u, 'a, 'j) Bus \<Rightarrow> ('u, 'a, 'j) Bus" where
  "on name fn b = b\<lparr>listeners := (listeners b)(name \<mapsto> bus_listeners b name @ [fn])\<rparr>"

fun call_all :: "('f \<Rightarrow> 'p \<Rightarrow> 'w \<Rightarrow> 'w run) \<Rightarrow> 'f list \<Rightarrow> 'p \<Rightarrow> 'w \<Rightarrow> 'w run" where
  "call_all call [] p w = Done w"
| "call_all call (f # fs) p w = run_bind (call f p w) (call_all call fs p)"

text \<open>The listeners are read before the first is called; later subscriptions come too late.\<close>

definition emit ::
  "('u, 'a, 'j, 'w) listener_code \<Rightarrow> bytes \<Rightarrow> any \<Rightarrow> ('u, 'a, 'j) Bus \<Rightarrow> 'w \<Rightarrow> 'w run" where
  "emit i name payload b w = call_all (call_closure i) (bus_listeners b name) payload w"

section \<open>Typed subscriptions\<close>

definition OnUserRegistered :: "'u \<Rightarrow> ('u, 'a, 'j) Bus \<Rightarrow> ('u, 'a, 'j) Bus" where
  "OnUserRegistered fn = on ''auth.user.registered'' (UserRegisteredFn fn)"

definition OnAuditLog :: "'a \<Rightarrow> ('u, 'a, 'j) Bus \<Rightarrow> ('u, 'a, 'j) Bus" where
  "OnAuditLog fn = on ''audit.log'' (AuditLogFn fn)"

definition OnJobEnqueued :: "'j \<Rightarrow> ('u, 'a, 'j) Bus \<Rightarrow> ('u, 'a, 'j) Bus" where
  "OnJobEnqueued fn = on ''queue.job.enqueued'' (JobEnqueuedFn fn)"

definition EmitUserRegistered ::
  "('u, 'a, 'j, 'w) listener_code \<Rightarrow> UserRegisteredPayload \<Rightarrow> ('u, 'a, 'j) Bus \<Rightarrow> 'w \<Rightarrow> 'w run" where
  "EmitUserRegistered i p = emit i ''auth.user.registered'' (AnyUserRegistered p)"

definition EmitAuditLog ::
  "('u, 'a, 'j, 'w) listener_code \<Rightarrow> AuditLogPayload \<Rightarrow> ('u, 'a, 'j) Bus \<Rightarrow> 'w \<Rightarrow> 'w run" where
  "EmitAuditLog i p = emit i ''audit.log'' (AnyAuditLog p)"

definition EmitJobEnqueued ::
  "('u, 'a, 'j, 'w) listener_code \<Rightarrow> JobEnqueuedPayload \<Rightarrow> ('u, 'a, 'j) Bus \<Rightarrow> 'w \<Rightarrow> 'w run" where
  "EmitJobEnqueued i p = emit i ''queue.job.enqueued'' (AnyJobEnqueued p)"

section \<open>The contract of a publish/subscribe registry\<close>

locale pubsub =
  fixes fresh :: 'b
    and subscribe :: "'n \<Rightarrow> 'f \<Rightarrow> 'b \<Rightarrow> 'b"
    and subscribers :: "'b \<Rightarrow> 'n \<Rightarrow> 'f list"
  assumes fresh_empty: "subscribers fresh n = []"
    and subscribe_appends:
      "subscribers (subscribe n f b) m = (if m = n then subscribers b m @ [f] else subscribers b m)"
begin

text \<open>The subscribers of a topic are those that asked for it, in the order they came.\<close>

lemma subscribers_fold:
  "subscribers (fold (\<lambda>(n, f). subscribe n f) nfs b) m
     = subscribers b m @ map snd (filter (\<lambda>(n, f). n = m) nfs)"
  by (induction nfs arbitrary: b) (auto simp: subscribe_appends)

lemma subscribers_in_order:
  "subscribers (fold (\<lambda>(n, f). subscribe n f) nfs fresh) m
     = map snd (filter (\<lambda>(n, f). n = m) nfs)"
  by (simp add: subscribers_fold fresh_empty)

end

interpretation bus: pubsub "New :: ('u, 'a, 'j) Bus" on bus_listeners
  by unfold_locales (simp_all add: New_def on_def bus_listeners_def)

section \<open>Typed subscriptions are delivered\<close>

text \<open>A subscription through one of the typed methods, as the topic and the closure it stores.\<close>

definition typed :: "('u, 'a, 'j) closure \<Rightarrow> bytes \<times> ('u, 'a, 'j) closure" where
  "typed c =
     (case c of
        UserRegisteredFn _ \<Rightarrow> ''auth.user.registered''
      | AuditLogFn _ \<Rightarrow> ''audit.log''
      | JobEnqueuedFn _ \<Rightarrow> ''queue.job.enqueued'', c)"

primrec subscribe :: "('u, 'a, 'j) closure \<Rightarrow> ('u, 'a, 'j) Bus \<Rightarrow> ('u, 'a, 'j) Bus" where
  "subscribe (UserRegisteredFn f) b = OnUserRegistered f b"
| "subscribe (AuditLogFn f) b = OnAuditLog f b"
| "subscribe (JobEnqueuedFn f) b = OnJobEnqueued f b"

lemma subscribe_typed: "subscribe c = (\<lambda>(n, f). on n f) (typed c)"
  by (cases c)
    (auto simp: typed_def OnUserRegistered_def OnAuditLog_def OnJobEnqueued_def)

lemma subscribed:
  fixes cs :: "('u, 'a, 'j) closure list"
  shows "bus_listeners (fold subscribe cs New) m = filter (\<lambda>c. fst (typed c) = m) cs"
proof -
  have "fold subscribe cs b = fold (\<lambda>(n, f). on n f) (map typed cs) b" for b :: "('u, 'a, 'j) Bus"
    by (induction cs arbitrary: b) (simp_all add: subscribe_typed)
  moreover have "map snd (filter (\<lambda>(n, f). n = m) (map typed cs)) = filter (\<lambda>c. fst (typed c) = m) cs"
    by (induction cs) (auto simp: typed_def)
  ultimately show ?thesis by (simp add: bus.subscribers_in_order)
qed

primrec user_fns :: "('u, 'a, 'j) closure list \<Rightarrow> 'u list" where
  "user_fns [] = []"
| "user_fns (c # cs) = (case c of UserRegisteredFn f \<Rightarrow> [f] | _ \<Rightarrow> []) @ user_fns cs"

primrec audit_fns :: "('u, 'a, 'j) closure list \<Rightarrow> 'a list" where
  "audit_fns [] = []"
| "audit_fns (c # cs) = (case c of AuditLogFn f \<Rightarrow> [f] | _ \<Rightarrow> []) @ audit_fns cs"

primrec job_fns :: "('u, 'a, 'j) closure list \<Rightarrow> 'j list" where
  "job_fns [] = []"
| "job_fns (c # cs) = (case c of JobEnqueuedFn f \<Rightarrow> [f] | _ \<Rightarrow> []) @ job_fns cs"

lemma call_all_map:
  assumes "\<And>f w. call (g f) v w = call' f p w"
  shows "call_all call (map g fs) v w = call_all call' fs p w"
proof (induction fs arbitrary: w)
  case (Cons f fs)
  then show ?case by (cases "call' f p w") (simp_all add: assms)
qed simp

lemma filter_typed:
  "filter (\<lambda>c. fst (typed c) = ''auth.user.registered'') cs = map UserRegisteredFn (user_fns cs)"
  "filter (\<lambda>c. fst (typed c) = ''audit.log'') cs = map AuditLogFn (audit_fns cs)"
  "filter (\<lambda>c. fst (typed c) = ''queue.job.enqueued'') cs = map JobEnqueuedFn (job_fns cs)"
  by (induction cs) (auto simp: typed_def split: closure.splits)

text \<open>
  C30. Whatever mixture of typed subscriptions built the bus, a typed emit calls exactly the
  functions subscribed to its event, each once, in the order of subscription, and with the
  payload it was given: no closure of another type is reached, so no type assertion panics.
\<close>
theorem emit_delivers:
  "EmitUserRegistered i p (fold subscribe cs New) w = call_all (run_u i) (user_fns cs) p w
   \<and> EmitAuditLog i q (fold subscribe cs New) w = call_all (run_a i) (audit_fns cs) q w
   \<and> EmitJobEnqueued i r (fold subscribe cs New) w = call_all (run_j i) (job_fns cs) r w"
  by (simp add: EmitUserRegistered_def EmitAuditLog_def EmitJobEnqueued_def emit_def subscribed
      filter_typed call_all_map [where call' = "run_u i" and p = p]
      call_all_map [where call' = "run_a i" and p = q]
      call_all_map [where call' = "run_j i" and p = r])

end
