(* ===== verification/Auth_Service.thy ===== *)
theory Auth_Service
  imports Auth_Schema Password Repository Events
begin

text \<open>
  The auth module: \<open>auth.service.go\<close> and \<open>auth.controller.go\<close> of
  \<open>server/internal/modules/auth\<close>, with \<open>SafeUser\<close> of \<open>server/internal/utils/user.go\<close>.

  A service method runs on the state \<open>app\<close> of the server, here the database beside what the
  middlewares keep, and returns the response envelope or panics.  What it takes from outside is
  the record \<open>svc_env\<close>: the environment variables, the clock, the random source, the libraries,
  and the faults of the database during this call.
\<close>

section \<open>State and environment\<close>

record app = web +
  database :: db

lemma database_log_incoming [simp]: "database (log_incoming e w) = database w"
  by (simp add: log_incoming_def)

record svc_env =
  e_env :: "bytes \<rightharpoonup> bytes"
  e_jwt :: jwt_lib
  e_kdf :: kdf
  e_rand :: "nat \<Rightarrow> bytes fallible"
  e_uuid_text :: "bytes \<Rightarrow> bytes"
  e_uuid_scan :: "bytes \<Rightarrow> bytes fallible"
  e_quote :: "bytes \<Rightarrow> bytes"
  e_time_text :: "int \<Rightarrow> bytes"
  e_lookup_fault :: "bytes option"
  e_insert_fault :: "bytes option"
  e_new_uuid :: bytes
  e_db_now :: int
  e_now :: int
  e_now2 :: int

text \<open>The bus of the service, as what its two emit methods do to the state.\<close>

record 'w emitter =
  emit_registered :: "UserRegisteredPayload \<Rightarrow> 'w \<Rightarrow> 'w run"
  emit_audit :: "AuditLogPayload \<Rightarrow> 'w \<Rightarrow> 'w run"

text \<open>\<open>pgtype.UUID.String\<close> is empty for NULL, and NULL is encoded as such.\<close>

definition UUID_String :: "svc_env \<Rightarrow> pg_uuid \<Rightarrow> bytes" where
  "UUID_String E u = (if Valid u then e_uuid_text E (Bytes u) else [])"

definition uuid_gov :: "svc_env \<Rightarrow> pg_uuid \<Rightarrow> gov" where
  "uuid_gov E u = (if Valid u then JStr (e_uuid_text E (Bytes u)) else JNull)"

definition SafeUser :: "svc_env \<Rightarrow> user \<Rightarrow> gov" where
  "SafeUser E u = JObj
     [(''created_at'', JStr (e_time_text E (u_CreatedAt u))), (''email'', JStr (u_Email u)),
      (''first_name'', JStr (u_FirstName u)), (''id'', uuid_gov E (u_ID u)),
      (''last_name'', JStr (u_LastName u)), (''verified'', JBool (u_Verified u))]"

definition access_key :: "svc_env \<Rightarrow> bytes" where
  "access_key E = GetEnv (e_env E) ''JWT_SECRET'' ''change-me''"

definition refresh_key :: "svc_env \<Rightarrow> bytes" where
  "refresh_key E = GetEnv (e_env E) ''JWT_REFRESH_SECRET'' ''change-me-refresh''"

text \<open>\<open>24*time.Hour\<close> and \<open>30*24*time.Hour\<close>, in nanoseconds.\<close>

definition access_ttl :: int where
  "access_ttl = 24 * 3600 * 1000000000"

definition refresh_ttl :: int where
  "refresh_ttl = 30 * 24 * 3600 * 1000000000"

section \<open>The service\<close>

definition audit_payload :: "svc_env \<Rightarrow> bytes \<Rightarrow> user \<Rightarrow> 'b request \<Rightarrow> AuditLogPayload" where
  "audit_payload E action u r =
     \<lparr>ap_ActorUserID = UUID_String E (u_ID u), ap_Action = action, ap_Entity = ''user'',
      ap_Metadata = None, ap_IP = GetIP r, ap_UserAgent = hget (req_header r) ''User-Agent''\<rparr>"

text \<open>The lookup of \<open>Register\<close>; an error of the query counts as an unused email.\<close>

definition Register_taken :: "svc_env \<Rightarrow> RegisterInput \<Rightarrow> db \<Rightarrow> bool" where
  "Register_taken E input d =
     (case GetUserByEmail (e_lookup_fault E) (ri_Email input) d of
        Inr existing \<Rightarrow> Valid (u_ID existing)
      | Inl _ \<Rightarrow> False)"

text \<open>The service method over the outcome of its one insert, which the statement and the connection decide.\<close>

type_synonym user_insert = "CreateUserParams \<Rightarrow> db \<Rightarrow> user fallible \<times> db"

definition Register_insert_with ::
  "user_insert \<Rightarrow> svc_env \<Rightarrow> 'a app_scheme emitter option \<Rightarrow> RegisterInput \<Rightarrow> 'b request \<Rightarrow> 'a app_scheme
    \<Rightarrow> (ApiResponse, 'a app_scheme) call" where
  "Register_insert_with create E bus input r w =
     (case HashPassword (e_rand E) (e_kdf E) (ri_Password input) of
        Panic _ \<Rightarrow> Crashed w
      | Ret (Inl err) \<Rightarrow> Returned (ApiError ''failed to process password'' (Some (JStr err)) 500) w
      | Ret (Inr hashed) \<Rightarrow>
          (case create \<lparr>FirstName = ri_FirstName input, LastName = ri_LastName input,
                   Email = ri_Email input, Passwd = hashed\<rparr> (database w) of
             (Inl err, d) \<Rightarrow>
               Returned (ApiError ''failed to create user'' (Some (JStr err)) 500) (w\<lparr>database := d\<rparr>)
           | (Inr user, d) \<Rightarrow>
               let w = w\<lparr>database := d\<rparr>;
                   res = ApiSuccess ''user registered successfully''
                           (Some (JObj [(''user'', SafeUser E user)])) 201
               in (case bus of
                     None \<Rightarrow> Returned res w
                   | Some b \<Rightarrow>
                       call_bind (call_run (run_bind
                           (emit_registered b
                              \<lparr>ur_UserID = UUID_String E (u_ID user), ur_Email = u_Email user\<rparr> w)
                           (emit_audit b (audit_payload E ''register'' user r))))
                         (\<lambda>_ w. Returned res w))))"

definition Register_with ::
  "user_insert \<Rightarrow> svc_env \<Rightarrow> 'a app_scheme emitter option \<Rightarrow> RegisterInput \<Rightarrow> 'b request \<Rightarrow> 'a app_scheme
    \<Rightarrow> (ApiResponse, 'a app_scheme) call" where
  "Register_with create E bus input r w =
     (if Register_taken E input (database w)
      then Returned (ApiError ''email already registered'' None 409) w
      else Register_insert_with create E bus input r w)"

definition Register_insert ::
  "svc_env \<Rightarrow> 'a app_scheme emitter option \<Rightarrow> RegisterInput \<Rightarrow> 'b request \<Rightarrow> 'a app_scheme
    \<Rightarrow> (ApiResponse, 'a app_scheme) call" where
  Register_insert_by: "Register_insert E =
     Register_insert_with (CreateUser (e_insert_fault E) (e_new_uuid E) (e_db_now E)) E"

definition Register ::
  "svc_env \<Rightarrow> 'a app_scheme emitter option \<Rightarrow> RegisterInput \<Rightarrow> 'b request \<Rightarrow> 'a app_scheme
    \<Rightarrow> (ApiResponse, 'a app_scheme) call" where
  Register_by: "Register E = Register_with (CreateUser (e_insert_fault E) (e_new_uuid E) (e_db_now E)) E"

lemma Register_insert_def:
  "Register_insert E bus input r w =
     (case HashPassword (e_rand E) (e_kdf E) (ri_Password input) of
        Panic _ \<Rightarrow> Crashed w
      | Ret (Inl err) \<Rightarrow> Returned (ApiError ''failed to process password'' (Some (JStr err)) 500) w
      | Ret (Inr hashed) \<Rightarrow>
          (case CreateUser (e_insert_fault E) (e_new_uuid E) (e_db_now E)
                  \<lparr>FirstName = ri_FirstName input, LastName = ri_LastName input,
                   Email = ri_Email input, Passwd = hashed\<rparr> (database w) of
             (Inl err, d) \<Rightarrow>
               Returned (ApiError ''failed to create user'' (Some (JStr err)) 500) (w\<lparr>database := d\<rparr>)
           | (Inr user, d) \<Rightarrow>
               let w = w\<lparr>database := d\<rparr>;
                   res = ApiSuccess ''user registered successfully''
                           (Some (JObj [(''user'', SafeUser E user)])) 201
               in (case bus of
                     None \<Rightarrow> Returned res w
                   | Some b \<Rightarrow>
                       call_bind (call_run (run_bind
                           (emit_registered b
                              \<lparr>ur_UserID = UUID_String E (u_ID user), ur_Email = u_Email user\<rparr> w)
                           (emit_audit b (audit_payload E ''register'' user r))))
                         (\<lambda>_ w. Returned res w))))"
  by (simp add: Register_insert_by Register_insert_with_def)

lemma Register_def:
  "Register E bus input r w =
     (if Register_taken E input (database w)
      then Returned (ApiError ''email already registered'' None 409) w
      else Register_insert E bus input r w)"
  by (simp add: Register_by Register_with_def Register_insert_by)

text \<open>The insert of which the server only sees an error, although the row was stored.\<close>

definition unconfirmed :: "bytes \<Rightarrow> user_insert \<Rightarrow> user_insert" where
  "unconfirmed err create arg d = (Inl err, snd (create arg d))"

definition Login ::
  "svc_env \<Rightarrow> 'a app_scheme emitter option \<Rightarrow> LoginInput \<Rightarrow> 'b request \<Rightarrow> 'a app_scheme
    \<Rightarrow> (ApiResponse, 'a app_scheme) call" where
  "Login E bus input r w =
     (case GetUserByEmail (e_lookup_fault E) (li_Email input) (database w) of
        Inl _ \<Rightarrow> Returned (ApiError ''invalid credentials'' None 401) w
      | Inr user \<Rightarrow>
          (case ComparePassword (e_kdf E) (u_Password user) (li_Password input) of
             Panic _ \<Rightarrow> Crashed w
           | Ret (Some _) \<Rightarrow> Returned (ApiError ''invalid credentials'' None 401) w
           | Ret None \<Rightarrow>
               let uid = UUID_String E (u_ID user)
               in case Sign (e_jwt E) (NewTokenSigner (access_key E))
                         (StandardClaims (e_now E) uid access_ttl) of
                 Inl err \<Rightarrow>
                   Returned (ApiError ''failed to generate access token'' (Some (JStr err)) 500) w
               | Inr accessToken \<Rightarrow>
                   (case Sign (e_jwt E) (NewTokenSigner (refresh_key E))
                           (StandardClaims (e_now2 E) uid refresh_ttl) of
                      Inl err \<Rightarrow>
                        Returned (ApiError ''failed to generate refresh token'' (Some (JStr err)) 500) w
                    | Inr refreshToken \<Rightarrow>
                        let res = ApiSuccess ''login successful''
                              (Some (JObj [(''access_token'', JStr accessToken),
                                           (''refresh_token'', JStr refreshToken),
                                           (''user'', SafeUser E user)])) 200
                        in (case bus of
                              None \<Rightarrow> Returned res w
                            | Some b \<Rightarrow>
                                call_bind (call_run
                                    (emit_audit b (audit_payload E ''login'' user r) w))
                                  (\<lambda>_ w. Returned res w)))))"

definition Me :: "svc_env \<Rightarrow> bytes \<Rightarrow> 'a app_scheme \<Rightarrow> ApiResponse" where
  "Me E uid w =
     (case StringToUUID (e_uuid_scan E) (e_quote E) uid of
        Inl err \<Rightarrow> ApiError ''invalid user id'' (Some (JStr err)) 400
      | Inr pgUID \<Rightarrow>
          (case GetUserByID (e_lookup_fault E) pgUID (database w) of
             Inl _ \<Rightarrow> ApiError ''user not found'' None 404
           | Inr user \<Rightarrow> ApiSuccess ''ok'' (Some (JObj [(''user'', SafeUser E user)])) 200))"

text \<open>The key function is asked at \<open>e_now\<close>, the new token is dated \<open>e_now2\<close>.\<close>

definition RefreshToken :: "svc_env \<Rightarrow> RefreshInput \<Rightarrow> ApiResponse" where
  "RefreshToken E input =
     (case Verify (e_jwt E) (e_now E) (NewTokenSigner (refresh_key E)) (rf_RefreshToken input) of
        Inl _ \<Rightarrow> ApiError ''invalid or expired refresh token'' None 401
      | Inr claims \<Rightarrow>
          (case uid_claim claims of
             None \<Rightarrow> ApiError ''malformed refresh token'' None 401
           | Some uid \<Rightarrow>
               (case Sign (e_jwt E) (NewTokenSigner (access_key E))
                       (StandardClaims (e_now2 E) uid access_ttl) of
                  Inl err \<Rightarrow> ApiError ''failed to generate access token'' (Some (JStr err)) 500
                | Inr newToken \<Rightarrow>
                    ApiSuccess ''token refreshed''
                      (Some (JObj [(''access_token'', JStr newToken)])) 200)))"

section \<open>The controller\<close>

definition respond :: "(ApiResponse, 'w) call \<Rightarrow> response \<Rightarrow> ('w \<times> response) run" where
  "respond c rsp =
     (case c of
        Returned res w \<Rightarrow> Done (w, SendResponse rsp res)
      | Crashed w \<Rightarrow> Panicked (w, rsp))"

definition register ::
  "svc_env \<Rightarrow> 'a app_scheme emitter option \<Rightarrow> (body, 'a app_scheme) handler" where
  "register E bus r s =
     (let input = BodyFromContext as_register zero_register r
      in respond (Register E bus input r (fst s)) (snd s))"

definition login ::
  "svc_env \<Rightarrow> 'a app_scheme emitter option \<Rightarrow> (body, 'a app_scheme) handler" where
  "login E bus r s =
     (let input = BodyFromContext as_login zero_login r
      in respond (Login E bus input r (fst s)) (snd s))"

definition me :: "svc_env \<Rightarrow> (body, 'a app_scheme) handler" where
  "me E r s =
     (let uid = UIDFromContext r
      in Done (fst s, SendResponse (snd s) (Me E uid (fst s))))"

definition refresh :: "svc_env \<Rightarrow> (body, 'a app_scheme) handler" where
  "refresh E r s =
     (let input = BodyFromContext as_refresh zero_refresh r
      in Done (fst s, SendResponse (snd s) (RefreshToken E input)))"

text \<open>
  The JSON decoders into the three types and the Unicode tables; \<open>registerRoutes\<close> wraps each
  handler with its middleware and ties it to a method and a path.
\<close>

record decoders =
  dec_register :: "bytes \<Rightarrow> RegisterInput fallible"
  dec_login :: "bytes \<Rightarrow> LoginInput fallible"
  dec_refresh :: "bytes \<Rightarrow> RefreshInput fallible"
  dec_unicode :: "bytes \<Rightarrow> bytes"

definition auth_routes ::
  "decoders \<Rightarrow> svc_env \<Rightarrow> 'a app_scheme emitter option
    \<Rightarrow> (bytes \<times> bytes \<times> (body, 'a app_scheme) handler) list" where
  "auth_routes D E bus =
     [(''POST'', ''/register'',
        Validate (dec_register D) (RegisterInput_Validate (dec_unicode D)) RegisterBody
          (register E bus)),
      (''POST'', ''/login'',
        Validate (dec_login D) (LoginInput_Validate (dec_unicode D)) LoginBody (login E bus)),
      (''POST'', ''/refresh'',
        Validate (dec_refresh D) RefreshInput_Validate RefreshBody (refresh E)),
      (''GET'', ''/me'', Guard (e_jwt E) (e_env E) (e_now E) (me E))]"

end
