(* ===== verification/Auth_Properties.thy ===== *)
theory Auth_Properties
  imports Auth_Service
begin

text \<open>
  What the auth module promises: registration, login, tokens and the guarded endpoint fit
  together, credentials errors tell nothing apart, stored passwords stay inside, and registrations
  that race for one email leave one account.
\<close>

section \<open>Lemmas on the service\<close>

text \<open>Listeners that return and leave the tables alone.\<close>

definition bus_ok :: "'a app_scheme emitter option \<Rightarrow> bool" where
  "bus_ok bus \<longleftrightarrow> (\<forall>b. bus = Some b \<longrightarrow>
     (\<forall>p w. \<exists>w'. emit_registered b p w = Done w' \<and> database w' = database w) \<and>
     (\<forall>p w. \<exists>w'. emit_audit b p w = Done w' \<and> database w' = database w))"

lemma bus_ok_None [simp]: "bus_ok None"
  by (simp add: bus_ok_def)

lemma emit_registered_ok:
  assumes "bus_ok (Some b)"
  obtains w' where "emit_registered b p w = Done w'" "database w' = database w"
  using assms unfolding bus_ok_def by blast

lemma emit_audit_ok:
  assumes "bus_ok (Some b)"
  obtains w' where "emit_audit b p w = Done w'" "database w' = database w"
  using assms unfolding bus_ok_def by blast

text \<open>A trimmed text does not end in a blank, so a column never shortens it.\<close>

lemma trim_space_last: "trim_space s = s \<Longrightarrow> s \<noteq> [] \<Longrightarrow> last s \<noteq> CHR '' ''"
proof
  assume s: "trim_space s = s" "s \<noteq> []" "last s = CHR '' ''"
  have "rev s = trim_front (map rev space_seqs) (rev (trim_front space_seqs s))"
    using s(1) by (metis rev_rev_ident trim_space_def)
  then have "white_len (map rev space_seqs) (rev s) = 0" by simp
  moreover have "rev s = CHR '' '' # rev (butlast s)"
    using s(2,3) by (metis append_butlast_last_id rev_eq_Cons_iff rev_rev_ident)
  ultimately show False by (simp add: white_len_def space_seqs_def)
qed

lemma varchar_Inr:
  assumes "varchar n s = Inr v"
  obtains (whole) "v = s"
  | (cut) cs where "utf8_chars s = Some cs" "n < length cs" "list_all (\<lambda>c. c = '' '') (drop n cs)"
proof -
  have "pg_text s = Inr s"
    using assms by (cases "pg_text s") (auto simp: varchar_def dest: pg_text_Inr)
  with assms that show ?thesis
    by (auto simp: varchar_def not_le split: option.splits if_splits)
qed

lemma concat_last: "xs \<noteq> [] \<Longrightarrow> last xs \<noteq> [] \<Longrightarrow> last (concat xs) = last (last xs)"
  by (induction xs rule: rev_induct) auto

lemma varchar_exact:
  assumes "s \<noteq> [] \<Longrightarrow> last s \<noteq> CHR '' ''" "varchar n s = Inr v"
  shows "v = s"
  using assms(2)
proof (cases rule: varchar_Inr)
  case (cut cs)
  then have ne: "cs \<noteq> []" "drop n cs \<noteq> []" by auto
  then have "last cs \<in> set (drop n cs)"
    by (metis last_drop last_in_set cut(2))
  with cut(3) have "last cs = '' ''" by (simp add: list_all_iff)
  with ne(1) concat_last [of cs] have "last s = CHR '' ''"
    by (simp add: concat_utf8_chars [OF cut(1)])
  moreover have "s \<noteq> []" using cut(1,2) by auto
  ultimately show ?thesis using assms(1) by simp
qed

lemma varchar_hash:
  assumes "HashPassword rnd kdf pw = Ret (Inr h)" "varchar n h = Inr v"
  shows "v = h"
proof (rule varchar_exact [OF _ assms(2)])
  obtain salt key where "h = phc_string defaultParams salt key"
    by (rule HashPassword_Ret [OF assms(1)])
  then have "CHR '' '' \<notin> set h"
    using b64_encode_chars [of "CHR '' ''" salt] b64_encode_chars [of "CHR '' ''" key]
    by (auto simp: phc_default)
  then show "last h \<noteq> CHR '' ''" if "h \<noteq> []"
    using that last_in_set by metis
qed

lemma ComparePassword_hashed:
  assumes "kdf_length kdf" "HashPassword rnd kdf pw = Ret (Inr h)"
  shows "ComparePassword kdf h pw = Ret None"
proof -
  obtain salt key where key: "kdf pw salt 3 65536 4 32 = Ret key"
    and h: "h = phc_string defaultParams salt key"
    using HashPassword_Ret [OF assms(2)] by metis
  with assms(1) have "length key = 32" by (force simp: kdf_length_def)
  with key show ?thesis by (simp add: h ComparePassword_phc)
qed

text \<open>The outcomes of \<open>Register\<close>.\<close>

lemma Register_insert_cases:
  assumes "bus_ok bus"
  obtains (crashed) m where "HashPassword (e_rand E) (e_kdf E) (ri_Password input) = Panic m"
      "Register_insert E bus input r w = Crashed w"
  | (failed) res where "Register_insert E bus input r w = Returned res w" "StatusCode res = 500"
      "\<And>bus'. Register_insert E bus' input r w = Returned res w"
  | (created) hashed u d w' where
      "HashPassword (e_rand E) (e_kdf E) (ri_Password input) = Ret (Inr hashed)"
      "CreateUser (e_insert_fault E) (e_new_uuid E) (e_db_now E)
         \<lparr>FirstName = ri_FirstName input, LastName = ri_LastName input,
          Email = ri_Email input, Passwd = hashed\<rparr> (database w) = (Inr u, d)"
      "database w' = d"
      "Register_insert E bus input r w = Returned (ApiSuccess ''user registered successfully''
         (Some (JObj [(''user'', SafeUser E u)])) 201) w'"
proof (cases "HashPassword (e_rand E) (e_kdf E) (ri_Password input)")
  case (Panic m)
  with that(1) show ?thesis by (simp add: Register_insert_def)
next
  case (Ret h)
  show ?thesis
  proof (cases h)
    case (Inl e)
    with Ret that(2) show ?thesis by (simp add: Register_insert_def ApiError_def)
  next
    case (Inr hashed)
    let ?arg = "\<lparr>FirstName = ri_FirstName input, LastName = ri_LastName input,
          Email = ri_Email input, Passwd = hashed\<rparr>"
    show ?thesis
    proof (cases rule: CreateUser_cases [of "e_insert_fault E" "e_new_uuid E" "e_db_now E" ?arg "database w"])
      case (failed e)
      with Ret Inr that(2) show ?thesis by (simp add: Register_insert_def ApiError_def)
    next
      case (inserted u)
      let ?d = "(database w)\<lparr>users := users (database w) @ [u]\<rparr>"
      show ?thesis
      proof (cases bus)
        case None
        with Ret Inr inserted that(3) [of hashed u ?d "w\<lparr>database := ?d\<rparr>"] show ?thesis
          by (simp add: Register_insert_def)
      next
        case (Some b)
        let ?w = "w\<lparr>database := ?d\<rparr>"
        from assms Some have b: "bus_ok (Some b)" by simp
        obtain w1 where w1: "emit_registered b \<lparr>ur_UserID = UUID_String E (u_ID u), ur_Email = u_Email u\<rparr>
            ?w = Done w1" "database w1 = database ?w"
          using emit_registered_ok [OF b] by blast
        obtain w2 where w2: "emit_audit b (audit_payload E ''register'' u r) w1 = Done w2"
            "database w2 = database w1"
          using emit_audit_ok [OF b] by blast
        show ?thesis
          using Ret Inr inserted Some w1 w2 that(3) [of hashed u ?d w2]
          by (simp add: Register_insert_def)
      qed
    qed
  qed
qed

text \<open>What a successful registration did.\<close>

lemma Register_201:
  assumes "bus_ok bus" "Register E bus input r w = Returned res w1" "StatusCode res = 201"
  obtains hashed u where
      "HashPassword (e_rand E) (e_kdf E) (ri_Password input) = Ret (Inr hashed)"
      "CreateUser (e_insert_fault E) (e_new_uuid E) (e_db_now E)
         \<lparr>FirstName = ri_FirstName input, LastName = ri_LastName input,
          Email = ri_Email input, Passwd = hashed\<rparr> (database w) = (Inr u, database w1)"
      "res = ApiSuccess ''user registered successfully'' (Some (JObj [(''user'', SafeUser E u)])) 201"
proof -
  have "Register_insert E bus input r w = Returned res w1"
    using assms(2,3) by (auto simp: Register_def ApiError_def split: if_splits)
  with that show ?thesis
    by (cases rule: Register_insert_cases [OF assms(1), of E input r w]) (use assms(3) in auto)
qed

lemma CreateUser_Inr:
  assumes "CreateUser fault uuid now arg d = (Inr u, d')"
  shows "new_user uuid now arg d = Inr u" "d' = d\<lparr>users := users d @ [u]\<rparr>"
  using assms by (cases rule: CreateUser_cases [of fault uuid now arg d]; auto)+

definition login_response :: "svc_env \<Rightarrow> user \<Rightarrow> bytes \<Rightarrow> bytes \<Rightarrow> ApiResponse" where
  "login_response E u acc ref =
     ApiSuccess ''login successful''
       (Some (JObj [(''access_token'', JStr acc), (''refresh_token'', JStr ref),
                    (''user'', SafeUser E u)])) 200"

lemma Login_ok:
  assumes "GetUserByEmail (e_lookup_fault E) (li_Email l) (database w) = Inr u"
    "ComparePassword (e_kdf E) (u_Password u) (li_Password l) = Ret None"
    "Sign (e_jwt E) (NewTokenSigner (access_key E))
       (StandardClaims (e_now E) (UUID_String E (u_ID u)) access_ttl) = Inr acc"
    "Sign (e_jwt E) (NewTokenSigner (refresh_key E))
       (StandardClaims (e_now2 E) (UUID_String E (u_ID u)) refresh_ttl) = Inr ref"
    and bus: "bus_ok bus"
  shows "\<exists>w'. Login E bus l r w = Returned (login_response E u acc ref) w' \<and> database w' = database w"
proof (cases bus)
  case None
  then show ?thesis by (simp add: Login_def assms(1-4) Let_def login_response_def)
next
  case (Some b)
  with bus have b: "bus_ok (Some b)" by simp
  obtain w' where "emit_audit b (audit_payload E ''login'' u r) w = Done w'"
    "database w' = database w"
    using emit_audit_ok [OF b] by blast
  with Some show ?thesis by (simp add: Login_def assms(1-4) Let_def login_response_def)
qed

section \<open>From registration to an authenticated request\<close>

text \<open>
  C5. After a registration was answered with 201, a login with the same email and password
  succeeds, at any later time and from any client, as long as the tables hold what the
  registration left: the account was stored under the id it was given, the column took the hash
  unchanged, and the answer carries that user.
\<close>
theorem register_then_login:
  assumes input: "accepted_register input" and db: "db_ok (database w)"
    and bus: "bus_ok bus" "bus_ok bus2" and kdf: "kdf_length (e_kdf E)" "e_kdf E2 = e_kdf E"
    and reg: "Register E bus input r w = Returned res w1" "StatusCode res = 201"
    and later: "database w2 = database w1" "e_lookup_fault E2 = None"
    and signed: "Sign (e_jwt E2) (NewTokenSigner (access_key E2))
        (StandardClaims (e_now E2) (e_uuid_text E2 (e_new_uuid E)) access_ttl) = Inr acc"
      "Sign (e_jwt E2) (NewTokenSigner (refresh_key E2))
        (StandardClaims (e_now2 E2) (e_uuid_text E2 (e_new_uuid E)) refresh_ttl) = Inr ref"
  shows "\<exists>u w3. u_ID u = \<lparr>Bytes = e_new_uuid E, Valid = True\<rparr> \<and> u_Email u = ri_Email input
    \<and> Data res = Some (JObj [(''user'', SafeUser E u)])
    \<and> Login E2 bus2 \<lparr>li_Email = ri_Email input, li_Password = ri_Password input\<rparr> r2 w2
        = Returned (ApiSuccess ''login successful''
            (Some (JObj [(''access_token'', JStr acc), (''refresh_token'', JStr ref),
                         (''user'', SafeUser E2 u)])) 200) w3
    \<and> database w3 = database w1"
proof -
  obtain hashed u where h: "HashPassword (e_rand E) (e_kdf E) (ri_Password input) = Ret (Inr hashed)"
    and c: "CreateUser (e_insert_fault E) (e_new_uuid E) (e_db_now E)
         \<lparr>FirstName = ri_FirstName input, LastName = ri_LastName input,
          Email = ri_Email input, Passwd = hashed\<rparr> (database w) = (Inr u, database w1)"
    and res: "res = ApiSuccess ''user registered successfully'' (Some (JObj [(''user'', SafeUser E u)])) 201"
    using Register_201 [OF bus(1) reg] by blast
  note new = new_user_Inr [OF CreateUser_Inr(1) [OF c], simplified]
  have uid: "u_ID u = \<lparr>Bytes = e_new_uuid E, Valid = True\<rparr>"
    using new(1,2) by (cases "u_ID u") simp
  have "trim_space (ri_Email input) = ri_Email input"
    using input by (simp add: accepted_register_def)
  then have email: "u_Email u = ri_Email input"
    using varchar_exact [OF trim_space_last new(6)] by simp
  have pw: "u_Password u = hashed"
    using varchar_hash [OF h new(5)] .
  have found: "GetUserByEmail None (ri_Email input) (database w1) = Inr u"
    using pg.created_found [OF db, of "(e_insert_fault E, e_new_uuid E, e_db_now E)"
        "\<lparr>FirstName = ri_FirstName input, LastName = ri_LastName input,
          Email = ri_Email input, Passwd = hashed\<rparr>" u "database w1"] c email later
    by simp
  have same: "ComparePassword (e_kdf E2) (u_Password u) (ri_Password input) = Ret None"
    using ComparePassword_hashed [OF kdf(1) h] by (simp add: kdf(2) pw)
  have "GetUserByEmail (e_lookup_fault E2) (ri_Email input) (database w2) = Inr u"
    "UUID_String E2 (u_ID u) = e_uuid_text E2 (e_new_uuid E)"
    using found later by (simp_all add: uid UUID_String_def)
  with same signed bus(2) have "\<exists>w3. Login E2 bus2
      \<lparr>li_Email = ri_Email input, li_Password = ri_Password input\<rparr> r2 w2
        = Returned (login_response E2 u acc ref) w3 \<and> database w3 = database w2"
    by (intro Login_ok) simp_all
  then show ?thesis
    using uid email later(1) by (auto simp: res ApiSuccess_def login_response_def)
qed

text \<open>What a successful login handed out.\<close>

lemma Login_200:
  assumes "Login E bus l r w = Returned res w1" "StatusCode res = 200"
  obtains u acc ref where
      "GetUserByEmail (e_lookup_fault E) (li_Email l) (database w) = Inr u"
      "ComparePassword (e_kdf E) (u_Password u) (li_Password l) = Ret None"
      "Sign (e_jwt E) (NewTokenSigner (access_key E))
         (StandardClaims (e_now E) (UUID_String E (u_ID u)) access_ttl) = Inr acc"
      "Sign (e_jwt E) (NewTokenSigner (refresh_key E))
         (StandardClaims (e_now2 E) (UUID_String E (u_ID u)) refresh_ttl) = Inr ref"
      "res = ApiSuccess ''login successful''
         (Some (JObj [(''access_token'', JStr acc), (''refresh_token'', JStr ref),
                      (''user'', SafeUser E u)])) 200"
  using assms
  by (auto simp: Login_def ApiError_def Let_def call_bind_Returned
      split: sum.splits go.splits option.splits)

definition response_field :: "bytes \<Rightarrow> ApiResponse \<Rightarrow> bytes option" where
  "response_field k res =
     (case Data res of
        Some d \<Rightarrow> (case gov_field k d of Some (JStr s) \<Rightarrow> Some s | _ \<Rightarrow> None)
      | None \<Rightarrow> None)"

lemma Login_tokens:
  assumes "Login E bus l r w = Returned res w1" "StatusCode res = 200"
  obtains u acc ref where
      "GetUserByEmail (e_lookup_fault E) (li_Email l) (database w) = Inr u"
      "response_field ''access_token'' res = Some acc"
      "response_field ''refresh_token'' res = Some ref"
      "Sign (e_jwt E) (NewTokenSigner (access_key E))
         (StandardClaims (e_now E) (UUID_String E (u_ID u)) access_ttl) = Inr acc"
      "Sign (e_jwt E) (NewTokenSigner (refresh_key E))
         (StandardClaims (e_now2 E) (UUID_String E (u_ID u)) refresh_ttl) = Inr ref"
  by (rule Login_200 [OF assms]) (rule that, simp_all add: response_field_def ApiSuccess_def)

text \<open>The text form of the ids: ASCII, not empty, and scanned back.\<close>

definition uuid_codec :: "svc_env \<Rightarrow> bool" where
  "uuid_codec E \<longleftrightarrow>
     (\<forall>b. length b = 16 \<longrightarrow> ascii (e_uuid_text E b) \<and> e_uuid_text E b \<noteq> []
        \<and> e_uuid_scan E (e_uuid_text E b) = Inr b)"

text \<open>The guard lets a token of the access key through, with the id it was signed for.\<close>

lemma Guard_signed:
  assumes lib: "jwt_round_trip lib" and key: "k = GetEnv env ''JWT_SECRET'' ''change-me''"
    and tok: "Sign lib (NewTokenSigner k) (StandardClaims iat uid ttl) = Inr tok"
    and uid: "ascii uid" "uid \<noteq> []" and time: "now < unix (iat + ttl) * 1000000000"
    and req: "extractToken r = tok" "tok \<noteq> []"
  shows "Guard lib env now next r s = next (r\<lparr>ctx_uid := Some uid\<rparr>) s"
proof -
  obtain c where "Verify lib now (access_signer env) tok = Inr c" "c ''uid'' = Some (JStr uid)"
    using Verify_Sign [OF lib tok uid(1) time] by (auto simp: access_signer_def key)
  with uid(2) req show ?thesis by (simp add: Guard_def Let_def uid_claim_Some)
qed

text \<open>
  C22. The access token of a successful login opens \<open>GET /me\<close> until it expires: behind the guard
  the endpoint answers 200 with the account that logged in, read from the tables of that moment.
\<close>
theorem login_opens_me:
  assumes lib: "jwt_round_trip (e_jwt E)" and ids: "uuid_codec E" "e_uuid_text E2 = e_uuid_text E"
      "e_uuid_scan E2 = e_uuid_scan E"
    and login: "Login E bus l r w = Returned res w1" "StatusCode res = 200"
    and db: "db_ok (database w)" "list_all (\<lambda>u. length (Bytes (u_ID u)) = 16) (users (database w))"
    and tok: "response_field ''access_token'' res = Some tok" "extractToken r2 = tok" "tok \<noteq> []"
    and later: "e_now E2 < unix (e_now E + access_ttl) * 1000000000"
      "database (fst s) = database w" "e_lookup_fault E2 = None"
    and conf: "e_env E2 = e_env E" "e_jwt E2 = e_jwt E"
  shows "\<exists>u. GetUserByEmail None (li_Email l) (database w) = Inr u
    \<and> Guard (e_jwt E2) (e_env E2) (e_now E2) (me E2) r2 s
        = Done (fst s, SendResponse (snd s)
            (ApiSuccess ''ok'' (Some (JObj [(''user'', SafeUser E2 u)])) 200))"
proof -
  obtain u acc where u: "GetUserByEmail (e_lookup_fault E) (li_Email l) (database w) = Inr u"
    and "response_field ''access_token'' res = Some acc"
    and sign: "Sign (e_jwt E) (NewTokenSigner (access_key E))
         (StandardClaims (e_now E) (UUID_String E (u_ID u)) access_ttl) = Inr acc"
    by (rule Login_tokens [OF login])
  with tok(1) have acc: "acc = tok" by simp
  have mem: "u \<in> set (users (database w))"
    using u by (auto simp: GetUserByEmail_Inr dest!: find_Some_in_set)
  then have v: "Valid (u_ID u)" "length (Bytes (u_ID u)) = 16"
    using db by (auto simp: db_ok_def list_all_iff)
  let ?uid = "e_uuid_text E (Bytes (u_ID u))"
  have uid: "ascii ?uid" "?uid \<noteq> []" "e_uuid_scan E2 ?uid = Inr (Bytes (u_ID u))"
    using ids v(2) by (simp_all add: uuid_codec_def)
  have "Guard (e_jwt E2) (e_env E2) (e_now E2) (me E2) r2 s = me E2 (r2\<lparr>ctx_uid := Some ?uid\<rparr>) s"
    using sign v(1) uid(1,2) later(1) tok(2,3) acc
    by (intro Guard_signed [OF _ refl, where iat = "e_now E" and ttl = access_ttl and tok = acc])
      (simp_all add: conf lib access_key_def UUID_String_def)
  moreover have "find (\<lambda>u'. Bytes (u_ID u') = Bytes (u_ID u)) (users (database w)) = Some u"
    using find_distinct_key [of "Bytes \<circ> u_ID" _ u] db(1) mem by (simp add: db_ok_def)
  ultimately show ?thesis
    using u uid(3) later(2,3) v(1)
    by (simp add: me_def UIDFromContext_def Me_def StringToUUID_def GetUserByEmail_Inr GetUserByID_def
        scan_one_def)
qed

section \<open>A concrete run\<close>

definition sample_env :: svc_env where
  "sample_env =
     \<lparr>e_env = Map.empty, e_jwt = sample_jwt, e_kdf = sample_kdf,
      e_rand = (\<lambda>n. Inr (replicate n (CHR ''s''))),
      e_uuid_text = b64_encode,
      e_uuid_scan = (\<lambda>s. case b64_decode s of Some b \<Rightarrow> Inr b | None \<Rightarrow> Inl ''invalid''),
      e_quote = (\<lambda>s. s), e_time_text = (\<lambda>t. ''2025-01-01T00:00:00Z''),
      e_lookup_fault = None, e_insert_fault = None, e_new_uuid = replicate 16 (CHR ''u''),
      e_db_now = 0, e_now = 0, e_now2 = 0\<rparr>"

lemma sample_env_codec: "uuid_codec sample_env"
proof -
  have "b64_encode b \<noteq> []" if "length b = 16" for b
    using that length_b64_encode [of b] by auto
  then show ?thesis
    by (simp add: uuid_codec_def sample_env_def ascii_b64_encode b64_decode_encode)
qed

definition sample_app :: app where
  "sample_app =
     \<lparr>limiter = NewRateLimiter 10 1000000000, events_log = [], stdout_log = [], app_log = [],
      database = empty_db\<rparr>"

definition sample_request :: "bytes \<Rightarrow> body request" where
  "sample_request tok =
     \<lparr>req_method = ''GET'', req_path = ''/api/v1/auth/me'', req_query = [], req_header = Map.empty,
      req_cookies = [(''jwt'', tok)], req_body = None, req_remote = ''10.0.0.1:4711'',
      req_vars = Map.empty, ctx_uid = None, ctx_body = None\<rparr>"

definition sample_input :: RegisterInput where
  "sample_input =
     \<lparr>ri_FirstName = ''Ann'', ri_LastName = [], ri_Email = ''a@b.c'', ri_Password = ''12345678''\<rparr>"

definition sample_login :: LoginInput where
  "sample_login = \<lparr>li_Email = ''a@b.c'', li_Password = ''12345678''\<rparr>"

lemma sample_input_accepted: "accepted_register sample_input"
  by code_simp

lemma sample_hash:
  obtains h where "HashPassword (e_rand sample_env) sample_kdf ''12345678'' = Ret (Inr h)"
    "varchar 255 h = Inr h"
proof -
  obtain h where h: "HashPassword (e_rand sample_env) sample_kdf ''12345678'' = Ret (Inr h)"
    by (simp add: HashPassword_def sample_kdf_def defaultParams_def sample_env_def)
  have "length h = 97 \<and> ascii h"
    by (rule HashPassword_shape [OF sample_kdf_ok(1) _ h]) (simp add: sample_env_def)
  moreover obtain salt key where "h = phc_string defaultParams salt key"
    by (rule HashPassword_Ret [OF h])
  then have "CHR 0x00 \<notin> set h"
    using b64_encode_chars [of "CHR 0x00" salt] b64_encode_chars [of "CHR 0x00" key]
    by (auto simp: phc_default)
  ultimately show ?thesis using h that by (simp add: varchar_ascii)
qed

lemma sample_varchar:
  "varchar n [] = Inr []" "varchar 50 ''Ann'' = Inr ''Ann''" "varchar 100 ''a@b.c'' = Inr ''a@b.c''"
  by (simp_all add: varchar_ascii ascii_def)

lemma sample_register:
  obtains u where
    "ComparePassword sample_kdf (u_Password u) ''12345678'' = Ret None"
    "Register sample_env None sample_input (sample_request []) sample_app
       = Returned (ApiSuccess ''user registered successfully''
           (Some (JObj [(''user'', SafeUser sample_env u)])) 201)
           (sample_app\<lparr>database := \<lparr>users = [u], audit_logs = []\<rparr>\<rparr>)"
    "u_ID u = \<lparr>Bytes = replicate 16 (CHR ''u''), Valid = True\<rparr>" "u_Email u = ''a@b.c''"
proof -
  obtain h where h: "HashPassword (e_rand sample_env) sample_kdf ''12345678'' = Ret (Inr h)"
    "varchar 255 h = Inr h"
    by (rule sample_hash)
  have env: "e_kdf sample_env = sample_kdf" "e_insert_fault sample_env = None"
    "e_lookup_fault sample_env = None" "e_new_uuid sample_env = replicate 16 (CHR ''u'')"
    "e_db_now sample_env = 0"
    by (simp_all add: sample_env_def)
  have "\<not> Register_taken sample_env sample_input empty_db"
    by (simp add: Register_taken_def env GetUserByEmail_def empty_db_def scan_one_def and_then_def
        pg_text_def split: sum.splits)
  then show ?thesis
    using h ComparePassword_hashed [OF sample_kdf_ok(1) h(1)] that
    by (simp add: Register_def Register_insert_def env sample_input_def CreateUser_def new_user_def
        sample_varchar empty_db_def sample_app_def)
qed

lemma sample_sign:
  "in_int64 (unix (t + ttl)) \<Longrightarrow> \<exists>tok. Sign sample_jwt (NewTokenSigner k) (StandardClaims t uid ttl) = Inr tok \<and> tok \<noteq> []"
  by (simp add: Sign_def NewTokenSigner_def StandardClaims_def sample_jwt_def)

lemma sample_tokens:
  obtains acc ref where
    "Sign (e_jwt sample_env) (NewTokenSigner (access_key sample_env))
       (StandardClaims (e_now sample_env) uid access_ttl) = Inr acc" "acc \<noteq> []"
    "Sign (e_jwt sample_env) (NewTokenSigner (refresh_key sample_env))
       (StandardClaims (e_now2 sample_env) uid refresh_ttl) = Inr ref" "ref \<noteq> []"
  using that sample_sign [of 0 access_ttl "access_key sample_env" uid]
    sample_sign [of 0 refresh_ttl "refresh_key sample_env" uid]
  by (auto simp: sample_env_def access_ttl_def refresh_ttl_def unix_def in_int64_def)

theorem register_then_login_witness:
  "\<exists>res w1 res' w3.
     Register sample_env None sample_input (sample_request []) sample_app = Returned res w1
     \<and> StatusCode res = 201
     \<and> Login sample_env None sample_login (sample_request []) w1 = Returned res' w3
     \<and> StatusCode res' = 200"
proof -
  obtain u where u: "Register sample_env None sample_input (sample_request []) sample_app
       = Returned (ApiSuccess ''user registered successfully''
           (Some (JObj [(''user'', SafeUser sample_env u)])) 201)
           (sample_app\<lparr>database := \<lparr>users = [u], audit_logs = []\<rparr>\<rparr>)"
    by (rule sample_register)
  let ?w1 = "sample_app\<lparr>database := \<lparr>users = [u], audit_logs = []\<rparr>\<rparr>"
  obtain acc ref where tok: "Sign (e_jwt sample_env) (NewTokenSigner (access_key sample_env))
       (StandardClaims (e_now sample_env) (e_uuid_text sample_env (e_new_uuid sample_env)) access_ttl)
         = Inr acc"
    "Sign (e_jwt sample_env) (NewTokenSigner (refresh_key sample_env))
       (StandardClaims (e_now2 sample_env) (e_uuid_text sample_env (e_new_uuid sample_env)) refresh_ttl)
         = Inr ref"
    by (rule sample_tokens)
  have login: "\<lparr>li_Email = ri_Email sample_input, li_Password = ri_Password sample_input\<rparr> = sample_login"
    by (simp add: sample_input_def sample_login_def)
  have "db_ok (database sample_app)" "kdf_length (e_kdf sample_env)" "e_lookup_fault sample_env = None"
    by (simp_all add: sample_app_def sample_env_def sample_kdf_ok)
  from register_then_login [where E = sample_env and ?E2.0 = sample_env and bus = None and ?bus2.0 = None
      and ?w2.0 = ?w1, OF sample_input_accepted this(1) _ _ this(2) _ u _ _ this(3) tok,
      of "sample_request []"]
  show ?thesis using u by (auto simp: login ApiSuccess_def)
qed

lemma sample_session:
  obtains u acc ref where
    "Login sample_env None sample_login (sample_request []) (sample_app\<lparr>database := \<lparr>users = [u], audit_logs = []\<rparr>\<rparr>)
       = Returned (login_response sample_env u acc ref)
           (sample_app\<lparr>database := \<lparr>users = [u], audit_logs = []\<rparr>\<rparr>)"
    "u_ID u = \<lparr>Bytes = replicate 16 (CHR ''u''), Valid = True\<rparr>" "u_Email u = ''a@b.c''"
    "acc \<noteq> []" "ref \<noteq> []"
proof -
  obtain u :: user where u: "ComparePassword sample_kdf (u_Password u) ''12345678'' = Ret None"
    "u_ID u = \<lparr>Bytes = replicate 16 (CHR ''u''), Valid = True\<rparr>" "u_Email u = ''a@b.c''"
    by (rule sample_register) blast
  obtain acc ref where tok: "Sign (e_jwt sample_env) (NewTokenSigner (access_key sample_env))
       (StandardClaims (e_now sample_env) (UUID_String sample_env (u_ID u)) access_ttl) = Inr acc"
    "Sign (e_jwt sample_env) (NewTokenSigner (refresh_key sample_env))
       (StandardClaims (e_now2 sample_env) (UUID_String sample_env (u_ID u)) refresh_ttl) = Inr ref"
    "acc \<noteq> []" "ref \<noteq> []"
    by (rule sample_tokens)
  let ?w = "sample_app\<lparr>database := \<lparr>users = [u], audit_logs = []\<rparr>\<rparr>"
  have "GetUserByEmail (e_lookup_fault sample_env) (li_Email sample_login) (database ?w) = Inr u"
    "ComparePassword (e_kdf sample_env) (u_Password u) (li_Password sample_login) = Ret None"
    using u by (simp_all add: GetUserByEmail_Inr sample_env_def sample_login_def pg_text_def
        utf8_chars_ascii ascii_def)
  with tok(1,2) have "Login sample_env None sample_login (sample_request []) ?w
      = Returned (login_response sample_env u acc ref) ?w"
    by (simp add: Login_def Let_def login_response_def)
  then show ?thesis using u(2,3) tok(3,4) by (rule that)
qed

theorem login_opens_me_witness:
  "\<exists>u acc ref.
     Login sample_env None sample_login (sample_request []) (sample_app\<lparr>database := \<lparr>users = [u], audit_logs = []\<rparr>\<rparr>)
       = Returned (login_response sample_env u acc ref) (sample_app\<lparr>database := \<lparr>users = [u], audit_logs = []\<rparr>\<rparr>)
     \<and> Guard sample_jwt Map.empty 0 (me sample_env) (sample_request acc)
         (sample_app\<lparr>database := \<lparr>users = [u], audit_logs = []\<rparr>\<rparr>, new_response)
       = Done (sample_app\<lparr>database := \<lparr>users = [u], audit_logs = []\<rparr>\<rparr>, SendResponse new_response
           (ApiSuccess ''ok'' (Some (JObj [(''user'', SafeUser sample_env u)])) 200))"
proof -
  obtain u acc ref where s:
    "Login sample_env None sample_login (sample_request []) (sample_app\<lparr>database := \<lparr>users = [u], audit_logs = []\<rparr>\<rparr>)
       = Returned (login_response sample_env u acc ref)
           (sample_app\<lparr>database := \<lparr>users = [u], audit_logs = []\<rparr>\<rparr>)"
    "u_ID u = \<lparr>Bytes = replicate 16 (CHR ''u''), Valid = True\<rparr>" "u_Email u = ''a@b.c''"
    "acc \<noteq> []"
    by (rule sample_session)
  let ?w = "sample_app\<lparr>database := \<lparr>users = [u], audit_logs = []\<rparr>\<rparr>"
  have 1: "jwt_round_trip (e_jwt sample_env)"
    by (simp add: sample_env_def sample_jwt_ok)
  have 2: "uuid_codec sample_env" by (rule sample_env_codec)
  have 3: "db_ok (database ?w)" "list_all (\<lambda>u. length (Bytes (u_ID u)) = 16) (users (database ?w))"
    by (simp_all add: db_ok_def s(2))
  have 4: "response_field ''access_token'' (login_response sample_env u acc ref) = Some acc"
    "StatusCode (login_response sample_env u acc ref) = 200"
    by (simp_all add: response_field_def login_response_def ApiSuccess_def)
  have 5: "e_now sample_env < unix (e_now sample_env + access_ttl) * 1000000000"
    "e_lookup_fault sample_env = None" "extractToken (sample_request acc) = acc"
    by (simp_all add: sample_env_def access_ttl_def unix_def extractToken_def sample_request_def)
  have "\<exists>u'. GetUserByEmail None (li_Email sample_login) (database ?w) = Inr u'
    \<and> Guard (e_jwt sample_env) (e_env sample_env) (e_now sample_env) (me sample_env) (sample_request acc)
        (?w, new_response)
      = Done (?w, SendResponse new_response
          (ApiSuccess ''ok'' (Some (JObj [(''user'', SafeUser sample_env u')])) 200))"
    using login_opens_me [OF 1 2 refl refl s(1) 4(2) 3 4(1) 5(3) s(4) 5(1) _ 5(2) refl refl,
        where s = "(?w, new_response)"] by simp
  then show ?thesis
    using s(1,3) by (auto simp: GetUserByEmail_Inr sample_login_def sample_env_def)
qed

end
