(* ===== verification/Register_Race.thy ===== *)
theory Register_Race
  imports Auth_Properties
begin

text \<open>
  Concurrent registrations.  \<open>Register\<close> runs one query and one insert, each atomic in the
  database, and other requests run in between: the handlers share no lock.  A step of the system
  is a step of one request, the lookup or the rest; who moves next is not determined.
\<close>

section \<open>Requests in flight\<close>

datatype reg_pc = Looking | Inserting | Answered ApiResponse | Died

record reg_thread =
  rt_env :: svc_env
  rt_input :: RegisterInput
  rt_req :: "body request"
  rt_pc :: reg_pc

text \<open>The lookup, and the insert with the events that follow it.\<close>

definition reg_look :: "reg_thread \<Rightarrow> app \<Rightarrow> reg_pc" where
  "reg_look th w =
     (if Register_taken (rt_env th) (rt_input th) (database w)
      then Answered (ApiError ''email already registered'' None 409) else Inserting)"

definition reg_finish :: "app emitter option \<Rightarrow> reg_thread \<Rightarrow> app \<Rightarrow> reg_pc \<times> app" where
  "reg_finish bus th w =
     (case Register_insert (rt_env th) bus (rt_input th) (rt_req th) w of
        Returned res w' \<Rightarrow> (Answered res, w')
      | Crashed w' \<Rightarrow> (Died, w'))"

inductive reg_step ::
  "app emitter option \<Rightarrow> app \<times> reg_thread list \<Rightarrow> app \<times> reg_thread list \<Rightarrow> bool"
  for bus where
  look: "i < length ts \<Longrightarrow> rt_pc (ts ! i) = Looking \<Longrightarrow>
    reg_step bus (w, ts) (w, ts[i := (ts ! i)\<lparr>rt_pc := reg_look (ts ! i) w\<rparr>])"
| finish: "i < length ts \<Longrightarrow> rt_pc (ts ! i) = Inserting \<Longrightarrow> reg_finish bus (ts ! i) w = (pc, w') \<Longrightarrow>
    reg_step bus (w, ts) (w', ts[i := (ts ! i)\<lparr>rt_pc := pc\<rparr>])"

inductive_cases reg_stepE: "reg_step bus s t"

text \<open>A request that is not disturbed between its two steps is a call of \<open>Register\<close>.\<close>

lemma reg_steps_Register:
  assumes "Register (rt_env th) bus (rt_input th) (rt_req th) w = Returned res w'"
    and "rt_pc th = Looking"
  shows "(reg_step bus)\<^sup>*\<^sup>* (w, [th]) (w', [th\<lparr>rt_pc := Answered res\<rparr>])"
proof (cases "Register_taken (rt_env th) (rt_input th) (database w)")
  case True
  with assms have "w' = w" "reg_look th w = Answered res"
    by (auto simp: Register_def reg_look_def)
  with reg_step.look [of 0 "[th]" bus w] assms(2) show ?thesis by auto
next
  case False
  let ?th = "th\<lparr>rt_pc := Inserting\<rparr>"
  from False assms have "reg_finish bus ?th w = (Answered res, w')"
    by (simp add: Register_def reg_finish_def)
  then have "reg_step bus (w, [?th]) (w', [th\<lparr>rt_pc := Answered res\<rparr>])"
    using reg_step.finish [of 0 "[?th]" bus w "Answered res" w'] by simp
  moreover have "reg_step bus (w, [th]) (w, [?th])"
    using reg_step.look [of 0 "[th]" bus w] False assms(2) by (simp add: reg_look_def)
  ultimately show ?thesis by (meson converse_rtranclp_into_rtranclp rtranclp.rtrancl_refl)
qed

section \<open>The invariant\<close>

definition answered_201 :: "reg_thread \<Rightarrow> bool" where
  "answered_201 th \<longleftrightarrow> (\<exists>res. rt_pc th = Answered res \<and> StatusCode res = 201)"

definition reg_inv :: "app \<times> reg_thread list \<Rightarrow> bool" where
  "reg_inv s \<longleftrightarrow> (let d = database (fst s); ts = snd s; n = length ts in
     db_ok d
     \<and> (\<forall>i<n. accepted_register (rt_input (ts ! i)))
     \<and> (\<forall>i<n. answered_201 (ts ! i) \<longrightarrow> ri_Email (rt_input (ts ! i)) \<in> u_Email ` set (users d))
     \<and> (\<forall>i<n. \<forall>j<n. i \<noteq> j \<and> answered_201 (ts ! i) \<and> answered_201 (ts ! j)
          \<longrightarrow> ri_Email (rt_input (ts ! i)) \<noteq> ri_Email (rt_input (ts ! j))))"

lemma reg_inv_db: "reg_inv (w, ts) \<Longrightarrow> db_ok (database w)"
  by (simp add: reg_inv_def Let_def)

lemma reg_inv_update:
  assumes inv: "reg_inv (w, ts)" and i: "i < length ts" "\<not> answered_201 (ts ! i)"
    and db: "db_ok (database w')" "u_Email ` set (users (database w)) \<subseteq> u_Email ` set (users (database w'))"
    and new: "answered_201 ((ts ! i)\<lparr>rt_pc := pc\<rparr>) \<Longrightarrow>
      ri_Email (rt_input (ts ! i)) \<in> u_Email ` set (users (database w')) - u_Email ` set (users (database w))"
  shows "reg_inv (w', ts[i := (ts ! i)\<lparr>rt_pc := pc\<rparr>])"
proof -
  let ?ts = "ts[i := (ts ! i)\<lparr>rt_pc := pc\<rparr>]" and ?e = "\<lambda>k. ri_Email (rt_input (ts ! k))"
  have n: "length ?ts = length ts" by simp
  have input: "rt_input (?ts ! k) = rt_input (ts ! k)" for k
    using i(1) by (cases "k = i") simp_all
  have old: "answered_201 (?ts ! k) \<longleftrightarrow> answered_201 (ts ! k)" if "k \<noteq> i" for k
    using that by simp
  have stored: "?e k \<in> u_Email ` set (users (database w))" if "k < length ts" "answered_201 (ts ! k)" for k
    using inv that by (simp add: reg_inv_def Let_def)
  have upd: "?ts ! i = (ts ! i)\<lparr>rt_pc := pc\<rparr>" using i(1) by simp
  have "?e k \<in> u_Email ` set (users (database w'))" if "k < length ts" "answered_201 (?ts ! k)" for k
    using that stored [of k] old [of k] new db(2) upd by (cases "k = i") auto
  moreover have "?e k \<noteq> ?e j" if "k < length ts" "j < length ts" "k \<noteq> j"
    "answered_201 (?ts ! k)" "answered_201 (?ts ! j)" for k j
  proof (cases "k = i \<or> j = i")
    case True
    then show ?thesis
      using that stored [of k] stored [of j] old [of k] old [of j] new upd by auto
  next
    case False
    with that old inv show ?thesis by (simp add: reg_inv_def Let_def)
  qed
  ultimately show ?thesis
    using inv db(1) unfolding reg_inv_def Let_def fst_conv snd_conv n input by simp
qed

lemma reg_step_inv:
  assumes "reg_step bus s t" "reg_inv s" "bus_ok bus"
  shows "reg_inv t"
  using assms(1)
proof (cases rule: reg_step.cases)
  case (look i ts w)
  have "\<not> answered_201 ((ts ! i)\<lparr>rt_pc := reg_look (ts ! i) w\<rparr>)"
    by (auto simp: answered_201_def reg_look_def ApiError_def)
  moreover have "\<not> answered_201 (ts ! i)"
    using look(4) by (simp add: answered_201_def)
  ultimately show ?thesis
    using look(1-3) assms(2) reg_inv_db [of w ts] by (auto intro!: reg_inv_update)
next
  case (finish i ts w pc w')
  let ?th = "ts ! i" and ?d = "database w"
  have inv: "reg_inv (w, ts)" and quiet: "\<not> answered_201 ?th"
    using finish assms(2) by (simp_all add: answered_201_def)
  then have db: "db_ok ?d" and acc: "accepted_register (rt_input ?th)"
    using finish(3) by (simp_all add: reg_inv_def Let_def)
  show ?thesis
  proof (cases rule: Register_insert_cases [OF assms(3), of "rt_env ?th" "rt_input ?th" "rt_req ?th" w,
      case_names crashed failed created])
    case crashed
    with finish have "pc = Died" "w' = w" by (simp_all add: reg_finish_def)
    with inv quiet finish db show ?thesis
      by (auto intro!: reg_inv_update simp: answered_201_def)
  next
    case (failed res)
    with finish have "pc = Answered res" "w' = w" by (simp_all add: reg_finish_def)
    with inv quiet finish db failed(2) show ?thesis
      by (auto intro!: reg_inv_update simp: answered_201_def)
  next
    case (created hashed u d w1)
    with finish have w': "database w' = d" by (simp add: reg_finish_def)
    note ins = CreateUser_Inr [OF created(2)]
    note new = new_user_Inr [OF ins(1), simplified]
    have "trim_space (ri_Email (rt_input ?th)) = ri_Email (rt_input ?th)"
      using acc by (simp add: accepted_register_def)
    then have email: "u_Email u = ri_Email (rt_input ?th)"
      using varchar_exact [OF trim_space_last new(6)] by simp
    have "db_ok d"
      using CreateUser_ok [OF db] created(2) by (metis snd_conv)
    with inv quiet finish new(4) email show ?thesis
      by (auto intro!: reg_inv_update simp: w' ins(2))
  qed
qed

text \<open>
  C9. However the lookups and inserts of concurrent registrations interleave, no email ends up
  with two accounts and no two clients are told 201 for the same email; every client told 201 has
  its account in the tables.
\<close>
theorem concurrent_registrations:
  assumes "(reg_step bus)\<^sup>*\<^sup>* (w, ts) (w', ts')" and "bus_ok bus" "db_ok (database w)"
    and "\<forall>th \<in> set ts. rt_pc th = Looking \<and> accepted_register (rt_input th)"
  shows "distinct (map u_Email (users (database w')))
    \<and> distinct (map (ri_Email \<circ> rt_input) (filter answered_201 ts'))
    \<and> (ri_Email \<circ> rt_input) ` set (filter answered_201 ts') \<subseteq> u_Email ` set (users (database w'))"
proof -
  have "reg_inv (w, ts)"
    using assms(3,4) by (auto simp: reg_inv_def Let_def answered_201_def)
  with assms(1) have inv: "reg_inv (w', ts')"
    by (induction "(w', ts')" arbitrary: w' ts' rule: rtranclp_induct)
      (auto intro: reg_step_inv assms(2))
  then have "distinct (map (ri_Email \<circ> rt_input) (filter answered_201 ts'))"
    by (intro distinct_map_filter_nth) (auto simp: reg_inv_def Let_def)
  with inv show ?thesis
    by (auto simp: reg_inv_def Let_def db_ok_def in_set_conv_nth)
qed

definition sample_thread :: reg_thread where
  "sample_thread =
     \<lparr>rt_env = sample_env, rt_input = sample_input, rt_req = sample_request [], rt_pc = Looking\<rparr>"

theorem concurrent_registrations_witness:
  "\<exists>w' ts'. (reg_step None)\<^sup>*\<^sup>* (sample_app, [sample_thread]) (w', ts')
     \<and> filter answered_201 ts' \<noteq> []
     \<and> (ri_Email \<circ> rt_input) ` set (filter answered_201 ts') \<subseteq> u_Email ` set (users (database w'))"
proof -
  obtain u where u: "Register sample_env None sample_input (sample_request []) sample_app
       = Returned (ApiSuccess ''user registered successfully''
           (Some (JObj [(''user'', SafeUser sample_env u)])) 201)
           (sample_app\<lparr>database := \<lparr>users = [u], audit_logs = []\<rparr>\<rparr>)"
    by (rule sample_register)
  let ?res = "ApiSuccess ''user registered successfully'' (Some (JObj [(''user'', SafeUser sample_env u)])) 201"
  let ?ts = "[sample_thread\<lparr>rt_pc := Answered ?res\<rparr>]"
  have run: "(reg_step None)\<^sup>*\<^sup>* (sample_app, [sample_thread])
      (sample_app\<lparr>database := \<lparr>users = [u], audit_logs = []\<rparr>\<rparr>, ?ts)"
    by (rule reg_steps_Register) (simp_all add: sample_thread_def u)
  have "db_ok (database sample_app)" by (simp add: sample_app_def)
  moreover have "\<forall>th \<in> set [sample_thread]. rt_pc th = Looking \<and> accepted_register (rt_input th)"
    by (simp add: sample_thread_def sample_input_accepted)
  moreover have "filter answered_201 ?ts \<noteq> []"
    by (simp add: answered_201_def ApiSuccess_def)
  ultimately show ?thesis
    using concurrent_registrations [OF run bus_ok_None] run by blast
qed

text \<open>
  C12. A second registration of an email is refused, but how depends on the timing.  Begun after the
  first was answered with 201, and with a lookup the database answers, it gets 409; if its lookup ran
  before the first one's insert, its own insert hits the unique index and it gets 500 (or panics in
  the hash).  Neither leaves a trace.  Both inputs are ones the validation lets through, the tables
  keep the constraints and the event bus, where there is one, returns.
\<close>
theorem duplicate_registration:
  assumes first: "Register E bus input r w = Returned res w1" "StatusCode res = 201"
    and ok: "accepted_register input" "db_ok (database w)" "bus_ok bus" "bus_ok bus2"
    and second: "ri_Email input2 = ri_Email input" "e_lookup_fault E2 = None" "accepted_register input2"
  shows "Register E2 bus2 input2 r2 w1 = Returned (ApiError ''email already registered'' None 409) w1
    \<and> (Register_insert E2 bus2 input2 r2 w1 = Crashed w1
       \<or> (\<exists>res2. Register_insert E2 bus2 input2 r2 w1 = Returned res2 w1 \<and> StatusCode res2 = 500))"
proof -
  obtain hashed u where c: "CreateUser (e_insert_fault E) (e_new_uuid E) (e_db_now E)
         \<lparr>FirstName = ri_FirstName input, LastName = ri_LastName input,
          Email = ri_Email input, Passwd = hashed\<rparr> (database w) = (Inr u, database w1)"
    by (rule Register_201 [OF ok(3) first])
  note new = new_user_Inr [OF CreateUser_Inr(1) [OF c], simplified]
  have trimmed: "trim_space (ri_Email input) = ri_Email input"
    using ok(1) by (simp add: accepted_register_def)
  then have email: "u_Email u = ri_Email input"
    using varchar_exact [OF trim_space_last new(6)] by simp
  have "GetUserByEmail None (ri_Email input) (database w1) = Inr u"
    using pg.created_found [OF ok(2), of "(e_insert_fault E, e_new_uuid E, e_db_now E)"] c email
    by fastforce
  then have "Register_taken E2 input2 (database w1)"
    using new(2) by (simp add: Register_taken_def second)
  moreover have "Register_insert E2 bus2 input2 r2 w1 = Crashed w1
       \<or> (\<exists>res2. Register_insert E2 bus2 input2 r2 w1 = Returned res2 w1 \<and> StatusCode res2 = 500)"
  proof (cases rule: Register_insert_cases [OF ok(4), of E2 input2 r2 w1,
        case_names crashed failed created])
    case (created hashed2 u2 d w2)
    note new2 = new_user_Inr [OF CreateUser_Inr(1) [OF created(2)], simplified]
    have "u_Email u2 = ri_Email input"
      using varchar_exact [OF trim_space_last new2(6)] trimmed by (simp add: second)
    with new2(4) email CreateUser_Inr(2) [OF c] show ?thesis by simp
  qed auto
  ultimately show ?thesis by (simp add: Register_def)
qed

theorem duplicate_registration_witness:
  "\<exists>w1. Register sample_env None sample_input (sample_request []) w1
     = Returned (ApiError ''email already registered'' None 409) (w1 :: app)"
proof -
  obtain u where u: "Register sample_env None sample_input (sample_request []) sample_app
       = Returned (ApiSuccess ''user registered successfully''
           (Some (JObj [(''user'', SafeUser sample_env u)])) 201)
           (sample_app\<lparr>database := \<lparr>users = [u], audit_logs = []\<rparr>\<rparr>)"
    by (rule sample_register)
  have f: "db_ok (database sample_app)" "e_lookup_fault sample_env = None"
    by (simp_all add: sample_app_def sample_env_def)
  show ?thesis
    using duplicate_registration [OF u _ sample_input_accepted f(1) bus_ok_None bus_ok_None refl f(2)
        sample_input_accepted, of "sample_request []"]
    by (auto simp: ApiSuccess_def)
qed

end
