(* ===== verification/Realtime.thy ===== *)
theory Realtime
  imports Events
begin

text \<open>
  The WebSocket hub, \<open>server/internal/core/realtime/hub.go\<close>, as the goroutines run it.  A client is
  a number; its \<open>send\<close> channel is a bounded queue that can be closed.  The lock is a
  reader/writer lock: broadcasts hold it for reading while they go through the map, in any order,
  and \<open>register\<close> and the deletion in \<open>unregister\<close> need it alone.  A send on a closed channel and a
  second close panic, which the state records.
\<close>

section \<open>State\<close>

text \<open>
  Where the three goroutines of a connection are: \<open>ServeHTTP\<close> before and after the hello frame, the
  read pump from reading over the deletion to the close of the channel, the write pump running or
  not.
\<close>

datatype reader_pc = NotStarted | Reading | Unregistering | Closing | Gone

record client =
  send_buf :: "gov list"
  send_closed :: bool
  reader :: reader_pc
  writing :: bool
  written :: "gov list"

record hub =
  members :: "nat set"
  conns :: "nat \<rightharpoonup> client"
  broadcasts :: "(gov \<times> nat set) list"
  panicked :: bool

definition NewHub :: hub where
  "NewHub = \<lparr>members = {}, conns = Map.empty, broadcasts = [], panicked = False\<rparr>"

definition new_client :: client where
  "new_client = \<lparr>send_buf = [], send_closed = False, reader = NotStarted, writing = False, written = []\<rparr>"

section \<open>Operations\<close>

definition CheckOrigin :: "bytes list \<Rightarrow> 'b request \<Rightarrow> bool" where
  "CheckOrigin origins r =
     (let origin = hget (req_header r) ''Origin''
      in if origin = [] then True else origin \<in> set origins)"

definition marshalFrame :: "bytes \<Rightarrow> gov \<Rightarrow> gov fallible" where
  "marshalFrame event payload =
     (let frame = JObj [(''event'', JStr event), (''payload'', payload)]
      in if marshalable frame then Inr frame else Inl ''json: unsupported type'')"

text \<open>\<open>select { case c.send <- frame: default: }\<close> on a channel of 256 places.\<close>

definition try_send :: "gov \<Rightarrow> nat \<Rightarrow> hub \<Rightarrow> hub" where
  "try_send frame i h =
     (case conns h i of
        None \<Rightarrow> h
      | Some c \<Rightarrow>
          if send_closed c then h\<lparr>panicked := True\<rparr>
          else if length (send_buf c) < 256
          then h\<lparr>conns := (conns h)(i \<mapsto> c\<lparr>send_buf := send_buf c @ [frame]\<rparr>)\<rparr>
          else h)"

definition hub_register :: "nat \<Rightarrow> hub \<Rightarrow> hub" where
  "hub_register i h = h\<lparr>members := insert i (members h), conns := (conns h)(i \<mapsto> new_client)\<rparr>"

definition hub_delete :: "nat \<Rightarrow> hub \<Rightarrow> hub" where
  "hub_delete i h = h\<lparr>members := members h - {i}\<rparr>"

definition close_send :: "nat \<Rightarrow> hub \<Rightarrow> hub" where
  "close_send i h =
     (case conns h i of
        None \<Rightarrow> h
      | Some c \<Rightarrow>
          if send_closed c then h\<lparr>panicked := True\<rparr>
          else h\<lparr>conns := (conns h)(i \<mapsto> c\<lparr>send_closed := True\<rparr>)\<rparr>)"

definition set_reader :: "nat \<Rightarrow> reader_pc \<Rightarrow> hub \<Rightarrow> hub" where
  "set_reader i pc h =
     (case conns h i of None \<Rightarrow> h | Some c \<Rightarrow> h\<lparr>conns := (conns h)(i \<mapsto> c\<lparr>reader := pc\<rparr>)\<rparr>)"

definition start_pumps :: "nat \<Rightarrow> hub \<Rightarrow> hub" where
  "start_pumps i h =
     (case conns h i of
        None \<Rightarrow> h
      | Some c \<Rightarrow> h\<lparr>conns := (conns h)(i \<mapsto> c\<lparr>reader := Reading, writing := True\<rparr>)\<rparr>)"

definition ConnectedClients :: "hub \<Rightarrow> nat" where
  "ConnectedClients h = card (members h)"

section \<open>Steps\<close>

inductive hub_step :: "hub \<Rightarrow> hub \<Rightarrow> bool" where
  connect: "conns h i = None \<Longrightarrow> broadcasts h = [] \<Longrightarrow> hub_step h (hub_register i h)"
| hello: "conns h i = Some c \<Longrightarrow> reader c = NotStarted \<Longrightarrow>
    hub_step h (start_pumps i (try_send frame i h))"
| broadcast: "hub_step h (h\<lparr>broadcasts := broadcasts h @ [(frame, members h)]\<rparr>)"
| deliver: "k < length (broadcasts h) \<Longrightarrow> broadcasts h ! k = (frame, rest) \<Longrightarrow> i \<in> rest \<Longrightarrow>
    hub_step h (try_send frame i (h\<lparr>broadcasts := (broadcasts h)[k := (frame, rest - {i})]\<rparr>))"
| finish: "broadcasts h = xs @ (frame, {}) # ys \<Longrightarrow> hub_step h (h\<lparr>broadcasts := xs @ ys\<rparr>)"
| read_error: "conns h i = Some c \<Longrightarrow> reader c = Reading \<Longrightarrow>
    hub_step h (set_reader i Unregistering h)"
| unregister: "conns h i = Some c \<Longrightarrow> reader c = Unregistering \<Longrightarrow> broadcasts h = [] \<Longrightarrow>
    hub_step h (set_reader i Closing (hub_delete i h))"
| close: "conns h i = Some c \<Longrightarrow> reader c = Closing \<Longrightarrow>
    hub_step h (set_reader i Gone (close_send i h))"
| write_ok: "conns h i = Some c \<Longrightarrow> writing c \<Longrightarrow> send_buf c = m # ms \<Longrightarrow>
    hub_step h (h\<lparr>conns := (conns h)(i \<mapsto> c\<lparr>send_buf := ms, written := written c @ [m]\<rparr>)\<rparr>)"
| write_error: "conns h i = Some c \<Longrightarrow> writing c \<Longrightarrow> send_buf c = m # ms \<Longrightarrow>
    hub_step h (h\<lparr>conns := (conns h)(i \<mapsto> c\<lparr>send_buf := ms, writing := False\<rparr>)\<rparr>)"
| drained: "conns h i = Some c \<Longrightarrow> writing c \<Longrightarrow> send_buf c = [] \<Longrightarrow> send_closed c \<Longrightarrow>
    hub_step h (h\<lparr>conns := (conns h)(i \<mapsto> c\<lparr>writing := False\<rparr>)\<rparr>)"

inductive_cases hub_stepE: "hub_step h h'"

section \<open>The invariant\<close>

text \<open>
  A member's channel is open; a channel is closed by its read pump only, after the deletion; a
  broadcast under way goes through members only.
\<close>

definition client_inv :: "nat set \<Rightarrow> nat \<Rightarrow> client \<Rightarrow> bool" where
  "client_inv ms i c \<longleftrightarrow> length (send_buf c) \<le> 256
     \<and> (send_closed c \<longleftrightarrow> reader c = Gone)
     \<and> (i \<in> ms \<longleftrightarrow> reader c \<in> {NotStarted, Reading, Unregistering})"

definition hub_inv :: "hub \<Rightarrow> bool" where
  "hub_inv h \<longleftrightarrow> \<not> panicked h \<and> finite (members h)
     \<and> (\<forall>i \<in> members h. conns h i \<noteq> None)
     \<and> (\<forall>i c. conns h i = Some c \<longrightarrow> client_inv (members h) i c)
     \<and> (\<forall>(frame, rest) \<in> set (broadcasts h). rest \<subseteq> members h)"

lemma hub_inv_New: "hub_inv NewHub"
  by (simp add: hub_inv_def NewHub_def)

lemma hub_invD:
  assumes "hub_inv h" "conns h i = Some c"
  shows "length (send_buf c) \<le> 256" "send_closed c \<longleftrightarrow> reader c = Gone"
    "i \<in> members h \<longleftrightarrow> reader c \<in> {NotStarted, Reading, Unregistering}" "\<not> panicked h"
  using assms by (auto simp: hub_inv_def client_inv_def)

lemma hub_inv_member:
  assumes "hub_inv h" "i \<in> members h"
  obtains c where "conns h i = Some c" "\<not> send_closed c" "reader c \<noteq> Gone"
proof -
  obtain c where c: "conns h i = Some c"
    using assms by (auto simp: hub_inv_def)
  with hub_invD(2,3) [OF assms(1) c] assms(2) that show ?thesis by auto
qed

text \<open>One client changes, the map and the broadcasts stay.\<close>

lemma hub_inv_client:
  assumes "hub_inv h" "conns h i = Some c" "client_inv (members h) i c'"
  shows "hub_inv (h\<lparr>conns := (conns h)(i \<mapsto> c')\<rparr>)"
  using assms by (auto simp: hub_inv_def)

lemma hub_inv_try_send:
  assumes "hub_inv h" "conns h i = Some c" "reader c \<noteq> Gone"
  shows "hub_inv (try_send frame i h)"
  using assms(1,2) hub_invD [OF assms(1,2)] assms(3)
  by (auto simp: try_send_def client_inv_def intro: hub_inv_client)

lemma try_send_frame [simp]:
  "members (try_send f i h) = members h" "broadcasts (try_send f i h) = broadcasts h"
  by (simp_all add: try_send_def split: option.splits)

lemma try_send_conns:
  "conns h i = Some c \<Longrightarrow> reader c \<noteq> Gone \<Longrightarrow> hub_inv h \<Longrightarrow>
   \<exists>b. conns (try_send f i h) i = Some (c\<lparr>send_buf := b\<rparr>) \<and> length b \<le> 256"
  using hub_invD [of h i c]
  by (cases "length (send_buf c) < 256")
    (auto simp: try_send_def intro: exI [of _ "send_buf c"] exI [of _ "send_buf c @ [f]"])

lemma hub_step_inv:
  assumes "hub_step h h'" "hub_inv h"
  shows "hub_inv h'"
  using assms
proof (induction rule: hub_step.induct)
  case (connect h i)
  then show ?case
    by (auto simp: hub_inv_def hub_register_def client_inv_def new_client_def)
next
  case (hello h i c frame)
  then obtain b where "conns (try_send frame i h) i = Some (c\<lparr>send_buf := b\<rparr>)" "length b \<le> 256"
    using try_send_conns [of h i c frame] by auto
  with hello hub_inv_try_send [of h i c frame] hub_invD [of h i c] show ?case
    by (auto simp: start_pumps_def client_inv_def intro!: hub_inv_client)
next
  case (broadcast h frame)
  then show ?case by (auto simp: hub_inv_def)
next
  case (deliver k h frame rest i)
  let ?h = "h\<lparr>broadcasts := (broadcasts h)[k := (frame, rest - {i})]\<rparr>"
  have rest: "rest \<subseteq> members h"
    using deliver by (metis (mono_tags, lifting) case_prodD hub_inv_def nth_mem)
  have "set (broadcasts ?h) \<subseteq> insert (frame, rest - {i}) (set (broadcasts h))"
    by (simp add: set_update_subset_insert)
  moreover have "\<forall>(f, r) \<in> insert (frame, rest - {i}) (set (broadcasts h)). r \<subseteq> members h"
    using deliver(4) rest by (auto simp: hub_inv_def)
  ultimately have "\<forall>(f, r) \<in> set (broadcasts ?h). r \<subseteq> members h" by blast
  with deliver(4) have inv: "hub_inv ?h"
    by (simp add: hub_inv_def)
  have "i \<in> members ?h"
    using deliver(3) rest by auto
  then obtain c where "conns ?h i = Some c" "reader c \<noteq> Gone"
    using hub_inv_member [OF inv] by blast
  then show ?case using hub_inv_try_send [OF inv] by simp
next
  case (finish h xs frame ys)
  then show ?case by (auto simp: hub_inv_def)
next
  case (read_error h i c)
  then show ?case
    using hub_invD [of h i c] by (auto simp: set_reader_def client_inv_def intro!: hub_inv_client)
next
  case (unregister h i c)
  then show ?case
    using hub_invD [of h i c]
    by (auto simp: set_reader_def hub_delete_def hub_inv_def client_inv_def)
next
  case (close h i c)
  then show ?case
    using hub_invD [of h i c]
    by (auto simp: set_reader_def close_send_def client_inv_def intro!: hub_inv_client)
next
  case (write_ok h i c m ms)
  then show ?case
    using hub_invD [of h i c] by (auto simp: client_inv_def intro!: hub_inv_client)
next
  case (write_error h i c m ms)
  then show ?case
    using hub_invD [of h i c] by (auto simp: client_inv_def intro!: hub_inv_client)
next
  case (drained h i c)
  then show ?case
    using hub_invD [of h i c] by (auto simp: client_inv_def intro!: hub_inv_client)
qed

text \<open>
  C8. However connects, broadcasts, reads, writes and disconnects interleave, the hub never sends
  on a closed channel and never closes one twice, so it does not panic; no client's queue grows
  past its 256 places; and the clients counted as connected are those whose channel is open and
  that have not begun to be removed.
\<close>
theorem hub_never_panics:
  assumes "hub_step\<^sup>*\<^sup>* NewHub h"
  shows "\<not> panicked h
    \<and> (\<forall>i c. conns h i = Some c \<longrightarrow> length (send_buf c) \<le> 256
         \<and> (i \<in> members h \<longleftrightarrow> reader c \<in> {NotStarted, Reading, Unregistering})
         \<and> (i \<in> members h \<longrightarrow> \<not> send_closed c))"
proof -
  have "hub_inv h"
    using assms by (induction rule: rtranclp_induct) (auto intro: hub_inv_New hub_step_inv)
  then show ?thesis by (auto simp: hub_inv_def client_inv_def)
qed

theorem hub_never_panics_witness:
  "\<exists>h c. hub_step\<^sup>*\<^sup>* NewHub h \<and> conns h 0 = Some c \<and> length (send_buf c) \<le> 256 \<and> \<not> panicked h"
proof -
  let ?h = "hub_register 0 NewHub"
  have run: "hub_step\<^sup>*\<^sup>* NewHub ?h"
    by (rule r_into_rtranclp, rule hub_step.connect) (simp_all add: NewHub_def)
  have "conns ?h 0 = Some new_client" by (simp add: hub_register_def)
  with run hub_never_panics [OF run] show ?thesis by blast
qed

section \<open>Broadcast as one operation\<close>

text \<open>
  \<open>Broadcast\<close> called while no other broadcast runs: every member with room in its queue gets the
  frame once, the others keep what they have.  This is what the steps of one broadcast add up to,
  in whatever order they visit the clients.
\<close>

definition deliver_to :: "gov \<Rightarrow> nat set \<Rightarrow> hub \<Rightarrow> hub" where
  "deliver_to frame ms h = h\<lparr>conns := (\<lambda>i. case conns h i of
       None \<Rightarrow> None
     | Some c \<Rightarrow> Some (if i \<in> ms \<and> length (send_buf c) < 256
                     then c\<lparr>send_buf := send_buf c @ [frame]\<rparr> else c))\<rparr>"

definition Broadcast :: "bytes \<Rightarrow> gov \<Rightarrow> hub \<Rightarrow> hub" where
  "Broadcast event payload h =
     (case marshalFrame event payload of
        Inl _ \<Rightarrow> h
      | Inr frame \<Rightarrow> deliver_to frame (members h) h)"

lemma deliver_to_insert:
  assumes "hub_inv h" "i \<in> members h" "i \<notin> ms"
  shows "deliver_to frame ms (try_send frame i h) = deliver_to frame (insert i ms) h"
proof -
  obtain c where c: "conns h i = Some c" "\<not> send_closed c"
    using hub_inv_member [OF assms(1,2)] by blast
  show ?thesis
    using c assms(3) by (auto simp: deliver_to_def try_send_def fun_eq_iff split: option.splits)
qed

lemma deliver_to_frame [simp]:
  "members (deliver_to f ms h) = members h" "broadcasts (deliver_to f ms h) = broadcasts h"
  by (simp_all add: deliver_to_def)

lemma deliver_steps:
  assumes "finite ms" "hub_inv h" "broadcasts h = [(frame, ms)]" "ms \<subseteq> members h"
  shows "hub_step\<^sup>*\<^sup>* h ((deliver_to frame ms h)\<lparr>broadcasts := [(frame, {})]\<rparr>)"
  using assms
proof (induction ms arbitrary: h)
  case empty
  then have "(deliver_to frame {} h)\<lparr>broadcasts := [(frame, {})]\<rparr> = h"
    by (auto simp: deliver_to_def fun_eq_iff split: option.splits)
  then show ?case by simp
next
  case (insert i ms)
  let ?h = "h\<lparr>broadcasts := [(frame, ms)]\<rparr>"
  let ?h1 = "try_send frame i ?h"
  have step: "hub_step h ?h1"
    using hub_step.deliver [of 0 h frame "insert i ms" i] insert.prems insert.hyps by simp
  have inv: "hub_inv ?h"
    using insert.prems by (auto simp: hub_inv_def)
  have "hub_step\<^sup>*\<^sup>* ?h1 ((deliver_to frame ms ?h1)\<lparr>broadcasts := [(frame, {})]\<rparr>)"
    using insert.prems by (intro insert.IH hub_step_inv [OF step]) simp_all
  moreover have "deliver_to frame ms ?h1 = deliver_to frame (insert i ms) ?h"
    using insert.prems insert.hyps by (intro deliver_to_insert inv) simp_all
  moreover have "(deliver_to frame (insert i ms) ?h)\<lparr>broadcasts := [(frame, {})]\<rparr>
      = (deliver_to frame (insert i ms) h)\<lparr>broadcasts := [(frame, {})]\<rparr>"
    by (simp add: deliver_to_def)
  ultimately show ?case
    using step by (simp add: converse_rtranclp_into_rtranclp)
qed

text \<open>
  C29. In every reachable state in which no broadcast runs, a broadcast that runs alone ends, by steps
  of the hub, in the state \<open>Broadcast\<close> computes: each connected client with a free place gets the
  frame once, at the end of its queue; full queues lose it, and nobody else is touched.
\<close>
theorem broadcast_refines:
  assumes "hub_step\<^sup>*\<^sup>* NewHub h" "broadcasts h = []" "marshalFrame event payload = Inr frame"
  shows "hub_step\<^sup>*\<^sup>* h (Broadcast event payload h)
    \<and> (\<forall>i c. conns h i = Some c \<longrightarrow> conns (Broadcast event payload h) i
        = Some (if i \<in> members h \<and> length (send_buf c) < 256
                then c\<lparr>send_buf := send_buf c @ [frame]\<rparr> else c))"
proof -
  have inv: "hub_inv h"
    using assms(1) by (induction rule: rtranclp_induct) (auto intro: hub_inv_New hub_step_inv)
  let ?h = "h\<lparr>broadcasts := [(frame, members h)]\<rparr>"
  let ?d = "(deliver_to frame (members h) h)"
  have start: "hub_step h ?h"
    using hub_step.broadcast [of h frame] assms(2) by simp
  have same: "(deliver_to frame (members h) ?h)\<lparr>broadcasts := [(frame, {})]\<rparr>
      = ?d\<lparr>broadcasts := [(frame, {})]\<rparr>"
    by (simp add: deliver_to_def)
  have "finite (members h)" using inv by (simp add: hub_inv_def)
  then have "hub_step\<^sup>*\<^sup>* ?h (?d\<lparr>broadcasts := [(frame, {})]\<rparr>)"
    using deliver_steps [of "members h" ?h frame] hub_step_inv [OF start inv] unfolding same by simp
  with start have "hub_step\<^sup>*\<^sup>* h (?d\<lparr>broadcasts := [(frame, {})]\<rparr>)"
    by (rule converse_rtranclp_into_rtranclp)
  moreover have "?d\<lparr>broadcasts := []\<rparr> = ?d"
    using assms(2) by (cases h) (simp add: deliver_to_def)
  then have "hub_step (?d\<lparr>broadcasts := [(frame, {})]\<rparr>) ?d"
    using hub_step.finish [of "?d\<lparr>broadcasts := [(frame, {})]\<rparr>" "[]" frame "[]"] by simp
  ultimately have "hub_step\<^sup>*\<^sup>* h ?d"
    by (rule rtranclp.rtrancl_into_rtrancl)
  then show ?thesis by (simp add: Broadcast_def assms(3) deliver_to_def)
qed

theorem broadcast_refines_witness:
  "hub_step\<^sup>*\<^sup>* (hub_register 0 NewHub) (Broadcast ''hi'' JNull (hub_register 0 NewHub))"
proof -
  have run: "hub_step\<^sup>*\<^sup>* NewHub (hub_register 0 NewHub)"
    by (rule r_into_rtranclp, rule hub_step.connect) (simp_all add: NewHub_def)
  have "broadcasts (hub_register 0 NewHub) = []"
    by (simp add: hub_register_def NewHub_def)
  moreover have "marshalFrame ''hi'' JNull = Inr (JObj [(''event'', JStr ''hi''), (''payload'', JNull)])"
    by (simp add: marshalFrame_def)
  ultimately show ?thesis using broadcast_refines [OF run] by blast
qed

end
