(* ===== verification/Jobs.thy ===== *)
theory Jobs
  imports Http "HOL-Library.Multiset"
begin

text \<open>
  The job queue, \<open>server/internal/core/queue/queue.go\<close>, and its one worker,
  \<open>server/internal/core/workers/email_worker.go\<close>.  The broker is AMQP 0-9-1 as the code uses it:
  one durable queue, deliveries that stay unacknowledged until they are acked (gone), nacked with
  requeue (back in the queue) or nacked without (dropped), and go back to the queue when the
  channel closes.  JSON text is produced and read by the parameters \<open>marshal\<close> and \<open>decode\<close>.
\<close>

section \<open>Jobs and deliveries\<close>

definition EmailQueue :: bytes where
  "EmailQueue = ''email_jobs''"

record WelcomeEmailJob =
  wj_UserID :: bytes
  wj_Email :: bytes

definition job_gov :: "WelcomeEmailJob \<Rightarrow> gov" where
  "job_gov j = JObj [(''user_id'', JStr (wj_UserID j)), (''email'', JStr (wj_Email j))]"

text \<open>The handler of a job: an error text, or success.\<close>

type_synonym job_handler = "WelcomeEmailJob \<Rightarrow> bytes option"

definition WelcomeEmailHandler :: job_handler where
  "WelcomeEmailHandler job = None"

datatype disposition = Ack | Nack bool

definition processWithRetry ::
  "(bytes \<Rightarrow> WelcomeEmailJob fallible) \<Rightarrow> job_handler \<Rightarrow> bytes \<Rightarrow> disposition" where
  "processWithRetry decode handler body =
     (case decode body of
        Inl _ \<Rightarrow> Nack False
      | Inr job \<Rightarrow> (case handler job of Some _ \<Rightarrow> Nack True | None \<Rightarrow> Ack))"

section \<open>The manager\<close>

record ManagerConfig =
  m_URL :: bytes
  m_DefaultAttempts :: int
  m_DefaultBackoff :: int

record amqp_handles =
  conn_open :: bool
  chan_open :: bool

text \<open>
  \<open>New\<close> with the outcomes of the three calls to the library; the second component is what is left
  open.
\<close>

definition declareQueues :: "(bytes \<Rightarrow> bytes option) \<Rightarrow> bytes option" where
  "declareQueues declare =
     (case declare EmailQueue of
        Some err \<Rightarrow> Some (''[QUEUE] failed to declare queue '' @ [CHR 0x22] @ EmailQueue @ [CHR 0x22]
                       @ '': '' @ err)
      | None \<Rightarrow> None)"

definition Close :: "amqp_handles \<Rightarrow> amqp_handles" where
  "Close h = h\<lparr>conn_open := False, chan_open := False\<rparr>"

definition NewManager ::
  "(bytes \<Rightarrow> bytes option) \<Rightarrow> bytes option \<Rightarrow> (bytes \<Rightarrow> bytes option) \<Rightarrow> ManagerConfig
    \<Rightarrow> ManagerConfig fallible \<times> amqp_handles" where
  "NewManager dial chan_err declare cfg =
     (let h = \<lparr>conn_open = False, chan_open = False\<rparr>
      in case dial (m_URL cfg) of
           Some err \<Rightarrow> (Inl (''[QUEUE] failed to connect to RabbitMQ: '' @ err), h)
         | None \<Rightarrow>
             let h = h\<lparr>conn_open := True\<rparr>
             in case chan_err of
                  Some err \<Rightarrow> (Inl (''[QUEUE] failed to open channel: '' @ err), h\<lparr>conn_open := False\<rparr>)
                | None \<Rightarrow>
                    let h = h\<lparr>chan_open := True\<rparr>
                    in (case declareQueues declare of
                          Some err \<Rightarrow> (Inl err, Close h)
                        | None \<Rightarrow> (Inr cfg, h)))"

text \<open>A manager that could not be made leaves nothing open, one that was made has both handles.\<close>

lemma NewManager_handles:
  "conn_open (snd (NewManager dial chan_err declare cfg)) \<longleftrightarrow> fst (NewManager dial chan_err declare cfg) = Inr cfg"
  "chan_open (snd (NewManager dial chan_err declare cfg)) \<longleftrightarrow> fst (NewManager dial chan_err declare cfg) = Inr cfg"
  "fst (NewManager dial chan_err declare cfg) = Inr m \<Longrightarrow> m = cfg"
  by (auto simp: NewManager_def Close_def Let_def split: option.splits)

section \<open>The broker and the workers\<close>

text \<open>
  One consumer is registered, without a limit on its unacknowledged deliveries, so the broker sends
  whatever is waiting; \<open>inbox\<close> is the Go channel of deliveries that the workers share.  When the channel
  to the broker is lost, every unacknowledged job goes back to the queue, and the Go channel is closed
  with what the library had still buffered handed out or not.  Nothing connects again.
\<close>

datatype worker = Idle | Busy nat bytes | Stopped

datatype channel = NoConsumer | Consuming | ChannelClosed

record broker =
  ready :: "bytes list"
  unacked :: "(nat \<times> bytes) list"
  next_tag :: nat
  acked :: "bytes list"
  dropped :: "bytes list"
  published :: "bytes list"
  chan :: channel
  inbox :: "(nat \<times> bytes) list"
  workers :: "worker list"

definition new_broker :: broker where
  "new_broker = \<lparr>ready = [], unacked = [], next_tag = 0, acked = [], dropped = [], published = [],
     chan = NoConsumer, inbox = [], workers = []\<rparr>"

text \<open>
  \<open>Publish\<close>: a call that returns no error has put the job into the queue.  The code does not ask for
  confirms, so a real broker that fails at that moment may still lose it.
\<close>

definition Publish ::
  "(gov \<Rightarrow> bytes fallible) \<Rightarrow> bytes option \<Rightarrow> gov \<Rightarrow> broker \<Rightarrow> bytes option \<times> broker" where
  "Publish marshal fault payload b =
     (case marshal payload of
        Inl err \<Rightarrow> (Some (''[QUEUE] failed to marshal payload: '' @ err), b)
      | Inr body \<Rightarrow>
          (case fault of
             Some err \<Rightarrow> (Some err, b)
           | None \<Rightarrow> (None, b\<lparr>ready := ready b @ [body], published := published b @ [body]\<rparr>)))"

text \<open>\<open>ConsumeWelcomeEmails\<close>: the consumer and its goroutines.\<close>

definition ConsumeWelcomeEmails :: "nat \<Rightarrow> broker \<Rightarrow> broker" where
  "ConsumeWelcomeEmails concurrency b =
     b\<lparr>chan := Consuming, workers := workers b @ replicate concurrency Idle\<rparr>"

text \<open>The broker sends the next job, a worker takes the next delivery.\<close>

definition deliver_next :: "broker \<Rightarrow> broker" where
  "deliver_next b =
     (case ready b of
        [] \<Rightarrow> b
      | body # rest \<Rightarrow> b\<lparr>ready := rest, unacked := unacked b @ [(next_tag b, body)],
                       inbox := inbox b @ [(next_tag b, body)], next_tag := next_tag b + 1\<rparr>)"

definition receive_msg :: "nat \<Rightarrow> broker \<Rightarrow> broker" where
  "receive_msg i b =
     (case inbox b of
        [] \<Rightarrow> b
      | (tag, body) # rest \<Rightarrow> b\<lparr>inbox := rest, workers := (workers b)[i := Busy tag body]\<rparr>)"

text \<open>The delivery with a tag, where it is still unacknowledged on this channel.\<close>

definition take_unacked :: "nat \<Rightarrow> broker \<Rightarrow> (bytes \<times> broker) option" where
  "take_unacked tag b =
     (case map_of (unacked b) tag of
        None \<Rightarrow> None
      | Some body \<Rightarrow> Some (body, b\<lparr>unacked := filter (\<lambda>(t, _). t \<noteq> tag) (unacked b)\<rparr>))"

text \<open>A job that is requeued goes back to a place \<open>p\<close> of the queue that the broker chooses.\<close>

definition settle :: "nat \<Rightarrow> disposition \<Rightarrow> nat \<Rightarrow> broker \<Rightarrow> broker" where
  "settle p d tag b =
     (case take_unacked tag b of
        None \<Rightarrow> b
      | Some (body, b) \<Rightarrow>
          (case d of
             Ack \<Rightarrow> b\<lparr>acked := acked b @ [body]\<rparr>
           | Nack True \<Rightarrow> b\<lparr>ready := take p (ready b) @ body # drop p (ready b)\<rparr>
           | Nack False \<Rightarrow> b\<lparr>dropped := dropped b @ [body]\<rparr>))"

text \<open>
  The system: publishing, starting the consumer, a delivery, a worker taking one, finishing it, or
  stopping (context cancelled, Go channel closed), and the loss of the channel.
\<close>

inductive job_step ::
  "(bytes \<Rightarrow> WelcomeEmailJob fallible) \<Rightarrow> job_handler \<Rightarrow> broker \<Rightarrow> broker \<Rightarrow> bool"
  for decode handler where
  publish: "Publish marshal fault payload b = (err, b') \<Longrightarrow> job_step decode handler b b'"
| consume: "chan b = NoConsumer \<Longrightarrow> job_step decode handler b (ConsumeWelcomeEmails concurrency b)"
| deliver: "chan b = Consuming \<Longrightarrow> ready b \<noteq> [] \<Longrightarrow> job_step decode handler b (deliver_next b)"
| receive: "i < length (workers b) \<Longrightarrow> workers b ! i = Idle \<Longrightarrow> inbox b \<noteq> [] \<Longrightarrow>
    job_step decode handler b (receive_msg i b)"
| process: "i < length (workers b) \<Longrightarrow> workers b ! i = Busy tag body \<Longrightarrow>
    job_step decode handler b
      (settle p (processWithRetry decode handler body) tag (b\<lparr>workers := (workers b)[i := Idle]\<rparr>))"
| stop: "i < length (workers b) \<Longrightarrow> workers b ! i = Idle \<Longrightarrow>
    job_step decode handler b (b\<lparr>workers := (workers b)[i := Stopped]\<rparr>)"
| channel_lost: "mset requeued = mset (map snd (unacked b)) + mset (ready b) \<Longrightarrow>
    job_step decode handler b
      (b\<lparr>chan := ChannelClosed, ready := requeued, unacked := [], inbox := take k (inbox b)\<rparr>)"

inductive_cases job_stepE: "job_step decode handler b b'"

section \<open>No job is lost or invented\<close>

text \<open>The deliveries on this side of the channel: buffered, or at a worker.\<close>

definition holding :: "broker \<Rightarrow> (nat \<times> bytes) set" where
  "holding b = set (inbox b) \<union> {(tag, body). Busy tag body \<in> set (workers b)}"

definition conserved :: "(bytes \<Rightarrow> WelcomeEmailJob fallible) \<Rightarrow> job_handler \<Rightarrow> broker \<Rightarrow> bool" where
  "conserved decode handler b \<longleftrightarrow>
     mset (published b) = mset (ready b) + mset (map snd (unacked b)) + mset (acked b) + mset (dropped b)
     \<and> distinct (map fst (unacked b)) \<and> (\<forall>(t, _) \<in> set (unacked b). t < next_tag b)
     \<and> (\<forall>x \<in> holding b. fst x < next_tag b \<and> (\<forall>body. (fst x, body) \<in> set (unacked b) \<longrightarrow> body = snd x))
     \<and> (\<forall>body \<in> set (acked b). processWithRetry decode handler body = Ack)
     \<and> (\<forall>body \<in> set (dropped b). is_err (decode body))"

lemma conserved_new: "conserved decode handler new_broker"
  by (simp add: conserved_def holding_def new_broker_def)

lemma filter_tag:
  assumes "distinct (map fst xs)" "map_of xs tag = Some body"
  shows "mset (map snd xs) = add_mset body (mset (map snd (filter (\<lambda>(t, _). t \<noteq> tag) xs)))"
  using assms
proof (induction xs)
  case (Cons x xs)
  obtain t b where x: "x = (t, b)" by fastforce
  have "t = tag \<Longrightarrow> filter (\<lambda>(t, _). t \<noteq> tag) xs = xs"
    using Cons.prems(1) x by (intro filter_True) force
  with Cons x show ?case by auto
qed simp

lemma settle_cases:
  obtains (stale) "map_of (unacked b) tag = None" "settle p d tag b = b"
  | (live) body where "map_of (unacked b) tag = Some body" "settle p d tag b =
      (let b' = b\<lparr>unacked := filter (\<lambda>(t, _). t \<noteq> tag) (unacked b)\<rparr> in
       case d of Ack \<Rightarrow> b'\<lparr>acked := acked b @ [body]\<rparr>
       | Nack True \<Rightarrow> b'\<lparr>ready := take p (ready b) @ body # drop p (ready b)\<rparr>
       | Nack False \<Rightarrow> b'\<lparr>dropped := dropped b @ [body]\<rparr>)"
  by (cases "map_of (unacked b) tag")
    (simp_all add: settle_def take_unacked_def Let_def split: disposition.splits bool.splits)

lemma processWithRetry_Nack_False:
  "processWithRetry decode handler body = Nack False \<longleftrightarrow> is_err (decode body)"
  by (auto simp: processWithRetry_def split: sum.splits option.splits)

lemma processWithRetry_Ack:
  "processWithRetry decode handler body = Ack \<longleftrightarrow> (\<exists>job. decode body = Inr job \<and> handler job = None)"
  by (auto simp: processWithRetry_def split: sum.splits option.splits)

lemma set_list_update_Busy:
  "Busy tag body \<in> set (ws[i := w]) \<Longrightarrow> Busy tag body \<in> set ws \<or> Busy tag body = w"
  using set_update_subset_insert [of ws i w] by auto

lemma mset_take_drop [simp]: "mset (take p xs) + mset (drop p xs) = mset xs"
  by (metis append_take_drop_id mset_append)

lemma holding_idle: "w \<in> {Idle, Stopped} \<Longrightarrow> holding (b\<lparr>workers := (workers b)[i := w]\<rparr>) \<subseteq> holding b"
  by (auto simp: holding_def dest!: set_list_update_Busy)

lemma conserved_less:
  assumes "conserved decode handler b" "holding b' \<subseteq> holding b"
    "ready b' = ready b" "unacked b' = unacked b" "next_tag b' = next_tag b" "acked b' = acked b"
    "dropped b' = dropped b" "published b' = published b"
  shows "conserved decode handler b'"
  using assms unfolding conserved_def by (auto simp: subset_iff)

lemma conserved_idle:
  assumes "conserved decode handler b" "w \<in> {Idle, Stopped}"
  shows "conserved decode handler (b\<lparr>workers := (workers b)[i := w]\<rparr>)"
  by (rule conserved_less [OF assms(1) holding_idle [OF assms(2)]]) simp_all

lemma settle_else [simp]:
  "workers (settle p d tag b) = workers b" "inbox (settle p d tag b) = inbox b"
  "chan (settle p d tag b) = chan b" "published (settle p d tag b) = published b"
  "next_tag (settle p d tag b) = next_tag b" "holding (settle p d tag b) = holding b"
  by (simp_all add: settle_def take_unacked_def holding_def split: option.split disposition.split bool.split)

lemma conserved_settle:
  assumes inv: "conserved decode handler b"
    and body: "\<And>body'. (tag, body') \<in> set (unacked b) \<Longrightarrow> body' = body"
  shows "conserved decode handler (settle p (processWithRetry decode handler body) tag b)"
proof (cases rule: settle_cases [of b tag p "processWithRetry decode handler body"])
  case stale
  with inv show ?thesis by simp
next
  case (live body')
  then have "body' = body" using body by (auto dest: map_of_SomeD)
  with live have live': "map_of (unacked b) tag = Some body" by simp
  let ?un = "filter (\<lambda>(t, _). t \<noteq> tag) (unacked b)"
  have "distinct (map fst (unacked b))" using inv by (simp add: conserved_def)
  note split = filter_tag [OF this live']
  have un: "distinct (map fst ?un)" "set ?un \<subseteq> set (unacked b)"
    using inv by (auto simp: conserved_def distinct_map_filter)
  let ?d = "processWithRetry decode handler body" and ?b' = "settle p (processWithRetry decode handler body) tag b"
  have un': "unacked ?b' = ?un"
    using live(2) by (auto simp: Let_def split: disposition.split bool.split)
  have tags: "\<forall>x \<in> holding ?b'. fst x < next_tag ?b' \<and> (\<forall>body. (fst x, body) \<in> set (unacked ?b') \<longrightarrow> body = snd x)"
    "\<forall>(t, _) \<in> set (unacked ?b'). t < next_tag ?b'" "distinct (map fst (unacked ?b'))"
    using inv un unfolding conserved_def un' settle_else by fastforce+
  consider "?d = Ack" | "?d = Nack True" | "?d = Nack False"
    by (metis (full_types) disposition.exhaust)
  then have "mset (published ?b') = mset (ready ?b') + mset (map snd (unacked ?b')) + mset (acked ?b') + mset (dropped ?b')
      \<and> (\<forall>body \<in> set (acked ?b'). processWithRetry decode handler body = Ack)
      \<and> (\<forall>body \<in> set (dropped ?b'). is_err (decode body))"
    using inv split live(2) \<open>body' = body\<close> processWithRetry_Nack_False [of decode handler body]
    unfolding conserved_def settle_else un'
    by cases (auto simp: Let_def)
  with tags show ?thesis by (simp add: conserved_def)
qed

lemma holding_deliver: "ready b = body # rest \<Longrightarrow> holding (deliver_next b) = insert (next_tag b, body) (holding b)"
  by (auto simp: deliver_next_def holding_def)

lemma conserved_deliver:
  assumes inv: "conserved decode handler b"
  shows "conserved decode handler (deliver_next b)"
proof (cases "ready b")
  case (Cons body rest)
  have "\<forall>(t, _) \<in> set (unacked b). t < next_tag b" "\<forall>x \<in> holding b. fst x < next_tag b"
    using inv by (auto simp: conserved_def)
  then have "next_tag b \<notin> fst ` set (unacked b)" "next_tag b \<notin> fst ` holding b" by auto
  with inv Cons show ?thesis
    unfolding conserved_def holding_deliver [OF Cons] by (fastforce simp: deliver_next_def)
qed (use inv in \<open>simp add: deliver_next_def\<close>)

lemma holding_receive: "i < length (workers b) \<Longrightarrow> workers b ! i = Idle \<Longrightarrow> holding (receive_msg i b) = holding b"
proof -
  assume i: "i < length (workers b)" "workers b ! i = Idle"
  have "Busy t x \<in> set ((workers b)[i := Busy tag body]) \<longleftrightarrow> Busy t x \<in> set (workers b) \<or> Busy t x = Busy tag body"
    for t x tag body
  proof
    assume "Busy t x \<in> set (workers b) \<or> Busy t x = Busy tag body"
    then show "Busy t x \<in> set ((workers b)[i := Busy tag body])"
      using i by (metis in_set_conv_nth length_list_update nth_list_update worker.distinct(1))
  qed (auto dest!: set_list_update_Busy)
  then show ?thesis by (auto simp: holding_def receive_msg_def split: list.split)
qed

lemma receive_else [simp]:
  "ready (receive_msg i b) = ready b" "unacked (receive_msg i b) = unacked b" "next_tag (receive_msg i b) = next_tag b"
  "acked (receive_msg i b) = acked b" "dropped (receive_msg i b) = dropped b" "published (receive_msg i b) = published b"
  "chan (receive_msg i b) = chan b"
  by (simp_all add: receive_msg_def split: list.split)

lemma deliver_else [simp]:
  "published (deliver_next b) = published b" "chan (deliver_next b) = chan b" "workers (deliver_next b) = workers b"
  "acked (deliver_next b) = acked b" "dropped (deliver_next b) = dropped b"
  by (simp_all add: deliver_next_def split: list.split)

lemma holding_Publish: "holding (snd (Publish marshal fault payload b)) = holding b"
  by (simp add: Publish_def holding_def split: sum.split option.split)

lemma job_step_conserved:
  assumes "job_step decode handler b b'" "conserved decode handler b"
  shows "conserved decode handler b'"
  using assms
proof (induction rule: job_step.induct)
  case (publish marshal fault payload b err b')
  then show ?case
    using holding_Publish [of marshal fault payload b]
    by (auto simp: Publish_def conserved_def split: sum.splits option.splits)
next
  case (consume b concurrency)
  then show ?case by (intro conserved_less [OF consume(2)]) (auto simp: ConsumeWelcomeEmails_def holding_def)
next
  case (deliver b)
  then show ?case by (intro conserved_deliver)
next
  case (receive i b)
  then show ?case by (intro conserved_less [OF receive(4)]) (simp_all add: holding_receive)
next
  case (process i b tag body p)
  have "(tag, body) \<in> holding b"
    using process(1,2) by (simp add: holding_def) (metis nth_mem)
  with process(3) have "\<And>body'. (tag, body') \<in> set (unacked b) \<Longrightarrow> body' = body"
    by (auto simp: conserved_def)
  with process(3) show ?case by (intro conserved_settle conserved_idle) simp_all
next
  case (stop i b)
  then show ?case by (intro conserved_idle) simp_all
next
  case (channel_lost requeued b k)
  then show ?case by (auto simp: conserved_def holding_def dest: in_set_takeD)
qed

text \<open>A delivery that is not acknowledged is buffered or at a worker.\<close>

definition held :: "broker \<Rightarrow> bool" where
  "held b \<longleftrightarrow> set (unacked b) \<subseteq> holding b"

lemma set_update_other: "x \<in> set xs \<Longrightarrow> xs ! i \<noteq> x \<Longrightarrow> x \<in> set (xs[i := y])"
  by (metis in_set_conv_nth length_list_update nth_list_update_neq)

lemma held_settle:
  assumes "held b" "workers b ! i = Busy tag body"
  shows "held (settle p d tag (b\<lparr>workers := (workers b)[i := Idle]\<rparr>))"
proof -
  let ?b = "b\<lparr>workers := (workers b)[i := Idle]\<rparr>"
  have "(t, body') \<in> holding ?b" if "(t, body') \<in> set (unacked b)" "t \<noteq> tag" for t body'
    using that assms by (fastforce simp: held_def holding_def intro!: set_update_other)
  moreover have "t \<noteq> tag" if "map_of (unacked b) tag = None" "(t, body') \<in> set (unacked b)" for t body'
    using that by (auto simp: map_of_eq_None_iff image_iff)
  moreover have "unacked (settle p d tag ?b) = (if map_of (unacked b) tag = None then unacked b
      else filter (\<lambda>(t, _). t \<noteq> tag) (unacked b))"
    by (cases rule: settle_cases [of ?b tag p d]) (auto simp: Let_def split: disposition.split bool.split)
  ultimately show ?thesis by (auto simp: held_def)
qed

lemma job_step_held: "job_step decode handler b b' \<Longrightarrow> held b \<Longrightarrow> held b'"
proof (induction rule: job_step.induct)
  case (publish marshal fault payload b err b')
  then show ?case by (auto simp: Publish_def held_def holding_def split: sum.splits option.splits)
next
  case (consume b concurrency)
  then show ?case by (auto simp: held_def holding_def ConsumeWelcomeEmails_def)
next
  case (deliver b)
  then obtain body rest where r: "ready b = body # rest" by (cases "ready b") auto
  with deliver(3) show ?case unfolding held_def holding_deliver [OF r] by (auto simp: deliver_next_def)
next
  case (receive i b)
  then show ?case by (simp add: held_def holding_receive)
next
  case (process i b tag body p)
  then show ?case by (intro held_settle)
next
  case (stop i b)
  then show ?case by (fastforce simp: held_def holding_def intro!: set_update_other)
qed (auto simp: held_def)

definition job_inv :: "(bytes \<Rightarrow> WelcomeEmailJob fallible) \<Rightarrow> job_handler \<Rightarrow> broker \<Rightarrow> bool" where
  "job_inv decode handler b \<longleftrightarrow> conserved decode handler b \<and> held b"

lemma job_inv_new: "job_inv decode handler new_broker"
  using conserved_new by (simp add: job_inv_def held_def new_broker_def)

lemma job_step_inv: "job_step decode handler b b' \<Longrightarrow> job_inv decode handler b \<Longrightarrow> job_inv decode handler b'"
  by (simp add: job_inv_def job_step_conserved job_step_held)

text \<open>
  C13. However publishers, workers and connection losses interleave, every published job is in exactly
  one place, waiting, delivered and not acknowledged (on its way to a worker or at one), acknowledged
  or dropped, as often as it was published, that is, taken by the broker; what was acknowledged was read and handled without an error, and what was dropped could not be read.
\<close>
theorem jobs_conserved:
  assumes "(job_step decode handler)\<^sup>*\<^sup>* new_broker b"
  shows "mset (published b)
      = mset (ready b) + mset (map snd (unacked b)) + mset (acked b) + mset (dropped b)
    \<and> (\<forall>body \<in> set (acked b). \<exists>job. decode body = Inr job \<and> handler job = None)
    \<and> (\<forall>body \<in> set (dropped b). is_err (decode body))"
proof -
  have "job_inv decode handler b"
    using assms by (induction rule: rtranclp_induct) (auto intro: job_inv_new job_step_inv)
  then show ?thesis
    by (simp add: job_inv_def conserved_def processWithRetry_Ack)
qed

definition raw_decode :: "bytes \<Rightarrow> WelcomeEmailJob fallible" where
  "raw_decode body = (if body = [] then Inl ''unexpected end of JSON input''
     else Inr \<lparr>wj_UserID = body, wj_Email = body\<rparr>)"

theorem jobs_conserved_witness:
  "\<exists>b. (job_step raw_decode WelcomeEmailHandler)\<^sup>*\<^sup>* new_broker b \<and> published b = [''job'']
     \<and> mset (published b)
        = mset (ready b) + mset (map snd (unacked b)) + mset (acked b) + mset (dropped b)"
proof -
  let ?b = "new_broker\<lparr>ready := [''job''], published := [''job'']\<rparr>"
  have "Publish (\<lambda>_. Inr ''job'') None JNull new_broker = (None, ?b)"
    by (simp add: Publish_def new_broker_def)
  then have run: "(job_step raw_decode WelcomeEmailHandler)\<^sup>*\<^sup>* new_broker ?b"
    by (intro r_into_rtranclp job_step.publish)
  moreover have "published ?b = [''job'']" by simp
  ultimately show ?thesis using jobs_conserved [OF run] by blast
qed

section \<open>Jobs that keep failing\<close>

text \<open>
  One worker alone on an open channel where every waiting job has been delivered: it takes the next
  delivery and processes it, and what it requeues is delivered again, behind the others.
\<close>

definition worker_round ::
  "(bytes \<Rightarrow> WelcomeEmailJob fallible) \<Rightarrow> job_handler \<Rightarrow> nat \<Rightarrow> broker \<Rightarrow> broker" where
  "worker_round decode handler i b =
     (case inbox b of
        [] \<Rightarrow> b
      | (tag, body) # _ \<Rightarrow>
          let b = receive_msg i b
          in deliver_next (settle 0 (processWithRetry decode handler body) tag (b\<lparr>workers := (workers b)[i := Idle]\<rparr>)))"

definition streaming :: "nat \<Rightarrow> broker \<Rightarrow> bool" where
  "streaming i b \<longleftrightarrow> chan b = Consuming \<and> i < length (workers b) \<and> workers b ! i = Idle \<and> ready b = []
     \<and> unacked b = inbox b \<and> distinct (map fst (inbox b)) \<and> (\<forall>t \<in> fst ` set (inbox b). t < next_tag b)"

definition job_fails :: "(bytes \<Rightarrow> WelcomeEmailJob fallible) \<Rightarrow> job_handler \<Rightarrow> bytes \<Rightarrow> bool" where
  "job_fails decode handler body = (case decode body of Inl _ \<Rightarrow> False | Inr job \<Rightarrow> handler job \<noteq> None)"

definition job_succeeds :: "(bytes \<Rightarrow> WelcomeEmailJob fallible) \<Rightarrow> job_handler \<Rightarrow> bytes \<Rightarrow> bool" where
  "job_succeeds decode handler body = (case decode body of Inl _ \<Rightarrow> False | Inr job \<Rightarrow> handler job = None)"

lemma processWithRetry_outcome:
  "processWithRetry decode handler body =
     (if job_fails decode handler body then Nack True
      else if job_succeeds decode handler body then Ack else Nack False)"
  "job_fails decode handler body \<Longrightarrow> \<not> job_succeeds decode handler body"
  "is_err (decode body) \<longleftrightarrow> \<not> job_fails decode handler body \<and> \<not> job_succeeds decode handler body"
  by (auto simp: processWithRetry_def job_fails_def job_succeeds_def split: sum.split option.split)

lemma worker_round_streaming:
  fixes decode handler
  assumes "streaming i b" "inbox b = (tag, body) # rest"
  defines "b' \<equiv> worker_round decode handler i b"
  shows "streaming i b'"
    "map snd (inbox b') = map snd rest @ (if job_fails decode handler body then [body] else [])"
    "acked b' = acked b @ (if job_succeeds decode handler body then [body] else [])"
    "dropped b' = dropped b @ (if is_err (decode body) then [body] else [])"
proof -
  have un: "unacked b = (tag, body) # rest" "ready b = []" "tag < next_tag b" "tag \<notin> fst ` set rest"
    using assms(1,2) by (auto simp: streaming_def)
  then have rest: "filter (\<lambda>(t, _). t \<noteq> tag) rest = rest" by (intro filter_True) force
  have *: "streaming i b' \<and> map snd (inbox b') = map snd rest @ (if job_fails decode handler body then [body] else [])
      \<and> acked b' = acked b @ (if job_succeeds decode handler body then [body] else [])
      \<and> dropped b' = dropped b @ (if is_err (decode body) then [body] else [])"
    using assms(1,2) un rest processWithRetry_outcome [where decode = decode and handler = handler and body = body]
    by (auto simp: b'_def worker_round_def receive_msg_def settle_def take_unacked_def deliver_next_def streaming_def
        Let_def)
  then show "streaming i b'"
    "map snd (inbox b') = map snd rest @ (if job_fails decode handler body then [body] else [])"
    "acked b' = acked b @ (if job_succeeds decode handler body then [body] else [])"
    "dropped b' = dropped b @ (if is_err (decode body) then [body] else [])" by blast+
qed

lemma worker_round_steps:
  assumes "streaming i b"
  shows "(job_step decode handler)\<^sup>*\<^sup>* b (worker_round decode handler i b)"
proof (cases "inbox b")
  case (Cons x rest)
  obtain tag body where x: "x = (tag, body)" by fastforce
  let ?b1 = "receive_msg i b"
  let ?b2 = "settle 0 (processWithRetry decode handler body) tag (?b1\<lparr>workers := (workers ?b1)[i := Idle]\<rparr>)"
  have "job_step decode handler b ?b1"
    using assms Cons by (intro job_step.receive) (simp_all add: streaming_def)
  moreover have "job_step decode handler ?b1 ?b2"
    using assms Cons x by (intro job_step.process) (simp_all add: streaming_def receive_msg_def)
  moreover have "(job_step decode handler)\<^sup>*\<^sup>* ?b2 (deliver_next ?b2)"
    using assms by (cases "ready ?b2 = []")
      (simp add: deliver_next_def, intro r_into_rtranclp job_step.deliver, simp_all add: streaming_def)
  ultimately show ?thesis
    by (simp add: worker_round_def Cons x Let_def converse_rtranclp_into_rtranclp)
qed (simp add: worker_round_def)

lemma worker_round_Nil: "inbox b = [] \<Longrightarrow> worker_round decode handler i b = b"
  by (simp add: worker_round_def)

lemma rounds_steps:
  assumes "streaming i b"
  shows "streaming i ((worker_round decode handler i ^^ n) b)
    \<and> (job_step decode handler)\<^sup>*\<^sup>* b ((worker_round decode handler i ^^ n) b)"
proof (induction n)
  case (Suc n)
  let ?b = "(worker_round decode handler i ^^ n) b"
  have "streaming i (worker_round decode handler i ?b)"
  proof (cases "inbox ?b")
    case Nil
    with Suc show ?thesis by (simp add: worker_round_Nil)
  next
    case (Cons x rest)
    with Suc worker_round_streaming(1) show ?thesis by (cases x) blast
  qed
  with Suc worker_round_steps [of i ?b decode handler] show ?case by (auto intro: rtranclp_trans)
qed (use assms in simp)

text \<open>A pass over the first deliveries: each is processed once, the failing ones end up behind the rest.\<close>

lemma one_pass:
  assumes "streaming i b" "map snd (inbox b) = xs @ ys"
  shows "map snd (inbox ((worker_round decode handler i ^^ length xs) b)) = ys @ filter (job_fails decode handler) xs
    \<and> acked ((worker_round decode handler i ^^ length xs) b) = acked b @ filter (job_succeeds decode handler) xs
    \<and> dropped ((worker_round decode handler i ^^ length xs) b) = dropped b @ filter (\<lambda>x. is_err (decode x)) xs"
  using assms
proof (induction xs arbitrary: b ys)
  case (Cons x xs)
  then obtain tag rest where inbox: "inbox b = (tag, x) # rest" "map snd rest = xs @ ys"
    by (cases "inbox b") auto
  note round = worker_round_streaming [OF Cons.prems(1) inbox(1), of decode handler]
  from Cons.IH [OF round(1), of "ys @ (if job_fails decode handler x then [x] else [])"] inbox(2) round(2-4)
  show ?case by (simp add: funpow_Suc_right del: funpow.simps)
qed simp

text \<open>
  C33. A job whose handler keeps failing is tried again for ever and never given up, whatever
  \<open>default_attempts\<close> and \<open>default_backoff\<close> say, and it does not stop the others.  With one worker, the
  waiting jobs delivered and the broker delivering again at once what is requeued, the first pass
  handles each job once: the jobs that succeed are acknowledged in order, those that cannot be read are
  dropped; after any number of further passes exactly the failing ones are left, each tried once more
  in every pass, without a pause.
\<close>
theorem failing_jobs_go_round:
  assumes "streaming i b"
  shows "let bodies = map snd (inbox b); failing = filter (job_fails decode handler) bodies;
      b' = (worker_round decode handler i ^^ (n * length failing + length bodies)) b
    in (job_step decode handler)\<^sup>*\<^sup>* b b' \<and> map snd (inbox b') = failing \<and> ready b' = []
      \<and> acked b' = acked b @ filter (job_succeeds decode handler) bodies
      \<and> dropped b' = dropped b @ filter (\<lambda>body. is_err (decode body)) bodies"
proof -
  define bodies where "bodies = map snd (inbox b)"
  define b' where
    "b' n = (worker_round decode handler i ^^ (n * length (filter (job_fails decode handler) bodies) + length bodies)) b" for n
  let ?F = "filter (job_fails decode handler) bodies"
  have run: "streaming i (b' n) \<and> (job_step decode handler)\<^sup>*\<^sup>* b (b' n)" for n
    unfolding b'_def by (rule rounds_steps [OF assms(1)])
  have "map snd (inbox (b' n)) = ?F \<and> acked (b' n) = acked b @ filter (job_succeeds decode handler) bodies
    \<and> dropped (b' n) = dropped b @ filter (\<lambda>body. is_err (decode body)) bodies"
  proof (induction n)
    case 0
    from one_pass [OF assms(1), where xs = bodies and ys = "[]" and decode = decode and handler = handler] show ?case by (simp add: b'_def bodies_def)
  next
    case (Suc n)
    have "b' (Suc n) = (worker_round decode handler i ^^ length ?F) (b' n)"
      by (simp add: b'_def funpow_add [symmetric, THEN fun_cong, unfolded o_apply] add.assoc)
    moreover have "filter (job_succeeds decode handler) ?F = []" "filter (\<lambda>body. is_err (decode body)) ?F = []"
      using processWithRetry_outcome(2,3) [where decode = decode and handler = handler] by (auto simp: filter_empty_conv)
    ultimately show ?case
      using one_pass [where b = "b' n" and i = i and xs = ?F and ys = "[]" and decode = decode and handler = handler] run Suc by simp
  qed
  with run [of n] show ?thesis by (simp add: streaming_def Let_def b'_def bodies_def)
qed

definition sample_inbox :: broker where
  "sample_inbox = (let ds = [(0, ''bad''), (1, ''good''), (2, [])]
     in new_broker\<lparr>chan := Consuming, inbox := ds, unacked := ds, next_tag := 3, workers := [Idle]\<rparr>)"

theorem failing_jobs_go_round_witness:
  "acked ((worker_round raw_decode (\<lambda>j. if wj_UserID j = ''bad'' then Some ''smtp'' else None) 0 ^^ 53) sample_inbox) = [''good'']
   \<and> map snd (inbox ((worker_round raw_decode (\<lambda>j. if wj_UserID j = ''bad'' then Some ''smtp'' else None) 0 ^^ 53) sample_inbox))
       = [''bad'']"
proof -
  have "streaming 0 sample_inbox" by (auto simp: streaming_def sample_inbox_def new_broker_def Let_def)
  from failing_jobs_go_round [OF this, of raw_decode "\<lambda>j. if wj_UserID j = ''bad'' then Some ''smtp'' else None" 50]
  show ?thesis
    by (simp add: sample_inbox_def new_broker_def job_fails_def job_succeeds_def raw_decode_def Let_def)
qed

end
