(* ===== verification/Server_Events.thy ===== *)
theory Server_Events
  imports Auth_Properties Realtime Jobs
begin

text \<open>
  The event wiring of \<open>server/server.go\<close>: \<open>setupRealtime\<close> with the subscriptions of
  \<open>realtime.NewHub\<close>, and \<open>setupEventHandlers\<close>.  The listeners work on the state \<open>sys\<close>, the
  application with its hub, the broker, the audit writes that were started as goroutines, and the
  messages logged for failures.
\<close>

section \<open>State and outside\<close>

record sys = app +
  s_hub :: hub
  s_broker :: broker
  s_audit :: "AuditLogPayload list"
  s_log :: "bytes list"

record outside =
  o_encode :: "gov \<Rightarrow> bytes"
  o_publish_fault :: "bytes option"
  o_uuid_scan :: "bytes \<Rightarrow> bytes fallible"
  o_jsonb :: "bytes \<Rightarrow> bytes fallible"
  o_audit_fault :: "bytes option"
  o_audit_uuid :: bytes
  o_audit_now :: int

section \<open>Listeners\<close>

text \<open>The function values subscribed by the server.\<close>

datatype user_fn = HubUserRegistered | EnqueueWelcomeEmail
datatype audit_fn = WriteAuditLog
datatype job_fn = HubJobEnqueued

type_synonym server_bus = "(user_fn, audit_fn, job_fn) Bus"
type_synonym server_code = "(user_fn, audit_fn, job_fn, sys) listener_code"

definition user_payload_gov :: "UserRegisteredPayload \<Rightarrow> gov" where
  "user_payload_gov p = JObj [(''UserID'', JStr (ur_UserID p)), (''Email'', JStr (ur_Email p))]"

definition job_payload_gov :: "JobEnqueuedPayload \<Rightarrow> gov" where
  "job_payload_gov p = JObj [(''Queue'', JStr (je_Queue p)), (''JobName'', JStr (je_JobName p)),
     (''JobID'', JStr (je_JobID p))]"

definition hub_user_registered :: "UserRegisteredPayload \<Rightarrow> sys \<Rightarrow> sys run" where
  "hub_user_registered p w =
     Done (w\<lparr>s_hub := Broadcast ''auth:user-registered'' (user_payload_gov p) (s_hub w)\<rparr>)"

definition hub_job_enqueued :: "JobEnqueuedPayload \<Rightarrow> sys \<Rightarrow> sys run" where
  "hub_job_enqueued p w =
     Done (w\<lparr>s_hub := Broadcast ''queue:job-enqueued'' (job_payload_gov p) (s_hub w)\<rparr>)"

text \<open>\<open>go func() ...\<close>: the emitting handler only starts the write.\<close>

definition start_audit_write :: "AuditLogPayload \<Rightarrow> sys \<Rightarrow> sys run" where
  "start_audit_write p w = Done (w\<lparr>s_audit := s_audit w @ [p]\<rparr>)"

text \<open>
  The listeners of \<open>queue.job.enqueued\<close>, for the emission inside the welcome-email listener; the
  other two kinds of closures fail their type assertion on its payload before they run.
\<close>

definition job_code :: server_code where
  "job_code = \<lparr>run_u = (\<lambda>_ _ w. Panicked w), run_a = (\<lambda>_ _ w. Panicked w),
     run_j = (\<lambda>f p. case f of HubJobEnqueued \<Rightarrow> hub_job_enqueued p)\<rparr>"

text \<open>\<open>json.Marshal\<close> refuses no struct of strings.\<close>

definition enqueue_welcome_email ::
  "outside \<Rightarrow> server_bus \<Rightarrow> UserRegisteredPayload \<Rightarrow> sys \<Rightarrow> sys run" where
  "enqueue_welcome_email out bus p w =
     (let job = \<lparr>wj_UserID = ur_UserID p, wj_Email = ur_Email p\<rparr>;
          (err, b) = Publish (\<lambda>v. Inr (o_encode out v)) (o_publish_fault out) (job_gov job) (s_broker w);
          w = w\<lparr>s_broker := b\<rparr>
      in case err of
           Some e \<Rightarrow> Done (w\<lparr>s_log := s_log w @ [''[EVENTS] Failed to enqueue welcome email'']\<rparr>)
         | None \<Rightarrow> EmitJobEnqueued job_code
             \<lparr>je_Queue = EmailQueue, je_JobName = ''send-welcome-email'',
              je_JobID = ''welcome-email:'' @ ur_UserID p\<rparr> bus w)"

definition server_code :: "outside \<Rightarrow> server_bus \<Rightarrow> server_code" where
  "server_code out bus =
     \<lparr>run_u = (\<lambda>f p. case f of
          HubUserRegistered \<Rightarrow> hub_user_registered p
        | EnqueueWelcomeEmail \<Rightarrow> enqueue_welcome_email out bus p),
      run_a = (\<lambda>f p. case f of WriteAuditLog \<Rightarrow> start_audit_write p),
      run_j = (\<lambda>f p. case f of HubJobEnqueued \<Rightarrow> hub_job_enqueued p)\<rparr>"

text \<open>The goroutine of one audit write; a failure is logged, not retried.\<close>

definition audit_actor :: "(bytes \<Rightarrow> bytes fallible) \<Rightarrow> bytes \<Rightarrow> pg_uuid" where
  "audit_actor scan s =
     (if s = [] then null_uuid
      else case scan s of Inl _ \<Rightarrow> null_uuid | Inr b \<Rightarrow> \<lparr>Bytes = b, Valid = True\<rparr>)"

definition write_audit_log :: "outside \<Rightarrow> AuditLogPayload \<Rightarrow> sys \<Rightarrow> sys" where
  "write_audit_log out p w =
     (case CreateAuditLog (o_audit_fault out) (o_jsonb out) (o_audit_uuid out) (o_audit_now out)
             \<lparr>ca_ActorUserID = audit_actor (o_uuid_scan out) (ap_ActorUserID p),
              ca_Action = ap_Action p, ca_Entity = ap_Entity p, ca_Metadata = ap_Metadata p,
              ca_Ip = Some (ap_IP p), ca_UserAgent = Some (ap_UserAgent p)\<rparr> (database w) of
        (Inl err, d) \<Rightarrow>
          w\<lparr>database := d, s_log := s_log w @ [''[AUDIT] Failed to write audit log'']\<rparr>
      | (Inr _, d) \<Rightarrow> w\<lparr>database := d\<rparr>)"

section \<open>Subscriptions\<close>

definition hub_subscriptions :: "server_bus \<Rightarrow> server_bus" where
  "hub_subscriptions b = OnJobEnqueued HubJobEnqueued (OnUserRegistered HubUserRegistered b)"

definition setupRealtime_bus :: "bool \<Rightarrow> server_bus \<Rightarrow> server_bus" where
  "setupRealtime_bus ws_enabled b = (if \<not> ws_enabled then b else hub_subscriptions b)"

definition setupEventHandlers :: "bool \<Rightarrow> server_bus \<Rightarrow> server_bus" where
  "setupEventHandlers queue_on b =
     (let b = OnAuditLog WriteAuditLog b
      in if \<not> queue_on then b else OnUserRegistered EnqueueWelcomeEmail b)"

definition server_bus :: "bool \<Rightarrow> bool \<Rightarrow> server_bus" where
  "server_bus ws_enabled queue_on =
     setupEventHandlers queue_on (setupRealtime_bus ws_enabled New)"

definition server_emitter :: "outside \<Rightarrow> server_bus \<Rightarrow> sys emitter" where
  "server_emitter out bus =
     \<lparr>emit_registered = (\<lambda>p. EmitUserRegistered (server_code out bus) p bus),
      emit_audit = (\<lambda>p. EmitAuditLog (server_code out bus) p bus)\<rparr>"

section \<open>Lemmas\<close>

lemma server_listeners:
  "bus_listeners (server_bus ws q) ''auth.user.registered''
     = (if ws then [UserRegisteredFn HubUserRegistered] else [])
       @ (if q then [UserRegisteredFn EnqueueWelcomeEmail] else [])"
  "bus_listeners (server_bus ws q) ''audit.log'' = [AuditLogFn WriteAuditLog]"
  "bus_listeners (server_bus ws q) ''queue.job.enqueued''
     = (if ws then [JobEnqueuedFn HubJobEnqueued] else [])"
  by (simp_all add: server_bus_def setupEventHandlers_def setupRealtime_bus_def hub_subscriptions_def
      OnUserRegistered_def OnAuditLog_def OnJobEnqueued_def bus.subscribe_appends bus.fresh_empty Let_def)

lemma server_emit_audit:
  "emit_audit (server_emitter out (server_bus ws q)) p w = Done (w\<lparr>s_audit := s_audit w @ [p]\<rparr>)"
  by (simp add: server_emitter_def EmitAuditLog_def emit_def server_listeners server_code_def
      start_audit_write_def)

lemma call_all_Nil [simp]: "call_all call [] p = Done"
  by (rule ext) simp

text \<open>The effect of a registration event, with both the hub and the queue in place.\<close>

definition welcome_job :: "outside \<Rightarrow> UserRegisteredPayload \<Rightarrow> bytes" where
  "welcome_job out p =
     o_encode out (job_gov \<lparr>wj_UserID = ur_UserID p, wj_Email = ur_Email p\<rparr>)"

definition welcome_event :: "UserRegisteredPayload \<Rightarrow> JobEnqueuedPayload" where
  "welcome_event p = \<lparr>je_Queue = EmailQueue, je_JobName = ''send-welcome-email'',
     je_JobID = ''welcome-email:'' @ ur_UserID p\<rparr>"

lemma enqueue_published:
  "o_publish_fault out = None \<Longrightarrow> enqueue_welcome_email out (server_bus ws q) p w
     = Done ((if ws then \<lambda>w. w\<lparr>s_hub := Broadcast ''queue:job-enqueued''
                (job_payload_gov (welcome_event p)) (s_hub w)\<rparr> else id)
         (w\<lparr>s_broker := (s_broker w)\<lparr>ready := ready (s_broker w) @ [welcome_job out p],
               published := published (s_broker w) @ [welcome_job out p]\<rparr>\<rparr>))"
  by (simp add: enqueue_welcome_email_def Publish_def job_gov_def EmitJobEnqueued_def emit_def
      server_listeners job_code_def hub_job_enqueued_def welcome_job_def welcome_event_def)

lemma enqueue_refused:
  "o_publish_fault out = Some e \<Longrightarrow> enqueue_welcome_email out bus p w
     = Done (w\<lparr>s_log := s_log w @ [''[EVENTS] Failed to enqueue welcome email'']\<rparr>)"
  by (simp add: enqueue_welcome_email_def Publish_def job_gov_def)

lemma enqueue_result:
  "\<exists>w'. enqueue_welcome_email out (server_bus ws q) p w = Done w'
     \<and> database w' = database w \<and> s_audit w' = s_audit w"
  by (cases "o_publish_fault out") (simp_all add: enqueue_published enqueue_refused)

lemma server_emit_registered:
  "\<exists>w'. emit_registered (server_emitter out (server_bus ws q)) p w = Done w'
     \<and> database w' = database w \<and> s_audit w' = s_audit w"
proof -
  let ?w = "if ws then w\<lparr>s_hub := Broadcast ''auth:user-registered'' (user_payload_gov p) (s_hub w)\<rparr> else w"
  have "emit_registered (server_emitter out (server_bus ws q)) p w
      = (if q then enqueue_welcome_email out (server_bus ws q) p ?w else Done ?w)"
    by (cases ws; cases q)
      (simp_all add: server_emitter_def EmitUserRegistered_def emit_def server_listeners server_code_def
        hub_user_registered_def run_bind_Done)
  with enqueue_result [of out ws q p ?w] show ?thesis by (cases q) auto
qed

lemma server_bus_ok: "bus_ok (Some (server_emitter out (server_bus ws q)))"
  unfolding bus_ok_def using server_emit_registered [of out ws q] by (force simp: server_emit_audit)

lemma server_emit_registered_full:
  assumes "o_publish_fault out = None"
  shows "emit_registered (server_emitter out (server_bus True True)) p w
     = Done (w\<lparr>s_hub := Broadcast ''queue:job-enqueued'' (job_payload_gov (welcome_event p))
                 (Broadcast ''auth:user-registered'' (user_payload_gov p) (s_hub w)),
             s_broker := (s_broker w)\<lparr>ready := ready (s_broker w) @ [welcome_job out p],
               published := published (s_broker w) @ [welcome_job out p]\<rparr>\<rparr>)"
  by (simp add: server_emitter_def EmitUserRegistered_def emit_def server_listeners server_code_def
      hub_user_registered_def enqueue_published [OF assms])

lemma server_emit_registered_refused:
  assumes "o_publish_fault out = Some e"
  shows "emit_registered (server_emitter out (server_bus True True)) p w
     = Done (w\<lparr>s_hub := Broadcast ''auth:user-registered'' (user_payload_gov p) (s_hub w),
             s_log := s_log w @ [''[EVENTS] Failed to enqueue welcome email'']\<rparr>)"
  by (simp add: server_emitter_def EmitUserRegistered_def emit_def server_listeners server_code_def
      hub_user_registered_def enqueue_refused [OF assms])

definition ws_frame :: "bytes \<Rightarrow> gov \<Rightarrow> gov" where
  "ws_frame event payload = JObj [(''event'', JStr event), (''payload'', payload)]"

lemma Broadcast_member:
  assumes "conns h i = Some c" "i \<in> members h" "length (send_buf c) < 256" "marshalable payload"
  shows "conns (Broadcast event payload h) i = Some (c\<lparr>send_buf := send_buf c @ [ws_frame event payload]\<rparr>)"
    "members (Broadcast event payload h) = members h"
  using assms by (simp_all add: Broadcast_def marshalFrame_def deliver_to_def ws_frame_def)

section \<open>What a registration sets off\<close>

text \<open>
  C26. On a server with the hub and the queue, a registration answered with 201 also starts one audit
  write, which names the new account as its actor, and puts a frame with the new account and its
  email at the end of the queue of every connected client that has two free places, whether or not
  the client has identified itself.  When the broker takes the publication, one welcome job for
  the account is in the queue and a second frame, for the enqueued job, follows the first.  When
  the publication fails, the answer is 201 all the same: the broker has no job, no second frame is
  sent, and the only trace is one line in the log.
\<close>
theorem registration_fans_out:
  assumes "Register E (Some (server_emitter out (server_bus True True))) input r w = Returned res w'"
    and "StatusCode res = 201"
    and "conns (s_hub w) i = Some c" "i \<in> members (s_hub w)" "length (send_buf c) < 255"
  shows "\<exists>u job. u_ID u = \<lparr>Bytes = e_new_uuid E, Valid = True\<rparr> \<and> Data res = Some (JObj [(''user'', SafeUser E u)])
    \<and> job = o_encode out (JObj [(''user_id'', JStr (e_uuid_text E (e_new_uuid E))), (''email'', JStr (u_Email u))])
    \<and> conns (s_hub w') i = Some (c\<lparr>send_buf := send_buf c @
        [JObj [(''event'', JStr ''auth:user-registered''), (''payload'',
           JObj [(''UserID'', JStr (e_uuid_text E (e_new_uuid E))), (''Email'', JStr (u_Email u))])]] @
        (if o_publish_fault out = None then
         [JObj [(''event'', JStr ''queue:job-enqueued''), (''payload'',
           JObj [(''Queue'', JStr ''email_jobs''), (''JobName'', JStr ''send-welcome-email''),
                 (''JobID'', JStr (''welcome-email:'' @ e_uuid_text E (e_new_uuid E)))])]] else [])\<rparr>)
    \<and> s_broker w' = (if o_publish_fault out = None
         then (s_broker w)\<lparr>ready := ready (s_broker w) @ [job],
                published := published (s_broker w) @ [job]\<rparr>
         else s_broker w)
    \<and> s_log w' = (if o_publish_fault out = None then s_log w
         else s_log w @ [''[EVENTS] Failed to enqueue welcome email''])
    \<and> s_audit w' = s_audit w @ [audit_payload E ''register'' u r]"
proof -
  let ?b = "server_emitter out (server_bus True True)"
  have ins: "Register_insert E (Some ?b) input r w = Returned res w'"
    using assms(1,2) by (auto simp: Register_def ApiError_def split: if_splits)
  obtain hashed u d where h: "HashPassword (e_rand E) (e_kdf E) (ri_Password input) = Ret (Inr hashed)"
    and c: "CreateUser (e_insert_fault E) (e_new_uuid E) (e_db_now E)
         \<lparr>FirstName = ri_FirstName input, LastName = ri_LastName input,
          Email = ri_Email input, Passwd = hashed\<rparr> (database w) = (Inr u, d)"
    and res: "res = ApiSuccess ''user registered successfully'' (Some (JObj [(''user'', SafeUser E u)])) 201"
    by (rule Register_201 [OF server_bus_ok assms(1,2)])
  have "Bytes (u_ID u) = e_new_uuid E" "Valid (u_ID u)"
    using new_user_Inr(1,2) [OF CreateUser_Inr(1) [OF c]] by simp_all
  then have uid: "u_ID u = \<lparr>Bytes = e_new_uuid E, Valid = True\<rparr>" by (cases "u_ID u") simp
  let ?p = "\<lparr>ur_UserID = e_uuid_text E (e_new_uuid E), ur_Email = u_Email u\<rparr>"
  let ?h1 = "Broadcast ''auth:user-registered'' (user_payload_gov ?p) (s_hub w)"
  let ?h2 = "Broadcast ''queue:job-enqueued'' (job_payload_gov (welcome_event ?p)) ?h1"
  have w': "s_hub w' = (if o_publish_fault out = None then ?h2 else ?h1)"
    "s_broker w' = (if o_publish_fault out = None
         then (s_broker w)\<lparr>ready := ready (s_broker w) @ [welcome_job out ?p],
                published := published (s_broker w) @ [welcome_job out ?p]\<rparr>
         else s_broker w)"
    "s_log w' = (if o_publish_fault out = None then s_log w
         else s_log w @ [''[EVENTS] Failed to enqueue welcome email''])"
    "s_audit w' = s_audit w @ [audit_payload E ''register'' u r]"
    by (cases "o_publish_fault out"; use ins in
      \<open>auto simp: Register_insert_def h c Let_def uid UUID_String_def server_emit_registered_full
        server_emit_registered_refused server_emit_audit\<close>)+
  have m: "marshalable (user_payload_gov ?p)" "marshalable (job_payload_gov (welcome_event ?p))"
    by (simp_all add: user_payload_gov_def job_payload_gov_def)
  note first = Broadcast_member [OF assms(3,4) _ m(1), of "''auth:user-registered''"]
  have "conns ?h2 i = Some (c\<lparr>send_buf := (send_buf c @ [ws_frame ''auth:user-registered'' (user_payload_gov ?p)])
      @ [ws_frame ''queue:job-enqueued'' (job_payload_gov (welcome_event ?p))]\<rparr>)"
    using Broadcast_member(1) [OF first(1) _ _ m(2), of "''queue:job-enqueued''"] first(2) assms(4,5)
    by simp
  with first(1) assms(5) show ?thesis
    by (intro exI [of _ u] exI [of _ "welcome_job out ?p"])
      (cases "o_publish_fault out"; simp add: w' uid res ApiSuccess_def welcome_job_def job_gov_def ws_frame_def user_payload_gov_def
        job_payload_gov_def welcome_event_def EmailQueue_def)
qed

definition sample_sys :: sys where
  "sample_sys =
     \<lparr>limiter = NewRateLimiter 10 1000000000, events_log = [], stdout_log = [], app_log = [], database = empty_db,
      s_hub = hub_register 0 NewHub, s_broker = new_broker, s_audit = [], s_log = []\<rparr>"

definition sample_outside :: outside where
  "sample_outside =
     \<lparr>o_encode = (\<lambda>g. case gov_field ''email'' g of Some (JStr s) \<Rightarrow> s | _ \<Rightarrow> []),
      o_publish_fault = None, o_uuid_scan = e_uuid_scan sample_env, o_jsonb = Inr,
      o_audit_fault = None, o_audit_uuid = replicate 16 (CHR ''a''), o_audit_now = 0\<rparr>"

text \<open>The sample registration succeeds whatever the encoder.\<close>

lemma sample_registers:
  assumes "o_publish_fault out = None" "database w = empty_db"
  obtains w' u where
    "Register sample_env (Some (server_emitter out (server_bus True True))) sample_input (sample_request []) w
     = Returned (ApiSuccess ''user registered successfully''
         (Some (JObj [(''user'', SafeUser sample_env u)])) 201) w'"
    "users (database w') = [u]" "chan (s_broker w') = chan (s_broker w)"
proof -
  obtain h where h: "HashPassword (e_rand sample_env) sample_kdf ''12345678'' = Ret (Inr h)"
    "varchar 255 h = Inr h"
    by (rule sample_hash)
  have env: "e_kdf sample_env = sample_kdf" "e_insert_fault sample_env = None"
    "e_lookup_fault sample_env = None" "e_new_uuid sample_env = replicate 16 (CHR ''u'')"
    "e_db_now sample_env = 0"
    by (simp_all add: sample_env_def)
  have "\<not> Register_taken sample_env sample_input empty_db"
    by (simp add: Register_taken_def env GetUserByEmail_def empty_db_def scan_one_def and_then_def
        pg_text_def split: sum.splits)
  then show ?thesis
    using h server_emit_registered_full [OF assms(1)] assms(2) that
    by (simp add: Register_def Register_insert_def env sample_input_def CreateUser_def new_user_def
        sample_varchar empty_db_def server_emit_audit)
qed

lemma sample_sys_db: "database sample_sys = empty_db"
  by (simp add: sample_sys_def)

lemmas sample_registered = sample_registers [OF _ sample_sys_db]

theorem registration_fans_out_witness:
  "\<exists>w' u. Register sample_env (Some (server_emitter sample_outside (server_bus True True))) sample_input
       (sample_request []) sample_sys
     = Returned (ApiSuccess ''user registered successfully''
         (Some (JObj [(''user'', SafeUser sample_env u)])) 201) w'
     \<and> length (published (s_broker w')) = 1"
proof -
  let ?b = "server_emitter sample_outside (server_bus True True)"
  obtain w' u where reg: "Register sample_env (Some ?b) sample_input (sample_request []) sample_sys
      = Returned (ApiSuccess ''user registered successfully''
         (Some (JObj [(''user'', SafeUser sample_env u)])) 201) w'"
    by (rule sample_registered [of sample_outside]) (simp add: sample_outside_def)
  have f: "conns (s_hub sample_sys) 0 = Some new_client" "0 \<in> members (s_hub sample_sys)"
    "length (send_buf new_client) < 255" "o_publish_fault sample_outside = None"
    "published (s_broker sample_sys) = []"
    by (simp_all add: sample_sys_def hub_register_def new_client_def sample_outside_def new_broker_def)
  have "StatusCode (ApiSuccess ''user registered successfully''
         (Some (JObj [(''user'', SafeUser sample_env u)])) 201) = 201"
    by (simp add: ApiSuccess_def)
  from registration_fans_out [OF reg this f(1-3)] reg show ?thesis
    by (auto simp: f(4,5))
qed

text \<open>
  The write behind an audit event stores a row whose actor is the account, as long as that
  account still exists when the goroutine gets to it; if it was deleted in between, the foreign key
  refuses the row, the failure is logged and nothing is retried.
\<close>
theorem audit_write_outcomes:
  assumes "uuid_codec E" "o_uuid_scan out = e_uuid_scan E" "o_audit_fault out = None"
    and "u_ID u = \<lparr>Bytes = b, Valid = True\<rparr>" "length b = 16" "pg_text action = Inr action"
    and "pg_text (GetIP r) = Inr (GetIP r)"
      "pg_text (hget (req_header r) ''User-Agent'') = Inr (hget (req_header r) ''User-Agent'')"
    and "o_audit_uuid out \<notin> Bytes ` a_ID ` set (audit_logs (database w))"
  shows "write_audit_log out (audit_payload E action u r) w
    = (if b \<in> user_ids (database w)
       then w\<lparr>database := (database w)\<lparr>audit_logs := audit_logs (database w) @
              [\<lparr>a_ID = \<lparr>Bytes = o_audit_uuid out, Valid = True\<rparr>, a_ActorUserID = u_ID u,
                a_Action = action, a_Entity = ''user'', a_Metadata = None, a_Ip = Some (GetIP r),
                a_UserAgent = Some (hget (req_header r) ''User-Agent''),
                a_CreatedAt = o_audit_now out\<rparr>]\<rparr>\<rparr>
       else w\<lparr>s_log := s_log w @ [''[AUDIT] Failed to write audit log'']\<rparr>)"
proof -
  have "audit_actor (o_uuid_scan out) (e_uuid_text E b) = \<lparr>Bytes = b, Valid = True\<rparr>"
    using assms(1,5) by (simp add: audit_actor_def assms(2) uuid_codec_def)
  moreover have "pg_text ''user'' = Inr ''user''"
    by (simp add: pg_text_def utf8_chars_ascii ascii_def)
  ultimately show ?thesis
    using assms(3-9)
    by (simp add: write_audit_log_def audit_payload_def UUID_String_def CreateAuditLog_def
        new_audit_log_def opt_col_def)
qed

theorem audit_write_outcomes_witness:
  "write_audit_log sample_outside (audit_payload sample_env ''login''
      \<lparr>u_ID = \<lparr>Bytes = replicate 16 (CHR ''u''), Valid = True\<rparr>, u_FirstName = [], u_LastName = [],
       u_Email = ''a@b.c'', u_Password = [], u_Verified = False, u_CreatedAt = 0, u_UpdatedAt = 0\<rparr>
      (sample_request [])) sample_sys
   = sample_sys\<lparr>s_log := [''[AUDIT] Failed to write audit log'']\<rparr>"
proof -
  have ip: "GetIP (sample_request []) = ''10.0.0.1''"
    by (simp add: GetIP_def sample_request_def Let_def)
  have texts: "pg_text ''10.0.0.1'' = Inr ''10.0.0.1''" "pg_text ''login'' = Inr ''login''"
    "pg_text [] = Inr []"
    by (simp_all add: pg_text_def utf8_chars_ascii ascii_def)
  have facts: "o_uuid_scan sample_outside = e_uuid_scan sample_env" "o_audit_fault sample_outside = None"
    "hget (req_header (sample_request [])) ''User-Agent'' = []" "users (database sample_sys) = []"
    "o_audit_uuid sample_outside \<notin> Bytes ` a_ID ` set (audit_logs (database sample_sys))"
    "s_log sample_sys = []"
    by (simp_all add: sample_outside_def sample_request_def sample_sys_def empty_db_def)
  show ?thesis
    using audit_write_outcomes [OF sample_env_codec facts(1,2) _ length_replicate [of 16 "CHR ''u''"]
        texts(2) _ _ facts(5), where r = "sample_request []"]
    by (simp add: ip texts facts)
qed

end
