(* ===== verification/Logger.thy ===== *)
theory Logger
  imports Prelude
begin

text \<open>
  \<open>server/pkg/logger.go\<close>: two \<open>slog\<close> loggers behind one value.  A handler passes the records of its
  level and above; the levels are ordered as in \<open>log/slog\<close>.  A nil \<open>*Logger\<close> is \<open>None\<close>, and using
  its fields panics.
\<close>

section \<open>Levels\<close>

datatype level = Debug | Info | Warn | Error

primrec level_value :: "level \<Rightarrow> int" where
  "level_value Debug = -4"
| "level_value Info = 0"
| "level_value Warn = 4"
| "level_value Error = 8"

instantiation level :: linorder
begin

definition less_eq_level :: "level \<Rightarrow> level \<Rightarrow> bool" where
  "less_eq_level a b \<longleftrightarrow> level_value a \<le> level_value b"

definition less_level :: "level \<Rightarrow> level \<Rightarrow> bool" where
  "less_level a b \<longleftrightarrow> level_value a < level_value b"

instance
proof
  fix a b :: level
  show "a \<le> b \<Longrightarrow> b \<le> a \<Longrightarrow> a = b"
    by (cases a; cases b) (simp_all add: less_eq_level_def)
qed (auto simp: less_eq_level_def less_level_def)

end

section \<open>The logger\<close>

record entry =
  en_level :: level
  en_msg :: bytes

text \<open>A handler: the least level it passes and what it has written.\<close>

record slog =
  sl_Level :: level
  sl_out :: "entry list"

definition slog_enabled :: "slog \<Rightarrow> level \<Rightarrow> bool" where
  "slog_enabled h l \<longleftrightarrow> sl_Level h \<le> l"

definition slog_write :: "level \<Rightarrow> bytes \<Rightarrow> slog \<Rightarrow> slog" where
  "slog_write l msg h =
     (if slog_enabled h l then h\<lparr>sl_out := sl_out h @ [\<lparr>en_level = l, en_msg = msg\<rparr>]\<rparr> else h)"

record Logger =
  FileLogger :: slog
  StdoutLogger :: slog
  log_file :: "bytes option"

text \<open>
  The file system: whether \<open>logs\<close> exists, and the outcomes of creating it and of opening the file.
\<close>

definition NewLogger :: "bool \<Rightarrow> bytes option \<Rightarrow> bytes option \<Rightarrow> Logger option" where
  "NewLogger logs_exists mkdir_err open_err =
     (if \<not> logs_exists \<and> mkdir_err \<noteq> None then None
      else if open_err \<noteq> None then None
      else Some \<lparr>FileLogger = \<lparr>sl_Level = Debug, sl_out = []\<rparr>,
                 StdoutLogger = \<lparr>sl_Level = Info, sl_out = []\<rparr>,
                 log_file = Some ''logs/app.jsonl''\<rparr>)"

definition log_at :: "level \<Rightarrow> bytes \<Rightarrow> Logger option \<Rightarrow> Logger option go" where
  "log_at l msg lg =
     (case lg of
        None \<Rightarrow> Panic ''invalid memory address or nil pointer dereference''
      | Some g \<Rightarrow> Ret (Some (g\<lparr>FileLogger := slog_write l msg (FileLogger g),
                            StdoutLogger := slog_write l msg (StdoutLogger g)\<rparr>)))"

definition logger_Info :: "bytes \<Rightarrow> Logger option \<Rightarrow> Logger option go" where
  "logger_Info = log_at Info"

definition logger_Warn :: "bytes \<Rightarrow> Logger option \<Rightarrow> Logger option go" where
  "logger_Warn = log_at Warn"

definition logger_Error :: "bytes \<Rightarrow> Logger option \<Rightarrow> Logger option go" where
  "logger_Error = log_at Error"

definition logger_Debug :: "bytes \<Rightarrow> Logger option \<Rightarrow> Logger option go" where
  "logger_Debug = log_at Debug"

text \<open>\<open>Close\<close> reads the field \<open>file\<close>, so it panics on nil; a failing close is only reported.\<close>

definition logger_Close :: "Logger option \<Rightarrow> unit go" where
  "logger_Close lg =
     (case lg of
        None \<Rightarrow> Panic ''invalid memory address or nil pointer dereference''
      | Some g \<Rightarrow> Ret ())"

section \<open>What is written where\<close>

fun log_all :: "(level \<times> bytes) list \<Rightarrow> Logger option \<Rightarrow> Logger option go" where
  "log_all [] lg = Ret lg"
| "log_all ((l, m) # es) lg = go_bind (log_at l m lg) (log_all es)"

lemma Debug_least [simp]: "Debug \<le> l"
  by (cases l) (simp_all add: less_eq_level_def)

lemma log_all_Some:
  "\<exists>g'. log_all es (Some g) = Ret (Some g')
    \<and> sl_Level (FileLogger g') = sl_Level (FileLogger g) \<and> sl_Level (StdoutLogger g') = sl_Level (StdoutLogger g)
    \<and> sl_out (FileLogger g') = sl_out (FileLogger g)
        @ map (\<lambda>(l, m). \<lparr>en_level = l, en_msg = m\<rparr>) (filter (\<lambda>(l, m). sl_Level (FileLogger g) \<le> l) es)
    \<and> sl_out (StdoutLogger g') = sl_out (StdoutLogger g)
        @ map (\<lambda>(l, m). \<lparr>en_level = l, en_msg = m\<rparr>) (filter (\<lambda>(l, m). sl_Level (StdoutLogger g) \<le> l) es)"
proof (induction es arbitrary: g)
  case (Cons e es)
  obtain l m where e: "e = (l, m)" by fastforce
  let ?g = "g\<lparr>FileLogger := slog_write l m (FileLogger g), StdoutLogger := slog_write l m (StdoutLogger g)\<rparr>"
  show ?case
    using Cons.IH [of ?g] by (auto simp: e log_at_def slog_write_def slog_enabled_def)
qed simp

text \<open>
  A logger that could be built records every message in the file, in order, whatever the level,
  and on the console all but the debug messages.  Where the directory or the file cannot be
  created there is no logger, and the first message, as well as the deferred \<open>Close\<close>, panics.
\<close>
theorem logger_outputs:
  "case NewLogger logs_exists mkdir_err open_err of
     Some g \<Rightarrow> \<exists>g'. log_all es (Some g) = Ret (Some g')
       \<and> map (\<lambda>e. (en_level e, en_msg e)) (sl_out (FileLogger g')) = es
       \<and> map (\<lambda>e. (en_level e, en_msg e)) (sl_out (StdoutLogger g')) = filter (\<lambda>(l, m). l \<noteq> Debug) es
   | None \<Rightarrow> (open_err \<noteq> None \<or> \<not> logs_exists \<and> mkdir_err \<noteq> None)
       \<and> log_all ((l, m) # es) None = Panic ''invalid memory address or nil pointer dereference''
       \<and> logger_Close None = Panic ''invalid memory address or nil pointer dereference''"
proof (cases "NewLogger logs_exists mkdir_err open_err")
  case None
  then show ?thesis
    by (simp add: NewLogger_def log_at_def logger_Close_def split: if_splits)
next
  case (Some g)
  then have g: "sl_out (FileLogger g) = []" "sl_out (StdoutLogger g) = []"
    "sl_Level (FileLogger g) = Debug" "sl_Level (StdoutLogger g) = Info"
    by (auto simp: NewLogger_def split: if_splits)
  have "Info \<le> l \<longleftrightarrow> l \<noteq> Debug" for l
    by (cases l) (simp_all add: less_eq_level_def)
  then show ?thesis
    using log_all_Some [of es g] Some
    by (auto simp: g comp_def case_prod_unfold)
qed

end
