(* ===== verification/Health.thy ===== *)
theory Health
  imports Middlewares
begin

text \<open>
  \<open>server/internal/modules/health/health.routes.go\<close>.  The handler pings the pool and, where there is
  one, the Redis client; ping results, pool and memory statistics are arguments.
\<close>

record mem_stats =
  Alloc :: "64 word"
  TotalAlloc :: "64 word"
  Sys :: "64 word"
  NumGC :: "32 word"

record health_probe =
  pool_ping :: "bytes option"
  redis_ping :: "bytes option option"
  TotalConns :: "32 word"
  IdleConns :: "32 word"
  uptime :: bytes
  mem :: mem_stats

text \<open>
  \<open>float64(b) / 1024 / 1024\<close>: exact below \<open>2 ^ 53\<close> bytes, where a \<open>float64\<close> holds every integer.
\<close>

definition toMB :: "64 word \<Rightarrow> gov" where
  "toMB b = JFloat (uint b) (- 20)"

definition probe_status :: "bytes option \<Rightarrow> bytes" where
  "probe_status e = (case e of None \<Rightarrow> ''ok'' | Some err \<Rightarrow> ''unreachable: '' @ err)"

definition healthHandler :: "health_probe \<Rightarrow> ('b, 'w) handler" where
  "healthHandler p r s =
     (let dbStatus = probe_status (pool_ping p);
          redisStatus = (case redis_ping p of None \<Rightarrow> ''disabled'' | Some e \<Rightarrow> probe_status e)
      in Done (fst s, hw_JSON
           [(''success'', JBool True), (''status'', JStr ''ok''), (''uptime'', JStr (uptime p)),
            (''services'', JObj
              [(''database'', JObj
                 [(''status'', JStr dbStatus), (''open_conns'', JInt (sint (TotalConns p))),
                  (''idle_conns'', JInt (sint (IdleConns p)))]),
               (''redis'', JObj [(''status'', JStr redisStatus)])]),
            (''memory'', JObj
              [(''alloc_mb'', toMB (Alloc (mem p))), (''total_alloc_mb'', toMB (TotalAlloc (mem p))),
               (''sys_mb'', toMB (Sys (mem p))), (''num_gc'', JInt (uint (NumGC (mem p))))])]
           (hw_Status 200 (NewHttpWriter (snd s) r))))"

text \<open>
  The health endpoint reports, it does not judge: whatever the pings say, it answers 200 with
  \<open>success\<close> true and \<open>status\<close> ok; that the database or Redis cannot be reached shows only in the
  nested status texts.
\<close>
theorem health_always_200:
  assumes "rsp_sent (snd s) = None"
  shows "\<exists>w kvs db rd. healthHandler p r s = Done (fst s, w) \<and> status w = Some 200
    \<and> rsp_body w = rsp_body (snd s) @ [Json (JObj kvs)]
    \<and> map_of kvs ''success'' = Some (JBool True) \<and> map_of kvs ''status'' = Some (JStr ''ok'')
    \<and> map_of kvs ''services'' = Some (JObj [(''database'', db), (''redis'', rd)])
    \<and> gov_field ''status'' db = Some (JStr (case pool_ping p of
          None \<Rightarrow> ''ok'' | Some e \<Rightarrow> ''unreachable: '' @ e))
    \<and> gov_field ''status'' rd = Some (JStr (case redis_ping p of None \<Rightarrow> ''disabled''
          | Some None \<Rightarrow> ''ok'' | Some (Some e) \<Rightarrow> ''unreachable: '' @ e))"
  using assms
  by (auto simp: healthHandler_def Let_def hw_JSON_def hw_Status_def NewHttpWriter_def toMB_def
      status_def Write_def WriteHeader_def send_status_def set_header_def probe_status_def
      split: option.splits)

definition down_probe :: health_probe where
  "down_probe = \<lparr>pool_ping = Some ''refused'', redis_ping = None, TotalConns = 0, IdleConns = 0,
     uptime = ''1s'', mem = \<lparr>Alloc = 1048576, TotalAlloc = 0, Sys = 0, NumGC = 0\<rparr>\<rparr>"

theorem health_always_200_witness:
  "\<exists>w. healthHandler down_probe r ((), new_response) = Done ((), w) \<and> status w = Some 200"
  using health_always_200 [of "((), new_response)" down_probe r]
  by (auto simp: new_response_def)

end
