(* ===== verification/Cache.thy ===== *)
theory Cache
  imports Prelude
begin

text \<open>
  \<open>server/internal/core/cache/redis.go\<close>: the \<open>Cache\<close> interface and its implementation \<open>Client\<close>
  over \<open>go-redis\<close>.  The library is the record \<open>redis_lib\<close> of the commands used, over a state \<open>'s\<close>
  of the server; what its documentation promises of \<open>EXISTS\<close>, \<open>GET\<close>, \<open>SET\<close> and \<open>DEL\<close> is
  \<open>redis_ok\<close>.
\<close>

record 's redis_lib =
  r_ping :: "'s \<Rightarrow> bytes option"
  r_get :: "bytes \<Rightarrow> 's \<Rightarrow> bytes fallible"
  r_set :: "bytes \<Rightarrow> bytes \<Rightarrow> int \<Rightarrow> 's \<Rightarrow> bytes option \<times> 's"
  r_del :: "bytes list \<Rightarrow> 's \<Rightarrow> bytes option \<times> 's"
  r_close :: "'s \<Rightarrow> bytes option \<times> 's"
  r_exists :: "bytes list \<Rightarrow> 's \<Rightarrow> int fallible"

definition ErrCacheMiss :: bytes where
  "ErrCacheMiss = ''redis: nil''"

record 's Client =
  rdb :: "'s redis_lib"

record ClientConfig =
  cc_Addr :: bytes
  cc_Password :: bytes
  cc_DB :: int
  cc_PoolSize :: int

text \<open>
  \<open>New\<close> pings before it hands the client out, and closes the library's client when the ping fails;
  \<open>dial\<close> is \<open>redis.NewClient\<close>.  The second component tells whether the connections are left open.
\<close>

definition NewClient :: "(ClientConfig \<Rightarrow> 's redis_lib) \<Rightarrow> ClientConfig \<Rightarrow> 's
    \<Rightarrow> 's Client fallible \<times> bool \<times> 's" where
  "NewClient dial cfg s =
     (let rdb = dial cfg
      in case r_ping rdb s of
           Some err \<Rightarrow> (Inl (''[REDIS] failed to connect: '' @ err), False, snd (r_close rdb s))
         | None \<Rightarrow> (Inr \<lparr>rdb = rdb\<rparr>, True, s))"

definition cache_Get :: "'s Client \<Rightarrow> bytes \<Rightarrow> 's \<Rightarrow> bytes fallible" where
  "cache_Get c k s = r_get (rdb c) k s"

definition cache_Set :: "'s Client \<Rightarrow> bytes \<Rightarrow> bytes \<Rightarrow> int \<Rightarrow> 's \<Rightarrow> bytes option \<times> 's" where
  "cache_Set c k v ttl s = r_set (rdb c) k v ttl s"

definition cache_Del :: "'s Client \<Rightarrow> bytes list \<Rightarrow> 's \<Rightarrow> bytes option \<times> 's" where
  "cache_Del c ks s = r_del (rdb c) ks s"

text \<open>The count is zero where the command fails; both results are returned.\<close>

definition cache_Exists :: "'s Client \<Rightarrow> bytes list \<Rightarrow> 's \<Rightarrow> bool \<times> bytes option" where
  "cache_Exists c ks s =
     (let (n, err) = (case r_exists (rdb c) ks s of Inl e \<Rightarrow> (0, Some e) | Inr n \<Rightarrow> (n, None))
      in (n = int (length ks), err))"

definition cache_Ping :: "'s Client \<Rightarrow> 's \<Rightarrow> bytes option" where
  "cache_Ping c s = r_ping (rdb c) s"

definition cache_Close :: "'s Client \<Rightarrow> 's \<Rightarrow> bytes option \<times> 's" where
  "cache_Close c s = r_close (rdb c) s"

definition Underlying :: "'s Client \<Rightarrow> 's redis_lib" where
  "Underlying c = rdb c"

section \<open>What Redis promises\<close>

text \<open>
  While no command fails: \<open>GET\<close> after \<open>SET\<close>, \<open>GET\<close> after \<open>DEL\<close>, other keys untouched, and \<open>EXISTS\<close>
  counts its arguments, repeated ones as often as they are repeated.
\<close>

definition redis_ok :: "'s redis_lib \<Rightarrow> bool" where
  "redis_ok lib \<longleftrightarrow>
     (\<forall>s k v s'. r_set lib k v 0 s = (None, s') \<longrightarrow>
        r_get lib k s' = Inr v \<and> (\<forall>k'. k' \<noteq> k \<longrightarrow> r_get lib k' s' = r_get lib k' s)) \<and>
     (\<forall>s ks s'. r_del lib ks s = (None, s') \<longrightarrow>
        (\<forall>k. r_get lib k s' = (if k \<in> set ks then Inl ErrCacheMiss else r_get lib k s))) \<and>
     (\<forall>s ks n. r_exists lib ks s = Inr n \<longrightarrow>
        n = int (length (filter (\<lambda>k. \<exists>v. r_get lib k s = Inr v) ks)))"

lemma length_filter_eq: "length (filter P xs) = length xs \<longleftrightarrow> (\<forall>x \<in> set xs. P x)"
  using sum_length_filter_compl [of P xs] by (auto simp: filter_empty_conv)

text \<open>
  \<open>Exists\<close> answers true exactly where every one of the keys is there, repeated keys included, as
  long as the command succeeds; after deleting some of the keys it answers true only for lists
  that name none of them.
\<close>
theorem exists_means_all:
  assumes "redis_ok (rdb c)" "r_exists (rdb c) ks s = Inr n"
  shows "cache_Exists c ks s = ((\<forall>k \<in> set ks. \<exists>v. cache_Get c k s = Inr v), None)
    \<and> (\<forall>ds s' n'. cache_Del c ds s = (None, s') \<and> r_exists (rdb c) ks s' = Inr n'
        \<longrightarrow> fst (cache_Exists c ks s')
            = (fst (cache_Exists c ks s) \<and> set ks \<inter> set ds = {}))"
proof -
  have all: "fst (cache_Exists c ks t) = (\<forall>k \<in> set ks. \<exists>v. cache_Get c k t = Inr v)"
    if "r_exists (rdb c) ks t = Inr m" for t m
  proof -
    have "m = int (length (filter (\<lambda>k. \<exists>v. r_get (rdb c) k t = Inr v) ks))"
      using assms(1) that unfolding redis_ok_def by blast
    with that show ?thesis
      by (simp add: cache_Exists_def cache_Get_def length_filter_eq)
  qed
  have del: "r_get (rdb c) k s' = (if k \<in> set ds then Inl ErrCacheMiss else r_get (rdb c) k s)"
    if "cache_Del c ds s = (None, s')" for k ds s'
    using assms(1) that unfolding redis_ok_def cache_Del_def by blast
  have "snd (cache_Exists c ks s) = None"
    by (simp add: cache_Exists_def assms(2))
  with all [OF assms(2)]
  have "cache_Exists c ks s = ((\<forall>k \<in> set ks. \<exists>v. cache_Get c k s = Inr v), None)"
    by (simp add: prod_eq_iff)
  moreover have "fst (cache_Exists c ks s') = (fst (cache_Exists c ks s) \<and> set ks \<inter> set ds = {})"
    if "cache_Del c ds s = (None, s')" "r_exists (rdb c) ks s' = Inr n'" for ds s' n'
    unfolding all [OF that(2)] all [OF assms(2)] cache_Get_def
    using del [OF that(1)] by (auto split: if_splits)
  ultimately show ?thesis by blast
qed

text \<open>A store without expiry.\<close>

definition map_redis :: "(bytes \<rightharpoonup> bytes) redis_lib" where
  "map_redis =
     \<lparr>r_ping = (\<lambda>s. None),
      r_get = (\<lambda>k s. case s k of Some v \<Rightarrow> Inr v | None \<Rightarrow> Inl ErrCacheMiss),
      r_set = (\<lambda>k v ttl s. (None, s(k \<mapsto> v))),
      r_del = (\<lambda>ks s. (None, \<lambda>k. if k \<in> set ks then None else s k)),
      r_close = (\<lambda>s. (None, s)),
      r_exists = (\<lambda>ks s. Inr (int (length (filter (\<lambda>k. s k \<noteq> None) ks))))\<rparr>"

lemma map_redis_ok: "redis_ok map_redis"
proof -
  have "(\<exists>v. r_get map_redis k s = Inr v) \<longleftrightarrow> s k \<noteq> None" for k s
    by (simp add: map_redis_def split: option.splits)
  then show ?thesis
    by (auto simp: redis_ok_def) (auto simp: map_redis_def)
qed

theorem exists_means_all_witness:
  "cache_Exists \<lparr>rdb = map_redis\<rparr> [''a'', ''b'', ''a''] [''a'' \<mapsto> ''1'', ''b'' \<mapsto> ''2''] = (True, None)"
proof -
  let ?s = "[''a'' \<mapsto> ''1'', ''b'' \<mapsto> ''2''] :: bytes \<rightharpoonup> bytes"
  have "r_exists map_redis [''a'', ''b'', ''a''] ?s = Inr 3"
    by (simp add: map_redis_def)
  then show ?thesis
    using exists_means_all [of "\<lparr>rdb = map_redis\<rparr>" "[''a'', ''b'', ''a'']" ?s 3] map_redis_ok
    by (simp add: cache_Get_def map_redis_def)
qed

end
