(* ===== verification/Server.thy ===== *)
theory Server
  imports Server_Events Config Logger Health Cache
begin

text \<open>
  \<open>server/server.go\<close> and \<open>main.go\<close>: setting the subsystems up, the router with its middleware
  chain, serving the WebSocket endpoint, shutting down, and the program around it.  The database
  pool follows \<open>server/internal/db/db.go\<close>, the route registry \<open>server/internal/modules/routes.go\<close>
  and the frontend handler \<open>fs_prod.go\<close>.  Outcomes of the libraries are arguments; the matching of
  \<open>gorilla/mux\<close> is the parameter \<open>mux\<close> with its documented rule, the first route that matches.
\<close>

section \<open>The database pool\<close>

record pool_config =
  ConnString :: bytes
  MaxConns :: "32 word"
  MinConns :: "32 word"
  MaxConnLifetime :: int
  MaxConnIdleTime :: int
  HealthCheckPeriod :: int

definition minute :: int where
  "minute = 60 * 1000000000"

text \<open>\<open>Connect\<close>, and whether the pool it made is still open when it returns.\<close>

definition Connect ::
  "(bytes \<Rightarrow> bytes option) \<Rightarrow> (pool_config \<Rightarrow> bytes option) \<Rightarrow> (pool_config \<Rightarrow> bytes option)
    \<Rightarrow> bytes \<Rightarrow> 32 word \<Rightarrow> pool_config fallible \<times> bool" where
  "Connect parse new ping dsn maxConns =
     (case parse dsn of
        Some err \<Rightarrow> (Inl (''parsing DSN: '' @ err), False)
      | None \<Rightarrow>
          let cfg = \<lparr>ConnString = dsn, MaxConns = maxConns, MinConns = 2, MaxConnLifetime = 30 * minute,
                     MaxConnIdleTime = 5 * minute, HealthCheckPeriod = minute\<rparr>
          in case new cfg of
               Some err \<Rightarrow> (Inl (''creating connection pool: '' @ err), False)
             | None \<Rightarrow>
                 (case ping cfg of
                    Some err \<Rightarrow> (Inl (''pinging database: '' @ err), False)
                  | None \<Rightarrow> (Inr cfg, True)))"

section \<open>Routes\<close>

datatype endpoint =
  HealthEP | RegisterEP | LoginEP | RefreshEP | MeEP | WebSocketEP | WebEP | OpenAPIEP | DocsEP

datatype path_match = ExactPath bytes | PathPrefix bytes

record route =
  route_path :: path_match
  route_methods :: "bytes list option"
  route_endpoint :: endpoint

primrec path_matches :: "path_match \<Rightarrow> bytes \<Rightarrow> bool" where
  "path_matches (ExactPath p) path = (path = p)"
| "path_matches (PathPrefix p) path = prefix p path"

definition route_accepts :: "route \<Rightarrow> bytes \<Rightarrow> bytes \<Rightarrow> bool" where
  "route_accepts r meth path \<longleftrightarrow> path_matches (route_path r) path
     \<and> (case route_methods r of None \<Rightarrow> True | Some ms \<Rightarrow> meth \<in> set ms)"

text \<open>
  The rule of the router's documentation: of the routes that match, the first one wins.  It is assumed
  for paths that are clean, as the router answers any other with a redirect to the cleaned path before
  it looks at the routes, and for templates without variables in braces.
\<close>

type_synonym mux = "route list \<Rightarrow> bytes \<Rightarrow> bytes \<Rightarrow> endpoint option"

primrec template :: "path_match \<Rightarrow> bytes" where
  "template (ExactPath p) = p"
| "template (PathPrefix p) = p"

definition plain_template :: "bytes \<Rightarrow> bool" where
  "plain_template t \<longleftrightarrow> (t = [] \<or> prefix ''/'' t) \<and> CHR 0x7B \<notin> set t \<and> CHR 0x7D \<notin> set t"

definition plain_routes :: "route list \<Rightarrow> bool" where
  "plain_routes rs \<longleftrightarrow> list_all (\<lambda>r. plain_template (template (route_path r))) rs"

text \<open>No empty segment but the last, and no segment that is a dot or two.\<close>

definition clean_path :: "bytes \<Rightarrow> bool" where
  "clean_path p \<longleftrightarrow> prefix ''/'' p
     \<and> (let segs = split_byte (CHR ''/'') (tl p)
        in [] \<notin> set (butlast segs) \<and> ''.'' \<notin> set segs \<and> ''..'' \<notin> set segs)"

definition mux_first_match :: "mux \<Rightarrow> bool" where
  "mux_first_match m \<longleftrightarrow>
     (\<forall>pre r post meth path. plain_routes (pre @ r # post) \<and> clean_path path \<and> route_accepts r meth path
        \<and> (\<forall>r' \<in> set pre. \<not> route_accepts r' meth path)
        \<longrightarrow> m (pre @ r # post) meth path = Some (route_endpoint r))"

definition mux_misses :: "mux \<Rightarrow> bool" where
  "mux_misses m \<longleftrightarrow>
     (\<forall>rs meth path. plain_routes rs \<and> clean_path path \<and> (\<forall>r \<in> set rs. \<not> route_accepts r meth path)
        \<longrightarrow> m rs meth path = None)"

text \<open>
  The routes of the modules, under a prefix that does not end in a slash: there the router puts the
  templates one after the other.
\<close>

definition healthRoutes :: "bytes \<Rightarrow> route list" where
  "healthRoutes pre =
     [\<lparr>route_path = ExactPath (pre @ ''/health''), route_methods = Some [''GET''],
       route_endpoint = HealthEP\<rparr>]"

definition authControllerRoutes :: "bytes \<Rightarrow> route list" where
  "authControllerRoutes pre =
     [\<lparr>route_path = ExactPath (pre @ ''/register''), route_methods = Some [''POST''], route_endpoint = RegisterEP\<rparr>,
      \<lparr>route_path = ExactPath (pre @ ''/login''), route_methods = Some [''POST''], route_endpoint = LoginEP\<rparr>,
      \<lparr>route_path = ExactPath (pre @ ''/refresh''), route_methods = Some [''POST''], route_endpoint = RefreshEP\<rparr>,
      \<lparr>route_path = ExactPath (pre @ ''/me''), route_methods = Some [''GET''], route_endpoint = MeEP\<rparr>]"

definition modules_Register :: "bytes \<Rightarrow> route list" where
  "modules_Register pre = healthRoutes pre @ authControllerRoutes (pre @ ''/auth'')"

section \<open>The server\<close>

datatype resource = DatabasePool | RedisClient | QueueManager | HttpServer

text \<open>
  \<open>opened\<close> is the list of the connections that are open, in the order they were made, also those of a
  step that failed; \<open>background\<close> is how the goroutine ends that the router's set-up starts for the limiter.
\<close>

datatype mw_use = UseRequestID | UseCORS | UseRateLimit int int | UseLogger bytes

record server =
  cfg :: Config
  web_handler :: bool
  pool :: "pool_config option"
  redis :: "unit Client option"
  event_bus :: "server_bus option"
  has_hub :: bool
  qmgr :: "ManagerConfig option"
  consumers :: "int option"
  chain :: "mw_use list"
  routes :: "route list"
  http_addr :: "bytes option"
  background :: "unit go"
  opened :: "resource list"

definition server_New :: "Config \<Rightarrow> bool \<Rightarrow> server" where
  "server_New c web =
     \<lparr>cfg = c, web_handler = web, pool = None, redis = None, event_bus = None, has_hub = False,
      qmgr = None, consumers = None, chain = [], routes = [], http_addr = None,
      background = Ret (), opened = []\<rparr>"

text \<open>What the libraries answer during set-up.\<close>

record startup =
  x_parse_dsn :: "bytes \<Rightarrow> bytes option"
  x_new_pool :: "pool_config \<Rightarrow> bytes option"
  x_ping_db :: "pool_config \<Rightarrow> bytes option"
  x_redis :: "ClientConfig \<Rightarrow> unit redis_lib"
  x_dial :: "bytes \<Rightarrow> bytes option"
  x_channel :: "bytes option"
  x_declare :: "bytes \<Rightarrow> bytes option"
  x_backoff :: "bytes \<Rightarrow> int option"
  x_consume :: "bytes option"

definition int32 :: "int \<Rightarrow> 32 word" where
  "int32 i = word_of_int i"

definition setupDatabase :: "startup \<Rightarrow> (bytes \<rightharpoonup> bytes) \<Rightarrow> server \<Rightarrow> bytes option \<times> server" where
  "setupDatabase x env s =
     (let (res, is_open) = Connect (x_parse_dsn x) (x_new_pool x) (x_ping_db x) (DSN env (cfg s))
                          (int32 (db_PoolSize (c_Database (cfg s))));
          s = s\<lparr>opened := opened s @ (if is_open then [DatabasePool] else [])\<rparr>
      in case res of
           Inl err \<Rightarrow> (Some (''database connection failed: '' @ err), s)
         | Inr p \<Rightarrow> (None, s\<lparr>pool := Some p\<rparr>))"

definition redis_settings :: "(bytes \<rightharpoonup> bytes) \<Rightarrow> Config \<Rightarrow> ClientConfig" where
  "redis_settings env c =
     \<lparr>cc_Addr = RedisAddr env c, cc_Password = RedisPassword env c,
      cc_DB = red_DB (c_Redis c), cc_PoolSize = red_PoolSize (c_Redis c)\<rparr>"

definition setupRedis :: "startup \<Rightarrow> (bytes \<rightharpoonup> bytes) \<Rightarrow> server \<Rightarrow> bytes option \<times> server" where
  "setupRedis x env s =
     (if \<not> red_Enabled (c_Redis (cfg s)) then (None, s)
      else let (res, is_open, _) = NewClient (x_redis x) (redis_settings env (cfg s)) ();
               s = s\<lparr>opened := opened s @ (if is_open then [RedisClient] else [])\<rparr>
           in case res of
                Inl err \<Rightarrow> (Some (''redis connection failed: '' @ err), s)
              | Inr client \<Rightarrow> (None, s\<lparr>redis := Some client\<rparr>))"

definition setupEventBus :: "server \<Rightarrow> server" where
  "setupEventBus s = s\<lparr>event_bus := Some New\<rparr>"

definition setupRealtime :: "server \<Rightarrow> server" where
  "setupRealtime s =
     (if \<not> ws_Enabled (c_WebSocket (cfg s)) then s
      else s\<lparr>has_hub := True, event_bus := map_option hub_subscriptions (event_bus s)\<rparr>)"

text \<open>\<open>AMQPUrl\<close> reads the environment \<open>env\<close>; a back-off that is no duration is one second.\<close>

definition queue_settings :: "startup \<Rightarrow> (bytes \<rightharpoonup> bytes) \<Rightarrow> Config \<Rightarrow> ManagerConfig" where
  "queue_settings x env c =
     \<lparr>m_URL = AMQPUrl env, m_DefaultAttempts = mq_DefaultAttempts (c_RabbitMQ c),
      m_DefaultBackoff =
        (case x_backoff x (mq_DefaultBackoff (c_RabbitMQ c)) of Some d \<Rightarrow> d | None \<Rightarrow> 1000000000)\<rparr>"

definition setupQueue :: "startup \<Rightarrow> (bytes \<rightharpoonup> bytes) \<Rightarrow> server \<Rightarrow> bytes option \<times> server" where
  "setupQueue x env s =
     (if \<not> mq_Enabled (c_RabbitMQ (cfg s)) then (None, s)
      else let (res, h) = NewManager (x_dial x) (x_channel x) (x_declare x) (queue_settings x env (cfg s));
               s = s\<lparr>opened := opened s @ (if conn_open h \<or> chan_open h then [QueueManager] else [])\<rparr>
           in case res of
             Inl err \<Rightarrow> (Some (''queue setup failed: '' @ err), s)
           | Inr mgr \<Rightarrow>
               let s = s\<lparr>qmgr := Some mgr\<rparr>
               in if wk_Process (c_Workers (cfg s)) \<and> wk_NotificationJobs (c_Workers (cfg s))
                  then (case x_consume x of
                          Some err \<Rightarrow> (Some (''starting email consumer: '' @ err), s)
                        | None \<Rightarrow> (None, s\<lparr>consumers := Some (wk_Concurrency (c_Workers (cfg s)))\<rparr>))
                  else (None, s))"

definition server_setupEventHandlers :: "server \<Rightarrow> server" where
  "server_setupEventHandlers s =
     s\<lparr>event_bus := map_option (setupEventHandlers (qmgr s \<noteq> None)) (event_bus s)\<rparr>"

text \<open>\<open>time.Duration(n) * time.Second\<close>, an \<open>int64\<close> product.\<close>

definition seconds_duration :: "int \<Rightarrow> int" where
  "seconds_duration n = sint (word_of_int n * 1000000000 :: 64 word)"

text \<open>What becomes of \<open>go rl.cleanup()\<close> in \<open>NewRateLimiter\<close> before the first tick.\<close>

definition limiter_goroutine :: "Config \<Rightarrow> unit go" where
  "limiter_goroutine c =
     (let rl = sec_RateLimit (c_Security c)
      in if rate_Enabled rl
         then go_map (\<lambda>_. ()) (cleanup [] (NewRateLimiter (rate_MaxRequests rl)
                (seconds_duration (rate_WindowSeconds rl))))
         else Ret ())"

definition setupRouter :: "server \<Rightarrow> server" where
  "setupRouter s =
     (let c = cfg s; rl = sec_RateLimit (c_Security c)
      in s\<lparr>chain :=
             (if rid_Enabled (mw_RequestID (c_Middlewares c)) then [UseRequestID] else [])
             @ (if cors_Enabled (sec_CORS (c_Security c)) then [UseCORS] else [])
             @ (if rate_Enabled rl
                then [UseRateLimit (rate_MaxRequests rl) (seconds_duration (rate_WindowSeconds rl))] else [])
             @ (if mw_Logger (c_Middlewares c) then [UseLogger (srv_Environment (c_Server c))] else []),
           routes :=
             modules_Register (srv_APIPrefix (c_Server c))
             @ (if has_hub s
                then [\<lparr>route_path = ExactPath (ws_Path (c_WebSocket c)), route_methods = None,
                       route_endpoint = WebSocketEP\<rparr>] else [])
             @ (if web_handler s
                then [\<lparr>route_path = PathPrefix ''/'', route_methods = None, route_endpoint = WebEP\<rparr>]
                else []),
           http_addr := Some (Addr c), background := limiter_goroutine c\<rparr>)"

definition setupDocs :: "server \<Rightarrow> server" where
  "setupDocs s =
     (let sw = c_Swagger (cfg s)
      in if \<not> sw_Enabled sw then s
         else s\<lparr>routes := routes s
           @ [\<lparr>route_path = ExactPath (sw_Path sw @ ''/openapi.yaml''), route_methods = None,
               route_endpoint = OpenAPIEP\<rparr>,
              \<lparr>route_path = ExactPath (sw_Path sw), route_methods = None, route_endpoint = DocsEP\<rparr>]\<rparr>)"

definition Setup :: "startup \<Rightarrow> (bytes \<rightharpoonup> bytes) \<Rightarrow> server \<Rightarrow> bytes option \<times> server" where
  "Setup x env s =
     (case setupDatabase x env s of
        (Some err, s) \<Rightarrow> (Some err, s)
      | (None, s) \<Rightarrow>
          (case setupRedis x env s of
             (Some err, s) \<Rightarrow> (Some err, s)
           | (None, s) \<Rightarrow>
               (case setupQueue x env (setupRealtime (setupEventBus s)) of
                  (Some err, s) \<Rightarrow> (Some err, s)
                | (None, s) \<Rightarrow> (None, setupDocs (setupRouter (server_setupEventHandlers s))))))"

text \<open>The resources \<open>Shutdown\<close> closes, in order.\<close>

definition Shutdown :: "server \<Rightarrow> resource list" where
  "Shutdown s =
     (if http_addr s \<noteq> None then [HttpServer] else [])
     @ (if qmgr s \<noteq> None then [QueueManager] else [])
     @ (if redis s \<noteq> None then [RedisClient] else [])
     @ (if pool s \<noteq> None then [DatabasePool] else [])"

section \<open>Set-up and shutdown\<close>

lemma setupDatabase_cases:
  obtains (failed) e where "setupDatabase x env s = (Some e, s)"
  | (opened) p where "setupDatabase x env s = (None, s\<lparr>opened := opened s @ [DatabasePool], pool := Some p\<rparr>)"
      "ConnString p = DSN env (cfg s)" "MaxConns p = int32 (db_PoolSize (c_Database (cfg s)))"
  by (cases "fst (Connect (x_parse_dsn x) (x_new_pool x) (x_ping_db x) (DSN env (cfg s))
        (int32 (db_PoolSize (c_Database (cfg s)))))")
    (auto simp: setupDatabase_def Connect_def Let_def split: option.splits)

lemma setupRedis_cases:
  obtains (off) "\<not> red_Enabled (c_Redis (cfg s))" "setupRedis x env s = (None, s)"
  | (failed) e where "red_Enabled (c_Redis (cfg s))" "setupRedis x env s = (Some e, s)"
  | (opened) "red_Enabled (c_Redis (cfg s))"
      "setupRedis x env s = (None, s\<lparr>redis := Some \<lparr>rdb = x_redis x (redis_settings env (cfg s))\<rparr>,
         opened := opened s @ [RedisClient]\<rparr>)"
  by (cases "r_ping (x_redis x (redis_settings env (cfg s))) ()"; cases "red_Enabled (c_Redis (cfg s))")
    (auto simp: setupRedis_def NewClient_def Let_def)

lemma setupQueue_cases:
  obtains (off) "\<not> mq_Enabled (c_RabbitMQ (cfg s))" "setupQueue x env s = (None, s)"
  | (failed) e where "mq_Enabled (c_RabbitMQ (cfg s))" "setupQueue x env s = (Some e, s)"
  | (no_consumer) e where "mq_Enabled (c_RabbitMQ (cfg s))"
      "setupQueue x env s = (Some e, s\<lparr>qmgr := Some (queue_settings x env (cfg s)),
         opened := opened s @ [QueueManager]\<rparr>)"
  | (opened) k where "mq_Enabled (c_RabbitMQ (cfg s))"
      "setupQueue x env s = (None, s\<lparr>qmgr := Some (queue_settings x env (cfg s)),
         opened := opened s @ [QueueManager], consumers := k\<rparr>)"
proof (cases "mq_Enabled (c_RabbitMQ (cfg s))")
  case False
  with off show ?thesis by (simp add: setupQueue_def)
next
  case True
  obtain new h where nm: "NewManager (x_dial x) (x_channel x) (x_declare x) (queue_settings x env (cfg s)) = (new, h)"
    by fastforce
  have h: "conn_open h \<longleftrightarrow> new = Inr (queue_settings x env (cfg s))"
    "chan_open h \<longleftrightarrow> new = Inr (queue_settings x env (cfg s))"
    using NewManager_handles(1,2) [of "x_dial x" "x_channel x" "x_declare x" "queue_settings x env (cfg s)"]
    by (simp_all add: nm)
  let ?on = "wk_Process (c_Workers (cfg s)) \<and> wk_NotificationJobs (c_Workers (cfg s))"
  let ?s = "s\<lparr>qmgr := Some (queue_settings x env (cfg s)), opened := opened s @ [QueueManager]\<rparr>"
  show ?thesis
  proof (cases new)
    case (Inl e)
    with True failed show ?thesis by (simp add: setupQueue_def nm h Let_def)
  next
    case (Inr m)
    then have "m = queue_settings x env (cfg s)"
      using NewManager_handles(3) [of "x_dial x" "x_channel x" "x_declare x" "queue_settings x env (cfg s)" m] nm
      by simp
    with True Inr nm h have q: "setupQueue x env s = (if ?on then (case x_consume x of
        Some err \<Rightarrow> (Some (''starting email consumer: '' @ err), ?s)
      | None \<Rightarrow> (None, ?s\<lparr>consumers := Some (wk_Concurrency (c_Workers (cfg s)))\<rparr>)) else (None, ?s))"
      by (cases "x_consume x") (simp_all add: setupQueue_def Let_def)
    have same: "?s = ?s\<lparr>consumers := consumers s\<rparr>" by simp
    show ?thesis
    proof (cases ?on)
      case False
      with q same True opened [of "consumers s"] show ?thesis by simp
    next
      case on: True
      show ?thesis
      proof (cases "x_consume x")
        case (Some e)
        with q on True no_consumer [of "''starting email consumer: '' @ e"] show ?thesis by simp
      next
        case None
        with q on True opened [of "Some (wk_Concurrency (c_Workers (cfg s)))"] show ?thesis by simp
      qed
    qed
  qed
qed

lemma later_steps [simp]:
  "cfg (setupRealtime (setupEventBus s)) = cfg s" "opened (setupRealtime (setupEventBus s)) = opened s"
  "pool (setupRealtime (setupEventBus s)) = pool s" "redis (setupRealtime (setupEventBus s)) = redis s"
  "qmgr (setupRealtime (setupEventBus s)) = qmgr s"
  "http_addr (setupRealtime (setupEventBus s)) = http_addr s"
  "event_bus (setupRealtime (setupEventBus s))
     = Some (setupRealtime_bus (ws_Enabled (c_WebSocket (cfg s))) New)"
  by (simp_all add: setupRealtime_def setupEventBus_def setupRealtime_bus_def)

lemma final_steps [simp]:
  "opened (setupDocs (setupRouter s)) = opened s"
  "http_addr (setupDocs (setupRouter s)) = Some (Addr (cfg s))"
  "pool (setupDocs (setupRouter s)) = pool s" "redis (setupDocs (setupRouter s)) = redis s"
  "qmgr (setupDocs (setupRouter s)) = qmgr s" "event_bus (setupDocs (setupRouter s)) = event_bus s"
  by (simp_all add: setupDocs_def setupRouter_def Let_def)

text \<open>
  C27. \<open>Shutdown\<close> closes every connection that \<open>Setup\<close> left open, each once and in the reverse order, and
  before them the HTTP server where it was built; so it would after a set-up that failed half way,
  and a step that fails leaves nothing open that the server does not hold, neither the pool nor the
  Redis client after a failed ping nor the queue's connection after a failed declaration.  A
  successful set-up opened the pool, then Redis and the queue where they are enabled, each with the
  address and the sizes that the configuration and the environment give it, wired the event bus for
  exactly these and built the HTTP server, which does not listen before \<open>Start\<close>; a failed one has none.
\<close>
theorem shutdown_reverses_setup:
  assumes "Setup x env (server_New c web) = (err, s)"
  shows "Shutdown s = (if err = None then [HttpServer] else []) @ rev (opened s) \<and> distinct (opened s)
    \<and> (err \<noteq> None \<longrightarrow> http_addr s = None)
    \<and> (err = None \<longrightarrow> opened s = [DatabasePool]
          @ (if red_Enabled (c_Redis c) then [RedisClient] else [])
          @ (if mq_Enabled (c_RabbitMQ c) then [QueueManager] else [])
        \<and> http_addr s = Some (Addr c)
        \<and> (\<exists>p. pool s = Some p \<and> ConnString p = DSN env c \<and> MaxConns p = int32 (db_PoolSize (c_Database c)))
        \<and> map_option rdb (redis s)
            = (if red_Enabled (c_Redis c) then Some (x_redis x (redis_settings env c)) else None)
        \<and> qmgr s = (if mq_Enabled (c_RabbitMQ c) then Some (queue_settings x env c) else None)
        \<and> event_bus s = Some (server_bus (ws_Enabled (c_WebSocket c)) (mq_Enabled (c_RabbitMQ c))))"
proof -
  let ?s0 = "server_New c web"
  note new = server_New_def [of c web]
  show ?thesis
  proof (cases rule: setupDatabase_cases [of x env ?s0])
    case (failed e)
    with assms show ?thesis by (auto simp: Setup_def Shutdown_def new)
  next
    case (opened p)
    let ?s1 = "?s0\<lparr>opened := opened ?s0 @ [DatabasePool], pool := Some p\<rparr>"
    have p: "ConnString p = DSN env c" "MaxConns p = int32 (db_PoolSize (c_Database c))"
      using opened(2,3) by (simp_all add: new)
    have s1: "Setup x env ?s0 = (case setupRedis x env ?s1 of (Some err, s) \<Rightarrow> (Some err, s)
        | (None, s) \<Rightarrow> (case setupQueue x env (setupRealtime (setupEventBus s)) of
            (Some err, s) \<Rightarrow> (Some err, s)
          | (None, s) \<Rightarrow> (None, setupDocs (setupRouter (server_setupEventHandlers s)))))"
      using opened(1) by (simp add: Setup_def)
    have step: "?thesis" if s2: "setupRedis x env ?s1 = (None, s2)"
        "s2 = ?s1 \<and> \<not> red_Enabled (c_Redis c)
         \<or> s2 = ?s1\<lparr>redis := Some \<lparr>rdb = x_redis x (redis_settings env c)\<rparr>, opened := opened ?s1 @ [RedisClient]\<rparr> \<and> red_Enabled (c_Redis c)" for s2
    proof (cases rule: setupQueue_cases [of "setupRealtime (setupEventBus s2)" x env])
      case off
      with assms s1 s2 p show ?thesis
        by (auto simp: Shutdown_def new server_setupEventHandlers_def server_bus_def)
    next
      case (failed e)
      with assms s1 s2 show ?thesis by (auto simp: Shutdown_def new)
    next
      case (no_consumer e)
      with assms s1 s2 show ?thesis by (auto simp: Shutdown_def new)
    next
      case (opened k)
      with assms s1 s2 p show ?thesis
        by (auto simp: Shutdown_def new server_setupEventHandlers_def server_bus_def)
    qed
    show ?thesis
    proof (cases rule: setupRedis_cases [of ?s1 x env])
      case off
      with step [of ?s1] show ?thesis by (simp add: new)
    next
      case (failed e)
      with assms s1 show ?thesis by (auto simp: Shutdown_def new)
    next
      case opened
      with step [of "?s1\<lparr>redis := Some \<lparr>rdb = x_redis x (redis_settings env c)\<rparr>, opened := opened ?s1 @ [RedisClient]\<rparr>"] show ?thesis
        by (simp add: new)
    qed
  qed
qed

definition calm_redis :: "unit redis_lib" where
  "calm_redis = \<lparr>r_ping = (\<lambda>_. None), r_get = (\<lambda>_ _. Inl ErrCacheMiss), r_set = (\<lambda>_ _ _ s. (None, s)),
     r_del = (\<lambda>_ s. (None, s)), r_close = (\<lambda>s. (None, s)), r_exists = (\<lambda>_ _. Inr 0)\<rparr>"

definition calm_startup :: startup where
  "calm_startup = \<lparr>x_parse_dsn = (\<lambda>_. None), x_new_pool = (\<lambda>_. None), x_ping_db = (\<lambda>_. None),
     x_redis = (\<lambda>_. calm_redis), x_dial = (\<lambda>_. None), x_channel = None, x_declare = (\<lambda>_. None),
     x_backoff = (\<lambda>_. None), x_consume = None\<rparr>"

theorem shutdown_reverses_setup_witness:
  "\<exists>s. Setup calm_startup Map.empty (server_New sample_config True) = (None, s)
     \<and> Shutdown s = [HttpServer, DatabasePool]"
proof -
  let ?r = "Setup calm_startup Map.empty (server_New sample_config True)"
  have off: "\<not> red_Enabled (c_Redis sample_config)" "\<not> mq_Enabled (c_RabbitMQ sample_config)"
    by (simp_all add: sample_config_def)
  obtain s where s: "?r = (None, s)"
  proof (cases rule: setupDatabase_cases [of calm_startup Map.empty "server_New sample_config True"])
    case (failed e)
    then show ?thesis by (simp add: setupDatabase_def Connect_def calm_startup_def Let_def)
  next
    case (opened p)
    with off that show ?thesis
      by (simp add: Setup_def setupRedis_def setupQueue_def server_New_def)
  qed
  with shutdown_reverses_setup [OF s] off show ?thesis by simp
qed

end
