(* ===== verification/Routes.thy ===== *)
theory Routes
  imports Server
begin

text \<open>
  Where a request goes: the routes \<open>setupRouter\<close> and \<open>setupDocs\<close> of \<open>server/server.go\<close> leave on the
  router, in order, and what first-match routing makes of them.
\<close>

section \<open>What set-up leaves behind\<close>

lemma setupDatabase_frame:
  "setupDatabase x env s = (e, s') \<Longrightarrow> cfg s' = cfg s \<and> web_handler s' = web_handler s \<and> has_hub s' = has_hub s"
  by (cases rule: setupDatabase_cases [of x env s]) auto

lemma setupRedis_frame:
  "setupRedis x env s = (e, s') \<Longrightarrow> cfg s' = cfg s \<and> web_handler s' = web_handler s \<and> has_hub s' = has_hub s"
  by (cases rule: setupRedis_cases [of s x env]) auto

lemma setupQueue_frame:
  "setupQueue x env s = (e, s') \<Longrightarrow> cfg s' = cfg s \<and> web_handler s' = web_handler s \<and> has_hub s' = has_hub s"
  by (cases rule: setupQueue_cases [of s x env]) auto

text \<open>A set-up that succeeds ends with the router and the documentation, on the given settings.\<close>

lemma Setup_done:
  assumes "Setup x env (server_New c web) = (None, s)"
  obtains s1 where "s = setupDocs (setupRouter s1)" "cfg s1 = c" "web_handler s1 = web"
    "has_hub s1 = ws_Enabled (c_WebSocket c)"
proof -
  obtain s2 where d: "setupDatabase x env (server_New c web) = (None, s2)"
    using assms by (auto simp: Setup_def split: prod.splits option.splits)
  obtain s3 where r: "setupRedis x env s2 = (None, s3)"
    using assms d by (auto simp: Setup_def split: prod.splits option.splits)
  obtain s4 where q: "setupQueue x env (setupRealtime (setupEventBus s3)) = (None, s4)"
    using assms d r by (auto simp: Setup_def split: prod.splits option.splits)
  have s: "s = setupDocs (setupRouter (server_setupEventHandlers s4))"
    using assms d r q by (simp add: Setup_def)
  have "cfg s3 = c \<and> web_handler s3 = web \<and> has_hub s3 = False"
    using setupDatabase_frame [OF d] setupRedis_frame [OF r] by (simp add: server_New_def)
  then have "cfg s4 = c \<and> web_handler s4 = web \<and> has_hub s4 = ws_Enabled (c_WebSocket c)"
    using setupQueue_frame [OF q] by (simp add: setupRealtime_def setupEventBus_def)
  with s that [of "server_setupEventHandlers s4"] show ?thesis
    by (simp add: server_setupEventHandlers_def)
qed

definition ws_route :: "Config \<Rightarrow> route list" where
  "ws_route c = (if ws_Enabled (c_WebSocket c)
     then [\<lparr>route_path = ExactPath (ws_Path (c_WebSocket c)), route_methods = None,
            route_endpoint = WebSocketEP\<rparr>] else [])"

definition web_route :: "bool \<Rightarrow> route list" where
  "web_route web = (if web
     then [\<lparr>route_path = PathPrefix ''/'', route_methods = None, route_endpoint = WebEP\<rparr>] else [])"

definition docs_routes :: "Config \<Rightarrow> route list" where
  "docs_routes c = (if sw_Enabled (c_Swagger c)
     then [\<lparr>route_path = ExactPath (sw_Path (c_Swagger c) @ ''/openapi.yaml''), route_methods = None,
            route_endpoint = OpenAPIEP\<rparr>,
           \<lparr>route_path = ExactPath (sw_Path (c_Swagger c)), route_methods = None,
            route_endpoint = DocsEP\<rparr>] else [])"

definition mw_chain :: "Config \<Rightarrow> mw_use list" where
  "mw_chain c =
     (if rid_Enabled (mw_RequestID (c_Middlewares c)) then [UseRequestID] else [])
     @ (if cors_Enabled (sec_CORS (c_Security c)) then [UseCORS] else [])
     @ (if rate_Enabled (sec_RateLimit (c_Security c))
        then [UseRateLimit (rate_MaxRequests (sec_RateLimit (c_Security c)))
                (seconds_duration (rate_WindowSeconds (sec_RateLimit (c_Security c))))] else [])
     @ (if mw_Logger (c_Middlewares c) then [UseLogger (srv_Environment (c_Server c))] else [])"

lemma Setup_routes:
  assumes "Setup x env (server_New c web) = (None, s)"
  shows "routes s = modules_Register (srv_APIPrefix (c_Server c)) @ ws_route c @ web_route web @ docs_routes c"
    "chain s = mw_chain c" "cfg s = c"
proof -
  obtain s1 where "s = setupDocs (setupRouter s1)" "cfg s1 = c" "web_handler s1 = web"
    "has_hub s1 = ws_Enabled (c_WebSocket c)"
    by (rule Setup_done [OF assms])
  then show "routes s = modules_Register (srv_APIPrefix (c_Server c)) @ ws_route c @ web_route web @ docs_routes c"
    "chain s = mw_chain c" "cfg s = c"
    by (simp_all add: setupDocs_def setupRouter_def Let_def ws_route_def web_route_def docs_routes_def mw_chain_def)
qed

section \<open>Routing\<close>

lemma mux_first:
  assumes "mux_first_match m" "find (\<lambda>r. route_accepts r meth path) rs = Some r"
    and "plain_routes rs" "clean_path path"
  shows "m rs meth path = Some (route_endpoint r)"
proof -
  obtain i where i: "i < length rs" "route_accepts (rs ! i) meth path" "r = rs ! i"
      "\<And>j. j < i \<Longrightarrow> \<not> route_accepts (rs ! j) meth path"
    using assms(2) by (auto simp: find_Some_iff)
  have "\<forall>r' \<in> set (take i rs). \<not> route_accepts r' meth path"
    using i(1,4) by (auto simp: in_set_conv_nth)
  moreover have "rs = take i rs @ r # drop (Suc i) rs"
    using i(1,3) by (simp add: id_take_nth_drop)
  ultimately show ?thesis
    using assms(1,3,4) i(2,3) unfolding mux_first_match_def by metis
qed

text \<open>The routes before the frontend are exact paths of the API and the WebSocket path.\<close>

lemma api_accepts:
  "(\<exists>r \<in> set (modules_Register pre). route_accepts r meth path)
     \<longleftrightarrow> meth = ''GET'' \<and> (path = pre @ ''/health'' \<or> path = pre @ ''/auth/me'')
       \<or> meth = ''POST'' \<and> (path = pre @ ''/auth/register'' \<or> path = pre @ ''/auth/login''
           \<or> path = pre @ ''/auth/refresh'')"
  by (auto simp: modules_Register_def healthRoutes_def authControllerRoutes_def route_accepts_def)

definition sample_mux :: mux where
  "sample_mux rs meth path = map_option route_endpoint (find (\<lambda>r. route_accepts r meth path) rs)"

lemma sample_mux_ok: "mux_first_match sample_mux" "mux_misses sample_mux"
proof -
  show "mux_first_match sample_mux"
    unfolding mux_first_match_def
  proof (intro allI impI)
    fix pre r post meth path
    assume "plain_routes (pre @ r # post) \<and> clean_path path \<and> route_accepts r meth path \<and> (\<forall>r' \<in> set pre. \<not> route_accepts r' meth path)"
    then have "route_accepts r meth path" "\<forall>r' \<in> set pre. \<not> route_accepts r' meth path" by blast+
    then have "find (\<lambda>r. route_accepts r meth path) (pre @ r # post) = Some r"
      by (induction pre) auto
    then show "sample_mux (pre @ r # post) meth path = Some (route_endpoint r)"
      by (simp add: sample_mux_def)
  qed
  show "mux_misses sample_mux"
    by (simp add: mux_misses_def sample_mux_def find_None_all)
qed

section \<open>The routing table\<close>

definition routing_table :: "Config \<Rightarrow> bool \<Rightarrow> bytes \<Rightarrow> bytes \<Rightarrow> endpoint option" where
  "routing_table c web meth path =
     (let pre = srv_APIPrefix (c_Server c); docs = sw_Path (c_Swagger c)
      in if meth = ''GET'' \<and> path = pre @ ''/health'' then Some HealthEP
         else if meth = ''POST'' \<and> path = pre @ ''/auth/register'' then Some RegisterEP
         else if meth = ''POST'' \<and> path = pre @ ''/auth/login'' then Some LoginEP
         else if meth = ''POST'' \<and> path = pre @ ''/auth/refresh'' then Some RefreshEP
         else if meth = ''GET'' \<and> path = pre @ ''/auth/me'' then Some MeEP
         else if ws_Enabled (c_WebSocket c) \<and> path = ws_Path (c_WebSocket c) then Some WebSocketEP
         else if web \<and> prefix ''/'' path then Some WebEP
         else if sw_Enabled (c_Swagger c) \<and> path = docs @ ''/openapi.yaml'' then Some OpenAPIEP
         else if sw_Enabled (c_Swagger c) \<and> path = docs then Some DocsEP
         else None)"

lemma find_append: "find P (xs @ ys) = (case find P xs of None \<Rightarrow> find P ys | Some x \<Rightarrow> Some x)"
  by (induction xs) simp_all

lemma find_routes:
  "map_option route_endpoint (find (\<lambda>r. route_accepts r meth path)
       (modules_Register pre @ ws_route c @ web_route web @ docs_routes c))
     = (if meth = ''GET'' \<and> path = pre @ ''/health'' then Some HealthEP
        else if meth = ''POST'' \<and> path = pre @ ''/auth/register'' then Some RegisterEP
        else if meth = ''POST'' \<and> path = pre @ ''/auth/login'' then Some LoginEP
        else if meth = ''POST'' \<and> path = pre @ ''/auth/refresh'' then Some RefreshEP
        else if meth = ''GET'' \<and> path = pre @ ''/auth/me'' then Some MeEP
        else map_option route_endpoint (find (\<lambda>r. route_accepts r meth path)
          (ws_route c @ web_route web @ docs_routes c)))"
  by (simp add: modules_Register_def healthRoutes_def authControllerRoutes_def route_accepts_def
      del: append_assoc)

lemma find_tail_routes:
  "map_option route_endpoint (find (\<lambda>r. route_accepts r meth path) (ws_route c @ web_route web @ docs_routes c))
     = (if ws_Enabled (c_WebSocket c) \<and> path = ws_Path (c_WebSocket c) then Some WebSocketEP
        else if web \<and> prefix ''/'' path then Some WebEP
        else if sw_Enabled (c_Swagger c) \<and> path = sw_Path (c_Swagger c) @ ''/openapi.yaml'' then Some OpenAPIEP
        else if sw_Enabled (c_Swagger c) \<and> path = sw_Path (c_Swagger c) then Some DocsEP
        else None)"
  by (simp add: find_append ws_route_def web_route_def docs_routes_def route_accepts_def)

text \<open>The configured paths are plain, and the prefix does not end in a slash.\<close>

definition plain_config :: "Config \<Rightarrow> bool" where
  "plain_config c \<longleftrightarrow> plain_template (srv_APIPrefix (c_Server c)) \<and> \<not> suffix ''/'' (srv_APIPrefix (c_Server c))
     \<and> plain_template (ws_Path (c_WebSocket c)) \<and> plain_template (sw_Path (c_Swagger c))"

lemma plain_template_append:
  "plain_template a \<Longrightarrow> prefix ''/'' b \<Longrightarrow> plain_template b \<Longrightarrow> plain_template (a @ b)"
  by (auto simp: plain_template_def)

lemma plain_routes_append [simp]: "plain_routes (rs @ rs') \<longleftrightarrow> plain_routes rs \<and> plain_routes rs'"
  by (simp add: plain_routes_def)

lemma plain_literals:
  "plain_template ''/''" "plain_template ''/openapi.yaml''" "plain_template ''/health''" "plain_template ''/auth''"
  "plain_template ''/register''" "plain_template ''/login''" "plain_template ''/refresh''" "plain_template ''/me''"
  by code_simp+

lemma Setup_routes_plain:
  assumes "Setup x env (server_New c web) = (None, s)" "plain_config c"
  shows "plain_routes (routes s)"
proof -
  have pre: "plain_template (srv_APIPrefix (c_Server c))" "plain_template (ws_Path (c_WebSocket c))"
    "plain_template (sw_Path (c_Swagger c))"
    using assms(2) by (simp_all add: plain_config_def)
  have api: "plain_template (srv_APIPrefix (c_Server c) @ b)" if "plain_template b" "prefix ''/'' b" for b
    using plain_template_append [OF pre(1)] that by blast
  have auth: "plain_template (srv_APIPrefix (c_Server c) @ ''/auth'' @ b)" if "plain_template b" "prefix ''/'' b" for b
    using plain_template_append [OF api [OF plain_literals(4)]] that by simp
  show ?thesis
    using api [OF plain_literals(3)] auth [OF plain_literals(5)] auth [OF plain_literals(6)]
      auth [OF plain_literals(7)] auth [OF plain_literals(8)] pre plain_literals(1)
      plain_template_append [OF pre(3) _ plain_literals(2)]
    by (simp add: Setup_routes(1) [OF assms(1)] plain_routes_def modules_Register_def healthRoutes_def
        authControllerRoutes_def ws_route_def web_route_def docs_routes_def)
qed

lemma routes_table:
  assumes "mux_first_match m" "mux_misses m" "Setup x env (server_New c web) = (None, s)"
    and "plain_config c" "clean_path path"
  shows "m (routes s) meth path = routing_table c web meth path"
proof -
  let ?f = "find (\<lambda>r. route_accepts r meth path) (routes s)"
  note plain = Setup_routes_plain [OF assms(3,4)] assms(5)
  have "m (routes s) meth path = map_option route_endpoint ?f"
  proof (cases ?f)
    case None
    with assms(2) plain show ?thesis by (simp add: mux_misses_def find_None_all)
  next
    case (Some r)
    with mux_first [OF assms(1) Some plain] show ?thesis by simp
  qed
  then show ?thesis
    by (simp only: Setup_routes(1) [OF assms(3)] find_routes find_tail_routes routing_table_def Let_def)
qed

text \<open>
  C17. After a successful set-up with plain paths in the configuration (no variables in braces, no slash
  at the end of the prefix) every request whose path is clean goes where the routing table says: the
  five API endpoints by method and path, the WebSocket path, then the frontend for every other path, and
  the documentation last; a request none of them takes is answered by the router itself.  Other
  paths, like \<open>//x\<close> or \<open>/a/../b\<close>, the router redirects to their clean form.
\<close>
theorem router_is_table:
  assumes "mux_first_match m" "mux_misses m" "Setup x env (server_New c web) = (None, s)"
    and "plain_config c" "clean_path path"
  shows "m (routes s) meth path = routing_table c web meth path"
  using assms by (rule routes_table)

lemma sample_paths:
  "plain_config (applyDefaults sample_config)" "clean_path ''/api/v1/auth/login''" "clean_path ''/api/v1/auth/me''"
  "clean_path ''/docs''" "clean_path ''/ws''"
  by code_simp+

lemma sample_setup:
  obtains s where "Setup calm_startup Map.empty (server_New (applyDefaults sample_config) web) = (None, s)"
proof (cases rule: setupDatabase_cases [of calm_startup Map.empty "server_New (applyDefaults sample_config) web"])
  case (failed e)
  then show ?thesis by (simp add: setupDatabase_def Connect_def calm_startup_def Let_def)
next
  case (opened p)
  have "\<not> red_Enabled (c_Redis (applyDefaults sample_config))"
    "\<not> mq_Enabled (c_RabbitMQ (applyDefaults sample_config))"
    by (simp_all add: sample_config_def applyDefaults_def)
  with opened that show ?thesis
    by (simp add: Setup_def setupRedis_def setupQueue_def server_New_def)
qed

theorem router_is_table_witness:
  "\<exists>s. Setup calm_startup Map.empty (server_New (applyDefaults sample_config) True) = (None, s)
     \<and> sample_mux (routes s) ''POST'' ''/api/v1/auth/login''
         = routing_table (applyDefaults sample_config) True ''POST'' ''/api/v1/auth/login''"
proof -
  obtain s where s: "Setup calm_startup Map.empty (server_New (applyDefaults sample_config) True) = (None, s)"
    by (rule sample_setup)
  with router_is_table [OF sample_mux_ok s sample_paths(1,2)] show ?thesis by blast
qed

text \<open>
  A server with a frontend does not serve its documentation: \<open>setupDocs\<close> adds its routes after the
  prefix \<open>/\<close>, so no path that starts with a slash reaches them.  Without the frontend they answer,
  unless the API or the WebSocket has taken the path.
\<close>
theorem docs_shadowed:
  assumes "mux_first_match m" "mux_misses m" "Setup x env (server_New c web) = (None, s)"
    and "plain_config c" "clean_path path"
  shows "(web \<longrightarrow> m (routes s) meth path \<notin> {Some DocsEP, Some OpenAPIEP})
    \<and> (\<not> web \<and> sw_Enabled (c_Swagger c) \<and> path = sw_Path (c_Swagger c) @ ''/openapi.yaml''
         \<and> routing_table c True meth path = Some WebEP \<longrightarrow> m (routes s) meth path = Some OpenAPIEP)"
proof -
  have t: "m (routes s) meth path = routing_table c web meth path"
    using assms by (rule routes_table)
  show ?thesis unfolding t using assms(5) by (auto simp: clean_path_def routing_table_def Let_def split: if_splits)
qed

theorem docs_shadowed_witness:
  "\<exists>s. Setup calm_startup Map.empty (server_New (applyDefaults sample_config) True) = (None, s)
     \<and> sample_mux (routes s) ''GET'' ''/docs'' \<notin> {Some DocsEP, Some OpenAPIEP}"
proof -
  obtain s where s: "Setup calm_startup Map.empty (server_New (applyDefaults sample_config) True) = (None, s)"
    by (rule sample_setup)
  with docs_shadowed [OF sample_mux_ok s sample_paths(1,4), of "''GET''"] show ?thesis by auto
qed

text \<open>
  Cross-origin preflight depends on the frontend.  With it, an \<open>OPTIONS\<close> request to any API path
  is routed to the frontend, so the CORS middleware runs and answers it; in API-only mode no route
  takes the request, and as the router runs its middlewares for matched routes only, a browser gets
  the router's own refusal without any CORS header.
\<close>
theorem preflight_needs_frontend:
  assumes "mux_first_match m" "mux_misses m" "Setup x env (server_New c web) = (None, s)"
    and "plain_config c" "clean_path path" "path \<noteq> ws_Path (c_WebSocket c)"
    and "path \<noteq> sw_Path (c_Swagger c)" "path \<noteq> sw_Path (c_Swagger c) @ ''/openapi.yaml''"
  shows "m (routes s) ''OPTIONS'' path = (if web then Some WebEP else None)"
proof -
  have "m (routes s) ''OPTIONS'' path = routing_table c web ''OPTIONS'' path"
    using assms(1-5) by (rule routes_table)
  with assms(5-8) show ?thesis by (simp add: clean_path_def routing_table_def Let_def)
qed

theorem preflight_needs_frontend_witness:
  "\<exists>s. Setup calm_startup Map.empty (server_New (applyDefaults sample_config) False) = (None, s)
     \<and> sample_mux (routes s) ''OPTIONS'' ''/api/v1/auth/login'' = None"
proof -
  obtain s where s: "Setup calm_startup Map.empty (server_New (applyDefaults sample_config) False) = (None, s)"
    by (rule sample_setup)
  have "ws_Path (c_WebSocket (applyDefaults sample_config)) = ''/ws''"
    "sw_Path (c_Swagger (applyDefaults sample_config)) = ''/docs''"
    by (simp_all add: applyDefaults_def sample_config_def dflt_def)
  with s preflight_needs_frontend [OF sample_mux_ok s sample_paths(1,2)] show ?thesis
    by simp
qed

end
