(* ===== verification/Web.thy ===== *)
theory Web
  imports Utf8 Handlers
begin

text \<open>
  Serving files: the frontend handler \<open>WebFS\<close> of \<open>fs_prod.go\<close> over the embedded directory
  \<open>web/dist\<close>, and the two documentation handlers of \<open>setupDocs\<close> in \<open>server/server.go\<close>.  An embedded
  file system is a map from valid paths to files and directories.  Of \<open>http.FileServer\<close> the plain
  answer is modelled, and the redirect it makes for \<open>/index.html\<close>; \<open>mime\<close> gives the content type of a
  name, range and conditional requests are left out.
\<close>

section \<open>Paths and file systems\<close>

datatype fs_entry = FsFile bytes | FsDir

text \<open>\<open>fs.ValidPath\<close>: UTF-8, and no empty, \<open>.\<close> or \<open>..\<close> element, or the path \<open>.\<close> itself.\<close>

definition valid_path :: "bytes \<Rightarrow> bool" where
  "valid_path name \<longleftrightarrow> utf8_chars name \<noteq> None
     \<and> (name = ''.'' \<or> (\<forall>e \<in> set (split_byte (CHR ''/'') name). e \<notin> {[], ''.'', ''..''}))"

definition fs_open :: "(bytes \<rightharpoonup> fs_entry) \<Rightarrow> bytes \<Rightarrow> fs_entry option" where
  "fs_open fsys name = (if valid_path name then fsys name else None)"

text \<open>\<open>http.FS\<close> takes paths with a leading slash and without.\<close>

definition http_fs_open :: "(bytes \<rightharpoonup> fs_entry) \<Rightarrow> bytes \<Rightarrow> fs_entry option" where
  "http_fs_open fsys name = fs_open fsys (if name = ''/'' then ''.'' else trim_prefix name ''/'')"

text \<open>\<open>path.Clean\<close> of a path that begins with a slash.\<close>

fun clean_elems :: "bytes list \<Rightarrow> bytes list \<Rightarrow> bytes list" where
  "clean_elems acc [] = rev acc"
| "clean_elems acc (e # es) =
     (if e = [] \<or> e = ''.'' then clean_elems acc es
      else if e = ''..'' then clean_elems (tl acc) es
      else clean_elems (e # acc) es)"

definition clean_rooted :: "bytes \<Rightarrow> bytes" where
  "clean_rooted p = CHR ''/'' # join_byte (CHR ''/'') (clean_elems [] (split_byte (CHR ''/'') p))"

section \<open>Answers of the standard library\<close>

definition http_Error :: "bytes \<Rightarrow> int \<Rightarrow> response \<Rightarrow> response" where
  "http_Error msg code w =
     Write (Text (msg @ [CHR 0x0A]))
       (WriteHeader code
          (set_header ''X-Content-Type-Options'' ''nosniff''
             (set_header ''Content-Type'' ''text/plain; charset=utf-8'' w)))"

definition file_server ::
  "(bytes \<Rightarrow> bytes) \<Rightarrow> (bytes \<rightharpoonup> fs_entry) \<Rightarrow> 'b request \<Rightarrow> response \<Rightarrow> response" where
  "file_server mime fsys r w =
     (if suffix ''/index.html'' (req_path r)
      then WriteHeader 301 (set_header ''Location''
             (''./'' @ (if req_query r = [] then [] else CHR ''?'' # req_query r)) w)
      else case http_fs_open fsys (clean_rooted (req_path r)) of
          Some (FsFile content) \<Rightarrow>
            (let w = WriteHeader 200 (set_header ''Content-Type'' (mime (req_path r)) w)
             in if req_method r = ''HEAD'' then w else Write (Text content) w)
        | _ \<Rightarrow> http_Error ''404 page not found'' 404 w)"

section \<open>The frontend\<close>

definition WebFS :: "(bytes \<Rightarrow> bytes) \<Rightarrow> (bytes \<rightharpoonup> fs_entry) \<Rightarrow> ('b, 'w) handler" where
  "WebFS mime sub r s =
     (let cleanPath = trim_prefix (req_path r) ''/''
      in case http_fs_open sub cleanPath of
           Some (FsFile _) \<Rightarrow> Done (fst s, file_server mime sub r (snd s))
         | _ \<Rightarrow>
             (case fs_open sub ''index.html'' of
                Some (FsFile index) \<Rightarrow>
                  Done (fst s, Write (Text index)
                    (WriteHeader 200 (set_header ''Content-Type'' ''text/html; charset=utf-8'' (snd s))))
              | _ \<Rightarrow>
                  Done (fst s, http_Error ''index.html not found in embedded filesystem'' 500 (snd s))))"

section \<open>The documentation\<close>

text \<open>The hint of both handlers where the file cannot be read; the dash is three bytes of UTF-8.\<close>

definition docs_hint :: bytes where
  "docs_hint = ''openapi.yaml not found '' @ [CHR 0xE2, CHR 0x80, CHR 0x94]
     @ '' run 'make docs' to generate it''"

definition openapi_handler :: "bytes fallible \<Rightarrow> ('b, 'w) handler" where
  "openapi_handler file_read r s =
     (case file_read of
        Inl _ \<Rightarrow> Done (fst s, http_Error docs_hint 404 (snd s))
      | Inr data \<Rightarrow>
          Done (fst s, Write (Text data)
            (WriteHeader 200 (set_header ''Content-Type'' ''application/yaml'' (snd s)))))"

text \<open>\<open>render\<close> is the Scalar library, from the specification to the page.\<close>

definition docs_handler ::
  "(bytes \<Rightarrow> bytes fallible) \<Rightarrow> bytes fallible \<Rightarrow> ('b, 'w) handler" where
  "docs_handler render file_read r s =
     (case file_read of
        Inl _ \<Rightarrow> Done (fst s, http_Error docs_hint 404 (snd s))
      | Inr spec \<Rightarrow>
          (case render spec of
             Inl err \<Rightarrow> Done (fst s, http_Error (''failed to render docs: '' @ err) 500 (snd s))
           | Inr html \<Rightarrow>
               Done (fst s, Write (Text html)
                 (WriteHeader 200
                   (set_header ''Content-Type'' ''text/html; charset=utf-8'' (snd s))))))"

section \<open>Lemmas\<close>

lemma status_http_Error [handler_simps]:
  "rsp_sent w = None \<Longrightarrow> status (http_Error msg code w) = Some code"
  by (simp add: http_Error_def status_def Write_def WriteHeader_def send_status_def set_header_def)

lemma rsp_body_http_Error [handler_simps]:
  "rsp_body (http_Error msg code w) = rsp_body w @ [Text (msg @ [CHR 0x0A])]"
  by (simp add: http_Error_def Write_def WriteHeader_def send_status_def set_header_def Let_def
      split: option.splits)

text \<open>Cleaning leaves a valid path alone, so the two layers open the same file.\<close>

lemma clean_elems_proper:
  "\<forall>e \<in> set es. e \<notin> {[], ''.'', ''..''} \<Longrightarrow> clean_elems acc es = rev acc @ es"
  by (induction es arbitrary: acc) auto

lemma clean_valid:
  assumes "valid_path q" "q \<noteq> ''.''"
  shows "clean_rooted (CHR ''/'' # q) = CHR ''/'' # q" "clean_rooted (CHR ''/'' # CHR ''/'' # q) = CHR ''/'' # q"
proof -
  have "\<forall>e \<in> set (split_byte (CHR ''/'') q). e \<notin> {[], ''.'', ''..''}"
    using assms by (simp add: valid_path_def)
  then have "clean_elems [] (split_byte (CHR ''/'') q) = split_byte (CHR ''/'') q"
    by (simp add: clean_elems_proper)
  then show "clean_rooted (CHR ''/'' # q) = CHR ''/'' # q"
    "clean_rooted (CHR ''/'' # CHR ''/'' # q) = CHR ''/'' # q"
    by (simp_all add: clean_rooted_def join_split_byte)
qed

lemma valid_path_Nil [simp]: "\<not> valid_path []"
  by (simp add: valid_path_def)

lemma http_fs_open_clean:
  assumes "http_fs_open fsys p = Some f"
  shows "http_fs_open fsys (clean_rooted (CHR ''/'' # p)) = Some f"
proof -
  define q where "q = (if p = ''/'' then ''.'' else trim_prefix p ''/'')"
  have q: "valid_path q" "fsys q = Some f"
    using assms by (auto simp: http_fs_open_def fs_open_def q_def split: if_splits)
  have p: "p = ''/'' \<and> q = ''.'' \<or> p = q \<or> p = CHR ''/'' # q"
  proof (cases p)
    case (Cons c cs)
    then show ?thesis by (cases "c = CHR ''/''") (simp_all add: q_def trim_prefix_def)
  qed (simp add: q_def trim_prefix_def)
  show ?thesis
  proof (cases "q = ''.''")
    case True
    with p have "p = ''/'' \<or> p = ''.'' \<or> p = ''/.''" by blast
    then have "clean_rooted (CHR ''/'' # p) = ''/''"
      by (elim disjE) (simp_all add: clean_rooted_def)
    with q True show ?thesis by (simp add: http_fs_open_def fs_open_def)
  next
    case False
    with p have "p = q \<or> p = CHR ''/'' # q" by blast
    with clean_valid [OF q(1) False] have "clean_rooted (CHR ''/'' # p) = CHR ''/'' # q" by auto
    moreover have "q \<noteq> []"
      using q(1) by (cases q) simp_all
    ultimately show ?thesis
      using q by (simp add: http_fs_open_def fs_open_def trim_prefix_def)
  qed
qed

text \<open>
  The frontend answers every request: a path that names an embedded file gets that file, except
  that a path ending in \<open>/index.html\<close> is redirected to its directory; every other path, a directory,
  a path with \<open>..\<close> in it or one that is no UTF-8, gets the start page with status 200, so that the
  client can route it.
\<close>
theorem spa_fallback:
  assumes "req_path r = CHR ''/'' # p" "rsp_sent (snd s) = None"
    and index: "fs_open sub ''index.html'' = Some (FsFile page)"
  shows "\<exists>w. WebFS mime sub r s = Done (fst s, w)
    \<and> (case http_fs_open sub p of
         Some (FsFile content) \<Rightarrow>
           if suffix ''/index.html'' (CHR ''/'' # p) then status w = Some 301
           else status w = Some 200
             \<and> (req_method r \<noteq> ''HEAD'' \<longrightarrow> rsp_body w = rsp_body (snd s) @ [Text content])
       | _ \<Rightarrow> status w = Some 200 \<and> rsp_body w = rsp_body (snd s) @ [Text page])"
proof (cases "\<exists>content. http_fs_open sub p = Some (FsFile content)")
  case True
  then obtain content where c: "http_fs_open sub p = Some (FsFile content)" by blast
  note http_fs_open_clean [OF c]
  with assms(1,2) c show ?thesis
    by (simp add: WebFS_def file_server_def trim_prefix_def status_def Write_def WriteHeader_def
        send_status_def set_header_def Let_def)
next
  case False
  then have "http_fs_open sub p = None \<or> http_fs_open sub p = Some FsDir"
    by (cases "http_fs_open sub p"; cases "the (http_fs_open sub p)") auto
  then show ?thesis
  proof
    assume "http_fs_open sub p = None"
    with assms show ?thesis
      by (simp add: WebFS_def trim_prefix_def status_def Write_def WriteHeader_def send_status_def
          set_header_def Let_def)
  next
    assume "http_fs_open sub p = Some FsDir"
    with assms show ?thesis
      by (simp add: WebFS_def trim_prefix_def status_def Write_def WriteHeader_def send_status_def
          set_header_def Let_def)
  qed
qed

theorem spa_fallback_witness:
  "\<exists>w. WebFS (\<lambda>_. ''text/javascript'') [''index.html'' \<mapsto> FsFile ''<html>'', ''_astro/a.js'' \<mapsto> FsFile ''js'']
       \<lparr>req_method = ''GET'', req_path = ''/_astro/../secret'', req_query = [], req_header = Map.empty,
        req_cookies = [], req_body = None, req_remote = [], req_vars = Map.empty, ctx_uid = None,
        ctx_body = None\<rparr> ((), new_response) = Done ((), w)
     \<and> status w = Some 200 \<and> rsp_body w = [Text ''<html>'']"
proof -
  let ?sub = "[''index.html'' \<mapsto> FsFile ''<html>'', ''_astro/a.js'' \<mapsto> FsFile ''js'']"
  have v: "valid_path ''index.html''" by code_simp
  have n: "http_fs_open ?sub ''_astro/../secret'' = None"
    by (simp add: http_fs_open_def fs_open_def trim_prefix_def)
  show ?thesis
    using spa_fallback [of "\<lparr>req_method = ''GET'', req_path = ''/_astro/../secret'', req_query = [],
        req_header = Map.empty, req_cookies = [], req_body = None, req_remote = [],
        req_vars = Map.empty, ctx_uid = None, ctx_body = None\<rparr>" "''_astro/../secret''"
        "((), new_response)" ?sub "''<html>''"] v n
    by (simp add: fs_open_def new_response_def)
qed

end
