(* ===== verification/Serving.thy ===== *)
theory Serving
  imports Routes Web
begin

text \<open>
  Serving one request on the server that \<open>Setup\<close> built: the router picks the endpoint, the chain of
  middlewares of \<open>setupRouter\<close> runs around its handler.  With \<open>Hub.ServeHTTP\<close> of
  \<open>server/internal/core/realtime/hub.go\<close>, the handler of the WebSocket path.
\<close>

section \<open>The WebSocket endpoint\<close>

text \<open>
  \<open>Upgrade\<close> of the library is given the verdict on the origin; it answers an error itself.
  \<open>i\<close> is the new connection.  The hello frame is queued before the pumps start; \<open>meanwhile\<close> is what the
  other goroutines do to the hub between the registration and that frame.
\<close>

type_synonym upgrader = "bool \<Rightarrow> body request \<Rightarrow> response \<Rightarrow> bytes option \<times> response"

definition hello_payload :: "bytes \<Rightarrow> gov" where
  "hello_payload remote =
     JObj [(''message'', JStr ''Connected to realtime server''), (''remote'', JStr remote)]"

definition writeJSON :: "bytes \<Rightarrow> gov \<Rightarrow> nat \<Rightarrow> hub \<Rightarrow> hub" where
  "writeJSON event payload i h =
     (case marshalFrame event payload of Inl _ \<Rightarrow> h | Inr frame \<Rightarrow> try_send frame i h)"

definition hub_ServeHTTP :: "upgrader \<Rightarrow> (hub \<Rightarrow> hub) \<Rightarrow> bytes list \<Rightarrow> nat \<Rightarrow> (body, sys) handler" where
  "hub_ServeHTTP upgrade meanwhile origins i r s =
     (let (err, rsp) = upgrade (CheckOrigin origins r) r (snd s); w = fst s
      in case err of
           Some e \<Rightarrow> Done (w\<lparr>s_log := s_log w @ [''[WS] Upgrade failed'']\<rparr>, rsp)
         | None \<Rightarrow>
             let h = meanwhile (hub_register i (s_hub w));
                 h = writeJSON ''system:hello'' (hello_payload (req_remote r)) i h
             in Done (w\<lparr>s_hub := start_pumps i h\<rparr>, rsp))"

text \<open>
  The steps of the others: those of the hub that leave a connection before its hello where it is, other
  than that its queue may fill.
\<close>

definition aside_step :: "nat \<Rightarrow> hub \<Rightarrow> hub \<Rightarrow> bool" where
  "aside_step i h h' \<longleftrightarrow> hub_step h h'
     \<and> (\<forall>c. conns h i = Some c \<and> reader c = NotStarted
            \<longrightarrow> (\<exists>c'. conns h' i = Some c' \<and> reader c' = NotStarted))"

definition runs_aside :: "nat \<Rightarrow> (hub \<Rightarrow> hub) \<Rightarrow> bool" where
  "runs_aside i f \<longleftrightarrow> (\<forall>h. (aside_step i)\<^sup>*\<^sup>* h (f h))"

lemma runs_aside_id: "runs_aside i id"
  by (simp add: runs_aside_def)

lemma aside_steps:
  assumes "(aside_step i)\<^sup>*\<^sup>* h h'"
  shows "hub_step\<^sup>*\<^sup>* h h'"
    and "conns h i = Some c \<Longrightarrow> reader c = NotStarted \<Longrightarrow> \<exists>c'. conns h' i = Some c' \<and> reader c' = NotStarted"
  using assms by (induction rule: rtranclp_induct) (auto simp: aside_step_def intro: rtranclp.rtrancl_into_rtrancl)

lemma hub_steps_inv: "hub_step\<^sup>*\<^sup>* h h' \<Longrightarrow> hub_inv h \<Longrightarrow> hub_inv h'"
  by (induction rule: rtranclp_induct) (auto intro: hub_step_inv)

text \<open>The handler after an accepted upgrade: its steps, and the queue of its client.\<close>

lemma connected:
  assumes "conns h i = None" "broadcasts h = []" "runs_aside i meanwhile" "hub_inv h"
    and f: "marshalFrame ''system:hello'' (hello_payload remote) = Inr frame"
  defines "h1 \<equiv> meanwhile (hub_register i h)"
  defines "h2 \<equiv> start_pumps i (writeJSON ''system:hello'' (hello_payload remote) i h1)"
  obtains c where "hub_step\<^sup>*\<^sup>* h h2" "hub_inv h2" "conns h1 i = Some c" "i \<in> members h2"
    "conns h2 i = Some (c\<lparr>send_buf := (if length (send_buf c) < 256 then send_buf c @ [frame] else send_buf c),
       reader := Reading, writing := True\<rparr>)"
proof -
  have reg: "hub_step h (hub_register i h)"
    using assms(1,2) by (rule hub_step.connect)
  have new: "conns (hub_register i h) i = Some new_client" "reader new_client = NotStarted"
    by (simp_all add: hub_register_def new_client_def)
  have aside: "(aside_step i)\<^sup>*\<^sup>* (hub_register i h) h1" using assms(3) by (simp add: runs_aside_def h1_def)
  obtain c where c: "conns h1 i = Some c" "reader c = NotStarted"
    using aside_steps(2) [OF aside new] by blast
  have h2: "h2 = start_pumps i (try_send frame i h1)" by (simp add: h2_def writeJSON_def f)
  have "hub_step h1 h2" unfolding h2 by (rule hub_step.hello [OF c])
  then have run: "hub_step\<^sup>*\<^sup>* h h2"
    using reg aside_steps(1) [OF aside]
    by (meson converse_rtranclp_into_rtranclp rtranclp.rtrancl_into_rtrancl)
  have h1: "hub_inv h1"
    by (rule hub_steps_inv [OF _ assms(4)]) (use reg aside_steps(1) [OF aside] in simp)
  then have "\<not> send_closed c" using hub_invD(2) [OF _ c(1)] c(2) by simp
  then have conn: "conns h2 i = Some (c\<lparr>send_buf := (if length (send_buf c) < 256 then send_buf c @ [frame] else send_buf c),
       reader := Reading, writing := True\<rparr>)"
    by (simp add: h2 try_send_def start_pumps_def c(1))
  have inv: "hub_inv h2" by (rule hub_steps_inv [OF run assms(4)])
  with hub_invD(3) [OF inv conn] that [OF run inv c(1) _ conn] show ?thesis by simp
qed

text \<open>
  What the library documents: without \<open>http.Hijacker\<close> on the writer the upgrade fails, and so it does
  for an origin that was turned down.  The wrapper of the access log, which embeds the interface
  \<open>http.ResponseWriter\<close>, is no hijacker.
\<close>

definition needs_hijacker :: "upgrader \<Rightarrow> bool" where
  "needs_hijacker upgrade \<longleftrightarrow>
     (\<forall>ok r rsp. rsp_capture rsp \<noteq> None \<or> \<not> ok \<longrightarrow> fst (upgrade ok r rsp) \<noteq> None)"

section \<open>One request\<close>

text \<open>What the outside decides for one request: clocks, libraries, files, faults.\<close>

record per_request =
  q_logger_ok :: bool
  q_uuid :: "bytes fallible"
  q_now :: int
  q_file_ok :: bool
  q_start :: int
  q_finish :: int
  q_svc :: svc_env
  q_dec :: decoders
  q_out :: outside
  q_probe :: health_probe
  q_upgrade :: upgrader
  q_conn :: nat
  q_meanwhile :: "hub \<Rightarrow> hub"
  q_mime :: "bytes \<Rightarrow> bytes"
  q_dist :: "bytes \<rightharpoonup> fs_entry"
  q_openapi :: "bytes fallible"
  q_render :: "bytes \<Rightarrow> bytes fallible"

primrec use_mw :: "per_request \<Rightarrow> mw_use \<Rightarrow> (body, sys) handler \<Rightarrow> (body, sys) handler" where
  "use_mw q UseRequestID = RequestIDMiddleware (q_logger_ok q) (q_uuid q)"
| "use_mw q UseCORS = CORSMiddleware (e_env (q_svc q))"
| "use_mw q (UseRateLimit maxRequests duration) = RateLimitMiddleware (q_now q)"
| "use_mw q (UseLogger env) = LoggerMiddleware env (q_file_ok q) (q_start q) (q_finish q)"

text \<open>The first middleware used is the outermost.\<close>

definition use_chain :: "per_request \<Rightarrow> mw_use list \<Rightarrow> (body, sys) handler \<Rightarrow> (body, sys) handler" where
  "use_chain q ms h = foldr (use_mw q) ms h"

definition endpoint_handler :: "per_request \<Rightarrow> server \<Rightarrow> endpoint \<Rightarrow> (body, sys) handler" where
  "endpoint_handler q s ep =
     (let E = q_svc q; D = q_dec q; bus = map_option (server_emitter (q_out q)) (event_bus s)
      in case ep of
           HealthEP \<Rightarrow> healthHandler (q_probe q)
         | RegisterEP \<Rightarrow> Validate (dec_register D) (RegisterInput_Validate (dec_unicode D)) RegisterBody
                           (register E bus)
         | LoginEP \<Rightarrow> Validate (dec_login D) (LoginInput_Validate (dec_unicode D)) LoginBody (login E bus)
         | RefreshEP \<Rightarrow> Validate (dec_refresh D) RefreshInput_Validate RefreshBody (refresh E)
         | MeEP \<Rightarrow> Guard (e_jwt E) (e_env E) (e_now E) (me E)
         | WebSocketEP \<Rightarrow> hub_ServeHTTP (q_upgrade q) (q_meanwhile q) (cors_Origins (sec_CORS (c_Security (cfg s)))) (q_conn q)
         | WebEP \<Rightarrow> WebFS (q_mime q) (q_dist q)
         | OpenAPIEP \<Rightarrow> openapi_handler (q_openapi q)
         | DocsEP \<Rightarrow> docs_handler (q_render q) (q_openapi q))"

text \<open>\<open>miss\<close> is the router's own answer where no route matches; no middleware runs then.\<close>

definition serve ::
  "per_request \<Rightarrow> mux \<Rightarrow> (body request \<Rightarrow> response \<Rightarrow> response) \<Rightarrow> server \<Rightarrow> (body, sys) handler" where
  "serve q m miss s r st =
     (case m (routes s) (req_method r) (req_path r) of
        None \<Rightarrow> Done (fst st, miss r (snd st))
      | Some ep \<Rightarrow> use_chain q (chain s) (endpoint_handler q s ep) r st)"

text \<open>The handlers of the auth endpoints are those of the controller.\<close>

lemma endpoints_of_controller:
  "map (\<lambda>(_, _, h). h) (auth_routes (q_dec q) (q_svc q) (map_option (server_emitter (q_out q)) (event_bus s)))
     = map (endpoint_handler q s) [RegisterEP, LoginEP, RefreshEP, MeEP]"
  by (simp add: auth_routes_def endpoint_handler_def Let_def)

section \<open>Transparent middlewares\<close>

text \<open>
  A middleware is transparent for a view of the state that it does not touch itself: a reflexive
  relation on the view that the wrapped handler keeps, it keeps too.
\<close>

locale transparent = middleware mw
  for mw :: "('b, 'w) handler \<Rightarrow> ('b, 'w) handler" +
  fixes view :: "'w \<Rightarrow> 'v"
  assumes keeps: "(\<And>r s. R (view (fst s)) (view (fst (run_state (h r s))))) \<Longrightarrow> reflp R
    \<Longrightarrow> R (view (fst s)) (view (fst (run_state (mw h r s))))"
begin

lemma keeps_view:
  assumes "\<And>r s. view (fst (run_state (h r s))) = view (fst s)"
  shows "view (fst (run_state (mw h r s))) = view (fst s)"
  using keeps [of "\<lambda>a b. b = a" h s r] assms by (simp add: reflp_def)

end

locale transparent_pair = outer: transparent mw1 view + inner: transparent mw2 view
  for mw1 mw2 :: "('b, 'w) handler \<Rightarrow> ('b, 'w) handler" and view :: "'w \<Rightarrow> 'v"

sublocale transparent_pair \<subseteq> middleware_pair mw1 mw2
  by unfold_locales

sublocale transparent_pair \<subseteq> chain: transparent "\<lambda>next. mw1 (mw2 next)" view
proof
  fix R :: "'v \<Rightarrow> 'v \<Rightarrow> bool" and h :: "('b, 'w) handler" and s r
  assume R: "\<And>r s. R (view (fst s)) (view (fst (run_state (h r s))))" "reflp R"
  show "R (view (fst s)) (view (fst (run_state (mw1 (mw2 h) r s))))"
    by (rule outer.keeps [OF inner.keeps [OF R] R(2)])
qed

context transparent_pair
begin

lemma chained: "transparent (\<lambda>next. mw1 (mw2 next)) view"
  by (rule chain.transparent_axioms)

end

text \<open>What no middleware of the server touches: everything but the limiter and the access logs.\<close>

definition beyond_web :: "sys \<Rightarrow> db \<times> hub \<times> broker \<times> AuditLogPayload list \<times> bytes list" where
  "beyond_web w = (database w, s_hub w, s_broker w, s_audit w, s_log w)"

lemma beyond_web_limiter [simp]:
  "beyond_web (w\<lparr>limiter := l\<rparr>) = beyond_web w" "beyond_web (w\<lparr>events_log := e\<rparr>) = beyond_web w"
  "beyond_web (w\<lparr>stdout_log := e\<rparr>) = beyond_web w" "beyond_web (log_incoming i w) = beyond_web w"
  by (simp_all add: beyond_web_def log_incoming_def)

interpretation t_request_id: transparent "RequestIDMiddleware logger_ok uuid :: (body, sys) handler \<Rightarrow> _" beyond_web
  for logger_ok uuid
proof
  fix R :: "_ \<Rightarrow> _ \<Rightarrow> bool" and h :: "(body, sys) handler" and s :: "sys \<times> response" and r :: "body request"
  assume R: "\<And>r s. R (beyond_web (fst s)) (beyond_web (fst (run_state (h r s))))" "reflp R"
  show "R (beyond_web (fst s)) (beyond_web (fst (run_state (RequestIDMiddleware logger_ok uuid h r s))))"
    using R(1) [of "(log_incoming (incoming uuid r) (fst s), snd s)" r]
      R(1) [of "(log_incoming (incoming uuid r) (fst s), set_header ''X-Request-ID'' (projr uuid) (snd s))" r]
      reflpD [OF R(2)]
    by (cases uuid) (simp_all add: RequestIDMiddleware_def Let_def)
qed

interpretation t_cors: transparent "CORSMiddleware env :: (body, sys) handler \<Rightarrow> _" beyond_web for env
proof
  fix R :: "_ \<Rightarrow> _ \<Rightarrow> bool" and h :: "(body, sys) handler" and s :: "sys \<times> response" and r :: "body request"
  assume R: "\<And>r s. R (beyond_web (fst s)) (beyond_web (fst (run_state (h r s))))" "reflp R"
  show "R (beyond_web (fst s)) (beyond_web (fst (run_state (CORSMiddleware env h r s))))"
    using R(1) [of "(fst s, _)" r] reflpD [OF R(2)] by (simp add: CORSMiddleware_def Let_def)
qed

interpretation t_rate_limit: transparent "RateLimitMiddleware now :: (body, sys) handler \<Rightarrow> _" beyond_web for now
proof
  fix R :: "_ \<Rightarrow> _ \<Rightarrow> bool" and h :: "(body, sys) handler" and s :: "sys \<times> response" and r :: "body request"
  assume R: "\<And>r s. R (beyond_web (fst s)) (beyond_web (fst (run_state (h r s))))" "reflp R"
  obtain ok rl where a: "allow (GetIP r) now (limiter (fst s)) = (ok, rl)" by fastforce
  show "R (beyond_web (fst s)) (beyond_web (fst (run_state (RateLimitMiddleware now h r s))))"
    using R(1) [of "((fst s)\<lparr>limiter := rl\<rparr>, snd s)" r] reflpD [OF R(2)] a
    by (simp add: RateLimitMiddleware_def Let_def)
qed

interpretation t_logger: transparent
  "LoggerMiddleware env file_ok start finish :: (body, sys) handler \<Rightarrow> _" beyond_web
  for env file_ok start finish
proof
  fix R :: "_ \<Rightarrow> _ \<Rightarrow> bool" and h :: "(body, sys) handler" and s :: "sys \<times> response" and r :: "body request"
  assume R: "\<And>r s. R (beyond_web (fst s)) (beyond_web (fst (run_state (h r s))))" "reflp R"
  show "R (beyond_web (fst s)) (beyond_web (fst (run_state (LoggerMiddleware env file_ok start finish h r s))))"
    using R(1) [of "(fst s, (snd s)\<lparr>rsp_capture := Some 200\<rparr>)" r]
    by (cases "h r (fst s, (snd s)\<lparr>rsp_capture := Some 200\<rparr>)")
      (simp_all add: LoggerMiddleware_def Let_def split_beta)
qed

text \<open>A chain of the server's middlewares, whatever the configuration switched on.\<close>

lemma transparent_use_mw: "transparent (use_mw q u) beyond_web"
  by (cases u) (simp_all add: t_request_id.transparent_axioms t_cors.transparent_axioms
      t_rate_limit.transparent_axioms t_logger.transparent_axioms)

interpretation server_chain: transparent "use_chain q ms" beyond_web for q ms
proof (induction ms)
  case Nil
  have id: "use_chain q [] = (\<lambda>h. h)"
    by (rule ext) (simp add: use_chain_def)
  show ?case unfolding id
  proof
    show "answers (\<lambda>h. h) r s \<or> (\<exists>r' s'. forwards (\<lambda>h. h) r s r' s')"
      for r :: "body request" and s :: "sys \<times> response"
      by (rule mw_forward [where r' = r and s' = s]) simp_all
  qed
next
  case (Cons u ms)
  then have "transparent_pair (use_mw q u) (use_chain q ms) beyond_web"
    by (intro transparent_pair.intro transparent_use_mw)
  then have "transparent (\<lambda>h. use_mw q u (use_chain q ms h)) beyond_web"
    by (rule transparent_pair.chained)
  then show ?case by (simp add: use_chain_def [abs_def])
qed

interpretation id_then_cors: transparent_pair
  "RequestIDMiddleware logger_ok uuid :: (body, sys) handler \<Rightarrow> _" "CORSMiddleware env" beyond_web
  for logger_ok uuid env
  by unfold_locales

interpretation limit_then_log: middleware_pair
  "RateLimitMiddleware now :: (body, sys) handler \<Rightarrow> _" "LoggerMiddleware env file_ok start finish"
  for now env file_ok start finish
  by unfold_locales

end
