(* ===== verification/Auth_Security.thy ===== *)
theory Auth_Security
  imports Auth_Properties
begin

text \<open>
  The security side of the auth module: what the guards let through, which token opens what, what
  a failed login tells, and that no answer depends on a stored password.
\<close>

section \<open>The guards\<close>

lemma Verify_Inr:
  assumes "Verify lib now ts tok = Inr c"
  obtains t where "jwt_parse lib now tok (verify_keyfunc ts) = Inr t" "tok_valid t"
    "tok_claims t = MapClaims c"
  using assms by (auto simp: Verify_def split: sum.splits if_splits claims_kind.splits)

lemma verify_keyfunc_hmac:
  assumes "verify_keyfunc ts t = Inr k"
  obtains alg where "tok_method t = HMAC alg" "k = key ts"
  using assms by (auto simp: verify_keyfunc_def split: sig_method.splits)

lemma Guard_cases:
  obtains (refused) m where
      "\<And>next. Guard lib env now next r s = Done (fst s, unauthorized r m (snd s))"
      "\<And>next. OptionalGuard lib env now next r s = next r s"
  | (admitted) c uid where "extractToken r \<noteq> []"
      "Verify lib now (access_signer env) (extractToken r) = Inr c" "uid_claim c = Some uid"
      "\<And>next. Guard lib env now next r s = next (r\<lparr>ctx_uid := Some uid\<rparr>) s"
      "\<And>next. OptionalGuard lib env now next r s = next (r\<lparr>ctx_uid := Some uid\<rparr>) s"
proof (cases "extractToken r = []")
  case True
  then show ?thesis using refused by (simp add: Guard_def OptionalGuard_def)
next
  case False
  show ?thesis
  proof (cases "Verify lib now (access_signer env) (extractToken r)")
    case (Inl e)
    with False refused show ?thesis by (simp add: Guard_def OptionalGuard_def)
  next
    case (Inr c)
    with False that show ?thesis
      by (cases "uid_claim c") (simp_all add: Guard_def OptionalGuard_def)
  qed
qed

text \<open>
  C6. A request reaches a guarded handler only with a token that the library parsed as valid under
  an HMAC method, for the access key, whose \<open>uid\<close> claim is a non-empty text; the handler then finds
  exactly this text in the context.  A token that names another algorithm never gets a key, so it
  cannot pass, whatever the library does with it.
\<close>
theorem guard_admits_hmac_only:
  assumes "jwt_asks_key lib" and "Guard lib env now next r s \<noteq> Guard lib env now next' r s"
  shows "\<exists>t alg c uid. jwt_parse lib now (extractToken r) (verify_keyfunc (access_signer env)) = Inr t
    \<and> tok_valid t \<and> tok_method t = HMAC alg \<and> tok_claims t = MapClaims c
    \<and> c ''uid'' = Some (JStr uid) \<and> uid \<noteq> []
    \<and> Guard lib env now next r s = next (r\<lparr>ctx_uid := Some uid\<rparr>) s"
proof (cases rule: Guard_cases [of lib env now r s])
  case (refused m)
  with assms(2) show ?thesis by simp
next
  case (admitted c uid)
  obtain t where t: "jwt_parse lib now (extractToken r) (verify_keyfunc (access_signer env)) = Inr t"
    "tok_valid t" "tok_claims t = MapClaims c"
    by (rule Verify_Inr [OF admitted(2)])
  then obtain k where "verify_keyfunc (access_signer env) (t\<lparr>tok_valid := False\<rparr>) = Inr k"
    using assms(1) unfolding jwt_asks_key_def by blast
  then obtain alg where "tok_method t = HMAC alg"
    by (auto elim: verify_keyfunc_hmac)
  moreover have "c ''uid'' = Some (JStr uid)" "uid \<noteq> []"
    using admitted(3) by (auto simp: uid_claim_def split: option.splits gov.splits if_splits)
  ultimately show ?thesis using t admitted(4) by blast
qed

theorem guard_admits_hmac_only_witness:
  "\<exists>tok t alg. jwt_parse sample_jwt 0 tok (verify_keyfunc (access_signer Map.empty)) = Inr t
     \<and> tok_method t = HMAC alg"
proof -
  obtain tok where tok: "Sign sample_jwt (NewTokenSigner ''change-me'') (StandardClaims 0 ''u'' access_ttl)
      = Inr tok" "tok \<noteq> []"
    using sample_sign [of 0 access_ttl "''change-me''" "''u''"]
    by (auto simp: access_ttl_def unix_def in_int64_def)
  let ?r = "sample_request tok"
  have e: "extractToken ?r = tok" by (simp add: extractToken_def sample_request_def)
  have "Guard sample_jwt Map.empty 0 h ?r ((), new_response)
      = h (?r\<lparr>ctx_uid := Some ''u''\<rparr>) ((), new_response)" for h
    by (rule Guard_signed [OF sample_jwt_ok(1) _ tok(1) _ _ _ e tok(2)])
      (simp_all add: GetEnv_def ascii_def access_ttl_def unix_def)
  then have "Guard sample_jwt Map.empty 0 (\<lambda>r s. Done s) ?r ((), new_response)
    \<noteq> Guard sample_jwt Map.empty 0 (\<lambda>r s. Panicked s) ?r ((), new_response)"
    by simp
  from guard_admits_hmac_only [OF sample_jwt_ok(3) this]
  show ?thesis by (auto simp: e)
qed

text \<open>
  C40. \<open>OptionalGuard\<close> never answers a request itself and agrees with \<open>Guard\<close>: where the one lets a
  request through the other passes it on with the same user id, where the one answers 401 the
  other passes the request on unchanged.
\<close>
theorem optional_guard_agrees:
  "(\<exists>uid. uid \<noteq> [] \<and> (\<forall>next. Guard lib env now next r s = next (r\<lparr>ctx_uid := Some uid\<rparr>) s)
      \<and> OptionalGuard lib env now h r s = h (r\<lparr>ctx_uid := Some uid\<rparr>) s)
   \<or> (\<exists>m. (\<forall>next. Guard lib env now next r s = Done (fst s, unauthorized r m (snd s)))
      \<and> OptionalGuard lib env now h r s = h r s)"
  by (cases rule: Guard_cases [of lib env now r s])
    (use uid_claim_nonempty in \<open>blast, blast\<close>)

section \<open>Tokens\<close>

lemma Login_signed:
  assumes "Login E bus l r w = Returned res w1" "StatusCode res = 200"
    and "response_field ''access_token'' res = Some acc"
      "response_field ''refresh_token'' res = Some ref"
  obtains u where "GetUserByEmail (e_lookup_fault E) (li_Email l) (database w) = Inr u"
      "Sign (e_jwt E) (NewTokenSigner (access_key E))
         (StandardClaims (e_now E) (UUID_String E (u_ID u)) access_ttl) = Inr acc"
      "Sign (e_jwt E) (NewTokenSigner (refresh_key E))
         (StandardClaims (e_now2 E) (UUID_String E (u_ID u)) refresh_ttl) = Inr ref"
proof -
  show ?thesis
    by (rule Login_tokens [OF assms(1,2)]) (rule that, use assms(3,4) in simp_all)
qed

text \<open>
  C16. The two tokens of a login are not interchangeable: with separate secrets the refresh endpoint
  refuses the access token and the guard refuses the refresh token, at any time.
\<close>
theorem tokens_not_interchangeable:
  assumes login: "Login E bus l r w = Returned res w1" "StatusCode res = 200"
    and tokens: "response_field ''access_token'' res = Some acc"
      "response_field ''refresh_token'' res = Some ref"
    and keys: "keys_separate (e_jwt E) (access_key E) (refresh_key E)"
      "keys_separate (e_jwt E) (refresh_key E) (access_key E)"
    and later: "e_jwt E2 = e_jwt E" "e_env E2 = e_env E" "extractToken r2 = ref" "ref \<noteq> []"
  shows "RefreshToken E2 \<lparr>rf_RefreshToken = acc\<rparr>
      = ApiError ''invalid or expired refresh token'' None 401
    \<and> Guard (e_jwt E2) (e_env E2) now next r2 s
      = Done (fst s, unauthorized r2 ''invalid or expired token'' (snd s))"
proof -
  obtain u :: user where a: "Sign (e_jwt E) (NewTokenSigner (access_key E))
         (StandardClaims (e_now E) (UUID_String E (u_ID u)) access_ttl) = Inr acc"
    and b: "Sign (e_jwt E) (NewTokenSigner (refresh_key E))
         (StandardClaims (e_now2 E) (UUID_String E (u_ID u)) refresh_ttl) = Inr ref"
    by (rule Login_signed [OF login tokens])
  have k: "access_key E2 = access_key E" "refresh_key E2 = refresh_key E"
    by (simp_all add: access_key_def refresh_key_def later(2))
  have "is_err (Verify (e_jwt E) (e_now E2) (NewTokenSigner (refresh_key E)) acc)"
    "is_err (Verify (e_jwt E) now (NewTokenSigner (access_key E)) ref)"
    using Verify_other_key [OF keys(1) a] Verify_other_key [OF keys(2) b] by blast+
  then show ?thesis
    using later k
    by (auto simp: RefreshToken_def Guard_def access_signer_def access_key_def is_err_def
        split: sum.splits)
qed

lemma sample_env_facts:
  "jwt_round_trip (e_jwt sample_env)" "jwt_refuses_expired (e_jwt sample_env)"
  "jwt_asks_key (e_jwt sample_env)" "uuid_codec sample_env" "kdf_length (e_kdf sample_env)"
  by (simp_all add: sample_env_codec) (simp_all add: sample_env_def sample_jwt_ok sample_kdf_ok)

lemma sample_user_db:
  assumes "u_ID u = \<lparr>Bytes = replicate 16 (CHR ''u''), Valid = True\<rparr>"
  shows "db_ok \<lparr>users = [u], audit_logs = []\<rparr>"
    "list_all (\<lambda>u. length (Bytes (u_ID u)) = 16) [u]"
  by (simp_all add: db_ok_def assms)

lemma sample_login_fields:
  "response_field ''access_token'' (login_response E u acc ref) = Some acc"
  "response_field ''refresh_token'' (login_response E u acc ref) = Some ref"
  "StatusCode (login_response E u acc ref) = 200"
  by (simp_all add: response_field_def login_response_def ApiSuccess_def)

theorem tokens_not_interchangeable_witness:
  "\<exists>(w :: app) acc ref w1 u. Login sample_env None sample_login (sample_request []) w
       = Returned (login_response sample_env u acc ref) w1
     \<and> RefreshToken sample_env \<lparr>rf_RefreshToken = acc\<rparr>
       = ApiError ''invalid or expired refresh token'' None 401
     \<and> Guard (e_jwt sample_env) (e_env sample_env) 0 (me sample_env) (sample_request ref) (w1, new_response)
       = Done (w1, unauthorized (sample_request ref) ''invalid or expired token'' new_response)"
proof -
  obtain u acc ref where s:
    "Login sample_env None sample_login (sample_request []) (sample_app\<lparr>database := \<lparr>users = [u], audit_logs = []\<rparr>\<rparr>)
       = Returned (login_response sample_env u acc ref)
           (sample_app\<lparr>database := \<lparr>users = [u], audit_logs = []\<rparr>\<rparr>)" "ref \<noteq> []"
    by (rule sample_session)
  have k: "keys_separate (e_jwt sample_env) (access_key sample_env) (refresh_key sample_env)"
    "keys_separate (e_jwt sample_env) (refresh_key sample_env) (access_key sample_env)"
    using sample_jwt_ok(4) [of "''change-me''" "''change-me-refresh''"]
      sample_jwt_ok(4) [of "''change-me-refresh''" "''change-me''"]
    by (simp_all add: sample_env_def access_key_def refresh_key_def GetEnv_def)
  have e: "extractToken (sample_request ref) = ref"
    by (simp add: extractToken_def sample_request_def)
  let ?w = "sample_app\<lparr>database := \<lparr>users = [u], audit_logs = []\<rparr>\<rparr>"
  have "RefreshToken sample_env \<lparr>rf_RefreshToken = acc\<rparr>
       = ApiError ''invalid or expired refresh token'' None 401
     \<and> Guard (e_jwt sample_env) (e_env sample_env) 0 (me sample_env) (sample_request ref) (?w, new_response)
       = Done (?w, unauthorized (sample_request ref) ''invalid or expired token'' new_response)"
    using tokens_not_interchangeable [OF s(1) sample_login_fields(3,1,2) k refl refl e s(2),
        of 0 "me sample_env" "(?w, new_response)"] by simp
  with s(1) show ?thesis by blast
qed

text \<open>
  C23. A refresh token keeps a session alive past the access token: until it expires, the refresh
  endpoint answers it with a new access token, and the guard admits that one, for its own lifetime,
  as the user who logged in.
\<close>
theorem refresh_extends_session:
  assumes lib: "jwt_round_trip (e_jwt E)" and ids: "uuid_codec E"
    and login: "Login E bus l r w = Returned res w1" "StatusCode res = 200"
    and db: "db_ok (database w)" "list_all (\<lambda>u. length (Bytes (u_ID u)) = 16) (users (database w))"
    and ref: "response_field ''refresh_token'' res = Some ref"
    and conf: "e_jwt E2 = e_jwt E" "e_env E2 = e_env E"
    and fresh: "e_now E2 < unix (e_now2 E + refresh_ttl) * 1000000000"
    and signs: "\<And>uid. \<exists>tok. Sign (e_jwt E) (NewTokenSigner (access_key E))
        (StandardClaims (e_now2 E2) uid access_ttl) = Inr tok \<and> tok \<noteq> []"
  shows "\<exists>u tok. GetUserByEmail None (li_Email l) (database w) = Inr u
    \<and> RefreshToken E2 \<lparr>rf_RefreshToken = ref\<rparr>
        = ApiSuccess ''token refreshed'' (Some (JObj [(''access_token'', JStr tok)])) 200
    \<and> (\<forall>now h r2 s. now < unix (e_now2 E2 + access_ttl) * 1000000000 \<longrightarrow> extractToken r2 = tok
        \<longrightarrow> Guard (e_jwt E2) (e_env E2) now h r2 s = h (r2\<lparr>ctx_uid := Some (UUID_String E (u_ID u))\<rparr>) s)"
proof -
  obtain u acc where u: "GetUserByEmail (e_lookup_fault E) (li_Email l) (database w) = Inr u"
    and sr: "Sign (e_jwt E) (NewTokenSigner (refresh_key E))
         (StandardClaims (e_now2 E) (UUID_String E (u_ID u)) refresh_ttl) = Inr ref"
    by (rule Login_tokens [OF login]) (use ref in simp)
  have "u \<in> set (users (database w))"
    using u by (auto simp: GetUserByEmail_Inr dest!: find_Some_in_set)
  then have "Valid (u_ID u)" "length (Bytes (u_ID u)) = 16"
    using db by (auto simp: db_ok_def list_all_iff)
  with ids have uid: "ascii (UUID_String E (u_ID u))" "UUID_String E (u_ID u) \<noteq> []"
    by (simp_all add: uuid_codec_def UUID_String_def)
  obtain tok where tok: "Sign (e_jwt E) (NewTokenSigner (access_key E))
        (StandardClaims (e_now2 E2) (UUID_String E (u_ID u)) access_ttl) = Inr tok" "tok \<noteq> []"
    using signs by blast
  obtain c where c: "Verify (e_jwt E) (e_now E2) (NewTokenSigner (refresh_key E)) ref = Inr c"
    "c ''uid'' = Some (JStr (UUID_String E (u_ID u)))"
    using Verify_Sign [OF lib sr uid(1) fresh] by blast
  have keys: "access_key E2 = access_key E" "refresh_key E2 = refresh_key E"
    by (simp_all add: access_key_def refresh_key_def conf)
  have "RefreshToken E2 \<lparr>rf_RefreshToken = ref\<rparr>
        = ApiSuccess ''token refreshed'' (Some (JObj [(''access_token'', JStr tok)])) 200"
    using c uid(2) tok(1) by (simp add: RefreshToken_def keys conf uid_claim_Some)
  moreover have "Guard (e_jwt E2) (e_env E2) now h r2 s = h (r2\<lparr>ctx_uid := Some (UUID_String E (u_ID u))\<rparr>) s"
    if "now < unix (e_now2 E2 + access_ttl) * 1000000000" "extractToken r2 = tok" for now h r2 s
    using Guard_signed [OF lib access_key_def tok(1) uid that tok(2)] by (simp add: conf)
  moreover have "GetUserByEmail None (li_Email l) (database w) = Inr u"
    using u by (simp add: GetUserByEmail_Inr)
  ultimately show ?thesis by blast
qed

theorem refresh_extends_session_witness:
  "\<exists>u acc ref tok (w :: app). Login sample_env None sample_login (sample_request []) w
       = Returned (login_response sample_env u acc ref) w
     \<and> RefreshToken sample_env \<lparr>rf_RefreshToken = ref\<rparr>
       = ApiSuccess ''token refreshed'' (Some (JObj [(''access_token'', JStr tok)])) 200"
proof -
  obtain u acc ref where s:
    "Login sample_env None sample_login (sample_request []) (sample_app\<lparr>database := \<lparr>users = [u], audit_logs = []\<rparr>\<rparr>)
       = Returned (login_response sample_env u acc ref)
           (sample_app\<lparr>database := \<lparr>users = [u], audit_logs = []\<rparr>\<rparr>)"
    "u_ID u = \<lparr>Bytes = replicate 16 (CHR ''u''), Valid = True\<rparr>"
    by (rule sample_session)
  have t: "e_now sample_env < unix (e_now2 sample_env + refresh_ttl) * 1000000000"
    by (simp add: sample_env_def refresh_ttl_def unix_def)
  have signs: "\<exists>tok. Sign (e_jwt sample_env) (NewTokenSigner (access_key sample_env))
        (StandardClaims (e_now2 sample_env) uid access_ttl) = Inr tok \<and> tok \<noteq> []" for uid
    using sample_sign [of 0 access_ttl] by (simp add: sample_env_def access_ttl_def unix_def in_int64_def)
  have "\<exists>tok. RefreshToken sample_env \<lparr>rf_RefreshToken = ref\<rparr>
       = ApiSuccess ''token refreshed'' (Some (JObj [(''access_token'', JStr tok)])) 200"
    using refresh_extends_session [OF sample_env_facts(1,4) s(1) sample_login_fields(3) _ _
        sample_login_fields(2) refl refl t signs] sample_user_db [OF s(2)]
    by auto
  with s(1) show ?thesis by blast
qed

text \<open>
  C24. The access token of a login dies with its lifetime: from the second its \<open>exp\<close> claim names,
  24 hours after the login rounded down to seconds, the guard answers 401 and never runs the handler.
\<close>
theorem expired_token_refused:
  assumes lib: "jwt_refuses_expired (e_jwt E)"
    and login: "Login E bus l r w = Returned res w1" "StatusCode res = 200"
    and tok: "response_field ''access_token'' res = Some acc" "extractToken r2 = acc" "acc \<noteq> []"
    and late: "unix (e_now E + access_ttl) * 1000000000 \<le> now"
  shows "Guard (e_jwt E) env now h r2 s = Done (fst s, unauthorized r2 ''invalid or expired token'' (snd s))"
proof -
  obtain u :: user where "Sign (e_jwt E) (NewTokenSigner (access_key E))
         (StandardClaims (e_now E) (UUID_String E (u_ID u)) access_ttl) = Inr acc"
    by (rule Login_tokens [OF login]) (use tok(1) in simp)
  then have "is_err (Verify (e_jwt E) now (access_signer env) acc)"
    unfolding access_signer_def by (rule Verify_expired [OF lib _ late])
  with tok(2,3) show ?thesis
    by (auto simp: Guard_def is_err_def split: sum.splits)
qed

theorem expired_token_refused_witness:
  "\<exists>acc. Guard (e_jwt sample_env) Map.empty access_ttl (me sample_env) (sample_request acc)
       (sample_app, new_response) = Done (sample_app, unauthorized (sample_request acc) ''invalid or expired token'' new_response)"
proof -
  obtain u acc ref where s:
    "Login sample_env None sample_login (sample_request []) (sample_app\<lparr>database := \<lparr>users = [u], audit_logs = []\<rparr>\<rparr>)
       = Returned (login_response sample_env u acc ref)
           (sample_app\<lparr>database := \<lparr>users = [u], audit_logs = []\<rparr>\<rparr>)" "acc \<noteq> []"
    by (rule sample_session)
  have "extractToken (sample_request acc) = acc"
    by (simp add: extractToken_def sample_request_def)
  moreover have "unix (e_now sample_env + access_ttl) * 1000000000 \<le> access_ttl"
    by (simp add: sample_env_def access_ttl_def unix_def)
  ultimately show ?thesis
    using expired_token_refused [OF sample_env_facts(2) s(1) sample_login_fields(3,1) _ s(2),
        where h = "me sample_env" and env = Map.empty and s = "(sample_app, new_response)"]
    by auto
qed

section \<open>What answers reveal\<close>

definition credentials_match :: "svc_env \<Rightarrow> LoginInput \<Rightarrow> db \<Rightarrow> bool" where
  "credentials_match E l d \<longleftrightarrow>
     (case GetUserByEmail (e_lookup_fault E) (li_Email l) d of
        Inl _ \<Rightarrow> False
      | Inr u \<Rightarrow> ComparePassword (e_kdf E) (u_Password u) (li_Password l) = Ret None)"

text \<open>
  C15. A login that returns answers 200, 401 or 500.  It answers 401 exactly where the credentials do
  not match, and then always with the same envelope: an unknown email, a wrong password, a damaged
  hash and a failing query cannot be told apart.  Only a 200 changes the state, that is, emits an
  audit event.
\<close>
theorem login_outcomes:
  assumes "Login E bus l r w = Returned res w1"
  shows "StatusCode res \<in> {200, 401, 500}
    \<and> (StatusCode res = 401 \<longleftrightarrow> \<not> credentials_match E l (database w))
    \<and> (StatusCode res = 401 \<longrightarrow> res = ApiError ''invalid credentials'' None 401)
    \<and> (StatusCode res \<noteq> 200 \<longrightarrow> w1 = w)"
  using assms
  by (auto simp: Login_def credentials_match_def ApiError_def ApiSuccess_def Let_def call_bind_Returned
      split: sum.splits go.splits option.splits)

theorem login_outcomes_witness:
  "\<exists>res. Login sample_env None sample_login (sample_request []) sample_app = Returned res sample_app
     \<and> res = ApiError ''invalid credentials'' None 401"
proof -
  have d: "database sample_app = empty_db" by (simp add: sample_app_def)
  have "GetUserByEmail fault m empty_db \<noteq> Inr u" for fault m u
    by (simp add: GetUserByEmail_Inr empty_db_def)
  then obtain e where e: "GetUserByEmail (e_lookup_fault sample_env) (li_Email sample_login) empty_db = Inl e"
    by (metis sumE)
  then have n: "\<not> credentials_match sample_env sample_login (database sample_app)"
    by (simp add: credentials_match_def d)
  obtain res where res: "Login sample_env None sample_login (sample_request []) sample_app
      = Returned res sample_app"
    using e by (simp add: Login_def d)
  with login_outcomes [OF res] n show ?thesis by auto
qed

text \<open>Two states of the tables that differ in stored passwords only.\<close>

definition same_user :: "user \<Rightarrow> user \<Rightarrow> bool" where
  "same_user u u' \<longleftrightarrow> (\<exists>p. u' = u\<lparr>u_Password := p\<rparr>)"

definition same_but_passwords :: "db \<Rightarrow> db \<Rightarrow> bool" where
  "same_but_passwords d d' \<longleftrightarrow>
     list_all2 same_user (users d) (users d') \<and> audit_logs d = audit_logs d'"

primrec answer_of :: "('r, 's) call \<Rightarrow> 'r option" where
  "answer_of (Returned res s) = Some res"
| "answer_of (Crashed s) = None"

lemma same_user_simps:
  assumes "same_user u u'"
  shows "SafeUser E u' = SafeUser E u" "u_ID u' = u_ID u" "u_Email u' = u_Email u"
  using assms by (auto simp: same_user_def SafeUser_def)

lemma find_same_user:
  assumes "list_all2 same_user us us'" and "\<And>u u'. same_user u u' \<Longrightarrow> P u' = P u"
  shows "rel_option same_user (find P us) (find P us')"
  using assms by (induction us us' rule: list_all2_induct) simp_all

lemma same_but_passwords_ids:
  assumes "same_but_passwords d d'"
  shows "u_ID ` set (users d') = u_ID ` set (users d)"
    "u_Email ` set (users d') = u_Email ` set (users d)"
proof -
  have "map u_ID us' = map u_ID us \<and> map u_Email us' = map u_Email us"
    if "list_all2 same_user us us'" for us us'
    using that by (induction us us' rule: list_all2_induct) (simp_all add: same_user_simps)
  then have "map u_ID (users d') = map u_ID (users d)" "map u_Email (users d') = map u_Email (users d)"
    using assms by (simp_all add: same_but_passwords_def)
  then show "u_ID ` set (users d') = u_ID ` set (users d)"
    "u_Email ` set (users d') = u_Email ` set (users d)"
    by (metis list.set_map)+
qed

lemma GetUserByEmail_same:
  assumes "same_but_passwords d d'"
  obtains (missing) e where "GetUserByEmail fault m d = Inl e" "GetUserByEmail fault m d' = Inl e"
  | (found) u u' where "same_user u u'"
      "GetUserByEmail fault m d = Inr u" "GetUserByEmail fault m d' = Inr u'"
proof -
  have "rel_option same_user (find (\<lambda>u. u_Email u = m) (users d)) (find (\<lambda>u. u_Email u = m) (users d'))"
    using assms unfolding same_but_passwords_def by (intro find_same_user) (simp_all add: same_user_simps)
  then have "rel_sum (=) same_user (GetUserByEmail fault m d) (GetUserByEmail fault m d')"
    by (cases "pg_text m")
      (auto simp: GetUserByEmail_def scan_one_def dest!: pg_text_Inr elim!: option.rel_cases split: option.splits)
  then show ?thesis using that by (auto elim: rel_sum.cases)
qed

lemma GetUserByID_same:
  assumes "same_but_passwords d d'"
  obtains (missing) e where "GetUserByID fault uid d = Inl e" "GetUserByID fault uid d' = Inl e"
  | (found) u u' where "same_user u u'"
      "GetUserByID fault uid d = Inr u" "GetUserByID fault uid d' = Inr u'"
proof -
  have "rel_option same_user (find (\<lambda>u. Valid uid \<and> Bytes (u_ID u) = Bytes uid) (users d))
      (find (\<lambda>u. Valid uid \<and> Bytes (u_ID u) = Bytes uid) (users d'))"
    using assms unfolding same_but_passwords_def by (intro find_same_user) (simp_all add: same_user_simps)
  then have "rel_sum (=) same_user (GetUserByID fault uid d) (GetUserByID fault uid d')"
    by (auto simp: GetUserByID_def scan_one_def elim!: option.rel_cases split: option.splits)
  then show ?thesis using that by (auto elim: rel_sum.cases)
qed

lemma Register_insert_same:
  assumes "same_but_passwords (database w) (database w')"
  shows "answer_of (Register_insert E None input r w) = answer_of (Register_insert E None input r w')"
proof -
  have "new_user uuid now arg (database w') = new_user uuid now arg (database w)" for uuid now arg
    unfolding new_user_def same_but_passwords_ids(1) [OF assms] same_but_passwords_ids(2) [OF assms] ..
  then show ?thesis
    by (simp add: Register_insert_def CreateUser_def split: go.splits sum.splits option.splits)
qed

text \<open>
  No answer of the account endpoints depends on a stored password hash: on tables that differ
  only there, \<open>Me\<close> answers the same, and so does \<open>Register\<close>.
\<close>
theorem answers_hide_passwords:
  assumes "same_but_passwords (database w) (database w')"
  shows "Me E uid w = Me E uid w'
    \<and> answer_of (Register E None input r w) = answer_of (Register E None input r w')"
proof
  show "Me E uid w = Me E uid w'"
  proof (cases "StringToUUID (e_uuid_scan E) (e_quote E) uid")
    case (Inr p)
    then show ?thesis
      by (cases rule: GetUserByID_same [OF assms, of "e_lookup_fault E" p])
        (simp_all add: Me_def same_user_simps(1))
  qed (simp add: Me_def)
  have "Register_taken E input (database w) = Register_taken E input (database w')"
    by (cases rule: GetUserByEmail_same [OF assms, of "e_lookup_fault E" "ri_Email input"])
      (simp_all add: Register_taken_def same_user_simps(2))
  then show "answer_of (Register E None input r w) = answer_of (Register E None input r w')"
    by (simp add: Register_def Register_insert_same [OF assms])
qed

definition hashed_user :: "bytes \<Rightarrow> user" where
  "hashed_user pw =
     \<lparr>u_ID = \<lparr>Bytes = replicate 16 (CHR ''u''), Valid = True\<rparr>, u_FirstName = ''Ann'', u_LastName = [],
      u_Email = ''a@b.c'', u_Password = pw, u_Verified = False, u_CreatedAt = 0, u_UpdatedAt = 0\<rparr>"

theorem answers_hide_passwords_witness:
  "Me sample_env (b64_encode (replicate 16 (CHR ''u'')))
     (sample_app\<lparr>database := \<lparr>users = [hashed_user ''x''], audit_logs = []\<rparr>\<rparr>)
   = Me sample_env (b64_encode (replicate 16 (CHR ''u'')))
     (sample_app\<lparr>database := \<lparr>users = [hashed_user ''y''], audit_logs = []\<rparr>\<rparr>)"
  by (rule conjunct1, rule answers_hide_passwords)
    (auto simp: same_but_passwords_def same_user_def sample_app_def hashed_user_def
      intro!: exI [of _ "''y''"])

end
