(* ===== verification/Traffic.thy ===== *)
theory Traffic
  imports Serving Auth_Security
begin

text \<open>
  What holds of the server under any traffic: requests of any kind, in any order, with the audit
  writes they started running in between.  A request that panics is cut off by \<open>net/http\<close>; what it
  did to the state stays.
\<close>

section \<open>What the endpoints do to the tables\<close>

definition hashed_password :: "user \<Rightarrow> bool" where
  "hashed_password u \<longleftrightarrow> (\<exists>salt key. u_Password u = phc_string defaultParams salt key)"

text \<open>Nothing, or one account whose password is hashed.\<close>

definition db_grows :: "db \<Rightarrow> db \<Rightarrow> bool" where
  "db_grows d d' \<longleftrightarrow> d' = d \<or>
     (\<exists>u uuid now arg. new_user uuid now arg d = Inr u \<and> hashed_password u
        \<and> d' = d\<lparr>users := users d @ [u]\<rparr>)"

lemma db_grows_refl [simp]: "db_grows d d"
  by (simp add: db_grows_def)

lemma new_user_hashed:
  assumes "new_user uuid now \<lparr>FirstName = f, LastName = l, Email = e, Passwd = h\<rparr> d = Inr u"
    "HashPassword rnd kdf pw = Ret (Inr h)"
  shows "hashed_password u"
proof -
  obtain v where "varchar 255 h = Inr v" "u_Password u = v"
    using assms(1) by (auto simp: new_user_def and_then_eq_Inr split: if_splits)
  then have "u_Password u = h" using varchar_hash [OF assms(2)] by simp
  moreover obtain salt key where "h = phc_string defaultParams salt key"
    by (rule HashPassword_Ret [OF assms(2)])
  ultimately show ?thesis by (auto simp: hashed_password_def)
qed

lemma Register_database:
  assumes "bus_ok bus"
  shows "db_grows (database w) (database (fst (run_state (respond (Register E bus input r w) rsp))))"
proof (cases "Register_taken E input (database w)")
  case True
  then show ?thesis by (simp add: Register_def respond_def)
next
  case False
  show ?thesis
  proof (cases rule: Register_insert_cases [OF assms, case_names crashed failed created, of E input r w])
    case crashed
    with False show ?thesis by (simp add: Register_def respond_def)
  next
    case (failed res)
    with False show ?thesis by (simp add: Register_def respond_def)
  next
    case (created hashed u d w')
    note cu = CreateUser_Inr [OF created(2)]
    have "db_grows (database w) d"
      unfolding db_grows_def cu(2) using new_user_hashed [OF cu(1) created(1)] cu(1) by blast
    with False created(3,4) show ?thesis by (simp add: Register_def respond_def)
  qed
qed

lemma Login_database:
  assumes "bus_ok bus"
  shows "database (fst (run_state (respond (Login E bus l r w) rsp))) = database w"
proof (cases bus)
  case None
  then show ?thesis
    by (simp add: Login_def respond_def Let_def split: sum.splits go.splits option.splits)
next
  case (Some b)
  show ?thesis
  proof (cases "\<exists>u. \<exists>w'. emit_audit b (audit_payload E ''login'' u r) w = Done w'")
    case True
    have "\<exists>w'. emit_audit b (audit_payload E ''login'' u r) w = Done w' \<and> database w' = database w" for u
      using assms Some by (blast elim: emit_audit_ok)
    then obtain f where "\<And>u. emit_audit b (audit_payload E ''login'' u r) w = Done (f u)"
        "\<And>u. database (f u) = database w" by metis
    with Some show ?thesis
      by (simp add: Login_def respond_def Let_def split: sum.splits go.splits option.splits)
  next
    case False
    with assms Some emit_audit_ok show ?thesis by metis
  qed
qed

lemma health_state: "fst (run_state (healthHandler p r s)) = fst s"
  by (simp add: healthHandler_def Let_def)

lemma files_state:
  "fst (run_state (WebFS mime dist r s)) = fst s" "fst (run_state (openapi_handler f r s)) = fst s"
  "fst (run_state (docs_handler render f r s)) = fst s"
  by (simp_all add: WebFS_def openapi_handler_def docs_handler_def Let_def
      split: option.splits sum.splits fs_entry.splits)

lemma hub_ServeHTTP_database:
  "database (fst (run_state (hub_ServeHTTP upg meanwhile origins i r s))) = database (fst s)"
  by (simp add: hub_ServeHTTP_def Let_def split: prod.splits option.splits)

lemma Guard_database:
  assumes "\<And>r s. database (fst (run_state (h r s))) = database (fst s)"
  shows "database (fst (run_state (Guard lib env now h r s))) = database (fst s)"
  using assms by (simp add: Guard_def Let_def split: sum.splits option.splits)

lemma Validate_database:
  assumes "\<And>r s. R (database (fst s)) (database (fst (run_state (h r s))))" "\<And>d. R d d"
  shows "R (database (fst s)) (database (fst (run_state (Validate dec val wrap h r s))))"
  using assms by (simp add: Validate_def split: sum.splits prod.splits option.splits)

lemma endpoint_database:
  assumes "bus_ok (map_option (server_emitter (q_out q)) (event_bus srv))"
  shows "db_grows (database (fst s)) (database (fst (run_state (endpoint_handler q srv ep r s))))"
    and "ep \<noteq> RegisterEP \<Longrightarrow> database (fst (run_state (endpoint_handler q srv ep r s))) = database (fst s)"
proof -
  have same: "database (fst (run_state (endpoint_handler q srv ep r s))) = database (fst s)"
    if "ep \<noteq> RegisterEP"
  proof (cases ep)
    case LoginEP
    then show ?thesis
      by (auto simp: endpoint_handler_def Let_def login_def Login_database [OF assms]
          intro!: Validate_database [where R = "\<lambda>a b. b = a"])
  next
    case RefreshEP
    then show ?thesis
      by (auto simp: endpoint_handler_def Let_def refresh_def
          intro!: Validate_database [where R = "\<lambda>a b. b = a"])
  next
    case MeEP
    then show ?thesis
      by (auto simp: endpoint_handler_def Let_def me_def intro!: Guard_database)
  qed (use that in \<open>simp_all add: endpoint_handler_def health_state files_state hub_ServeHTTP_database\<close>)
  then show "ep \<noteq> RegisterEP \<Longrightarrow> database (fst (run_state (endpoint_handler q srv ep r s))) = database (fst s)"
    by simp
  show "db_grows (database (fst s)) (database (fst (run_state (endpoint_handler q srv ep r s))))"
  proof (cases "ep = RegisterEP")
    case True
    then show ?thesis
      by (auto simp: endpoint_handler_def Let_def register_def
          intro!: Validate_database [where R = db_grows] Register_database [OF assms])
  qed (simp add: same)
qed

section \<open>Runs\<close>

text \<open>
  A run of the server: requests on new connections, and the goroutines of pending audit writes,
  picked in any order.
\<close>

datatype happening = Arrives per_request "body request" | AuditWrite outside nat

fun traffic ::
  "mux \<Rightarrow> (body request \<Rightarrow> response \<Rightarrow> response) \<Rightarrow> server \<Rightarrow> happening list \<Rightarrow> sys \<Rightarrow> sys" where
  "traffic m miss srv [] w = w"
| "traffic m miss srv (Arrives q r # hs) w =
     traffic m miss srv hs (fst (run_state (serve q m miss srv r (w, new_response))))"
| "traffic m miss srv (AuditWrite out k # hs) w =
     traffic m miss srv hs
       (if k < length (s_audit w)
        then write_audit_log out (s_audit w ! k)
               (w\<lparr>s_audit := take k (s_audit w) @ drop (Suc k) (s_audit w)\<rparr>)
        else w)"

lemma serve_database:
  assumes "\<And>out. bus_ok (map_option (server_emitter out) (event_bus srv))"
  shows "db_grows (database (fst st)) (database (fst (run_state (serve q m miss srv r st))))"
    and "m (routes srv) (req_method r) (req_path r) \<noteq> Some RegisterEP
      \<Longrightarrow> database (fst (run_state (serve q m miss srv r st))) = database (fst st)"
proof -
  let ?ep = "m (routes srv) (req_method r) (req_path r)"
  let ?h = "\<lambda>ep. use_chain q (chain srv) (endpoint_handler q srv ep)"
  have keeps: "R (database (fst st)) (database (fst (run_state (?h ep r st))))"
    if "reflp R" "\<And>r s. R (database (fst s)) (database (fst (run_state (endpoint_handler q srv ep r s))))"
    for R ep
    using server_chain.keeps [where R = "\<lambda>a b. R (fst a) (fst b)" and h = "endpoint_handler q srv ep"
        and s = st and r = r] that
    by (simp add: beyond_web_def reflp_def)
  have "reflp db_grows" by (simp add: reflp_def)
  from keeps [OF this endpoint_database(1) [OF assms]]
  show "db_grows (database (fst st)) (database (fst (run_state (serve q m miss srv r st))))"
    by (cases ?ep) (simp_all add: serve_def)
  show "database (fst (run_state (serve q m miss srv r st))) = database (fst st)" if "?ep \<noteq> Some RegisterEP"
  proof (cases ?ep)
    case (Some ep)
    with that have "ep \<noteq> RegisterEP" by simp
    from keeps [of "\<lambda>a b. b = a" ep, OF _ endpoint_database(2) [OF assms this]] Some
    show ?thesis by (simp add: serve_def reflp_def)
  qed (simp add: serve_def)
qed

definition tables_ok :: "db \<Rightarrow> bool" where
  "tables_ok d \<longleftrightarrow> db_ok d \<and> list_all hashed_password (users d)"

lemma tables_ok_grows: "tables_ok d \<Longrightarrow> db_grows d d' \<Longrightarrow> tables_ok d'"
proof -
  assume ok: "tables_ok d" and "db_grows d d'"
  then show "tables_ok d'"
    unfolding db_grows_def
  proof (elim disjE exE conjE)
    fix u uuid now arg
    assume u: "new_user uuid now arg d = Inr u" "hashed_password u" "d' = d\<lparr>users := users d @ [u]\<rparr>"
    then have "CreateUser None uuid now arg d = (Inr u, d')" by (simp add: CreateUser_def)
    with CreateUser_ok [of d None uuid now arg] ok u show ?thesis by (simp add: tables_ok_def)
  qed simp
qed

lemma write_audit_log_tables:
  assumes "tables_ok (database w)"
  shows "tables_ok (database (write_audit_log out p w)) \<and> users (database (write_audit_log out p w)) = users (database w)"
proof -
  let ?arg = "\<lparr>ca_ActorUserID = audit_actor (o_uuid_scan out) (ap_ActorUserID p),
      ca_Action = ap_Action p, ca_Entity = ap_Entity p, ca_Metadata = ap_Metadata p,
      ca_Ip = Some (ap_IP p), ca_UserAgent = Some (ap_UserAgent p)\<rparr>"
  let ?c = "CreateAuditLog (o_audit_fault out) (o_jsonb out) (o_audit_uuid out) (o_audit_now out) ?arg (database w)"
  have "db_ok (snd ?c)"
    using assms by (intro CreateAuditLog_ok) (simp add: tables_ok_def)
  moreover have "users (snd ?c) = users (database w)"
    by (cases rule: CreateAuditLog_cases [of "o_audit_fault out" "o_jsonb out" "o_audit_uuid out"
          "o_audit_now out" ?arg "database w"]) simp_all
  moreover have "database (write_audit_log out p w) = snd ?c"
    by (cases ?c) (simp add: write_audit_log_def split: sum.splits)
  ultimately show ?thesis using assms by (simp add: tables_ok_def)
qed

text \<open>
  Whatever requests reach the server, in whatever order, with whatever faults, clocks, random
  values and forged headers, and however the audit writes are scheduled between them: the tables
  keep their constraints, and every password in them is an Argon2id hash in the encoding of
  \<open>HashPassword\<close>, never the text a client sent.
\<close>
theorem traffic_keeps_tables:
  assumes "event_bus srv = Some (server_bus ws q)" "database w = empty_db"
  shows "db_ok (database (traffic m miss srv hs w))
    \<and> (\<forall>u \<in> set (users (database (traffic m miss srv hs w))).
         \<exists>salt key. u_Password u = phc_string defaultParams salt key)"
proof -
  have bus: "bus_ok (map_option (server_emitter out) (event_bus srv))" for out
    using assms(1) by (simp add: server_bus_ok)
  have "tables_ok (database w) \<Longrightarrow> tables_ok (database (traffic m miss srv hs w))"
  proof (induction hs arbitrary: w)
    case (Cons h hs)
    show ?case
    proof (cases h)
      case (Arrives q r)
      have "tables_ok (database (fst (run_state (serve q m miss srv r (w, new_response)))))"
        using serve_database(1) [OF bus, of "(w, new_response)"]
        by (intro tables_ok_grows [OF Cons.prems]) simp
      then show ?thesis by (simp add: Arrives Cons.IH)
    next
      case (AuditWrite out k)
      with write_audit_log_tables [of "w\<lparr>s_audit := take k (s_audit w) @ drop (Suc k) (s_audit w)\<rparr>"] Cons
      show ?thesis by simp
    qed
  qed simp
  moreover have "tables_ok (database w)"
    by (simp add: assms(2) tables_ok_def) (simp add: empty_db_def)
  ultimately show ?thesis
    by (auto simp: tables_ok_def list_all_iff hashed_password_def)
qed

definition sample_server :: server where
  "sample_server =
     (server_New sample_config True)\<lparr>event_bus := Some (server_bus True True),
        chain := [UseRequestID, UseCORS, UseRateLimit 100 1, UseLogger ''production''],
        routes := modules_Register ''/api/v1'' @ web_route True\<rparr>"

text \<open>Decoders that take the body as the password, as a stand-in for the JSON text.\<close>

definition sample_decoders :: decoders where
  "sample_decoders =
     \<lparr>dec_register = (\<lambda>s. Inr (sample_input\<lparr>ri_Password := s\<rparr>)), dec_login = (\<lambda>s. Inr sample_login),
      dec_refresh = (\<lambda>s. Inr \<lparr>rf_RefreshToken = s\<rparr>), dec_unicode = id\<rparr>"

definition sample_per_request :: per_request where
  "sample_per_request =
     \<lparr>q_logger_ok = True, q_uuid = Inr ''id'', q_now = 0, q_file_ok = True, q_start = 0, q_finish = 1,
      q_svc = sample_env, q_dec = sample_decoders, q_out = sample_outside, q_probe = down_probe,
      q_upgrade = (\<lambda>ok r rsp. (if ok \<and> rsp_capture rsp = None then None else Some ''refused'', rsp)),
      q_conn = 7, q_meanwhile = id, q_mime = (\<lambda>_. []), q_dist = Map.empty, q_openapi = Inl ''missing'', q_render = Inr\<rparr>"

definition register_request :: "body request" where
  "register_request = (sample_request [])\<lparr>req_method := ''POST'', req_path := ''/api/v1/auth/register'',
     req_header := [''Content-Type'' \<mapsto> [''application/json'']], req_body := Some ''12345678''\<rparr>"

theorem traffic_keeps_tables_witness:
  "db_ok (database (traffic sample_mux (\<lambda>r w. w) sample_server
     [Arrives sample_per_request register_request, AuditWrite sample_outside 0] sample_sys))"
  using traffic_keeps_tables [of sample_server True True sample_sys sample_mux "\<lambda>r w. w"]
  by (simp add: sample_server_def sample_sys_def del: traffic.simps)

text \<open>
  C21. Only registrations create accounts: a request that the router does not send to the register
  endpoint, whatever its method, path, headers and body, leaves the tables exactly as they were; one
  that it does adds at most one account and changes no other.
\<close>
theorem only_register_creates_accounts:
  assumes "event_bus srv = Some (server_bus ws q)"
  shows "(m (routes srv) (req_method r) (req_path r) \<noteq> Some RegisterEP
      \<longrightarrow> database (fst (run_state (serve p m miss srv r st))) = database (fst st))
    \<and> (\<exists>us. length us \<le> 1
        \<and> database (fst (run_state (serve p m miss srv r st)))
            = (database (fst st))\<lparr>users := users (database (fst st)) @ us\<rparr>)"
proof -
  have bus: "bus_ok (map_option (server_emitter out) (event_bus srv))" for out
    using assms by (simp add: server_bus_ok)
  have "db_grows (database (fst st)) (database (fst (run_state (serve p m miss srv r st))))"
    by (rule serve_database(1) [OF bus])
  then have "\<exists>us. length us \<le> 1 \<and> database (fst (run_state (serve p m miss srv r st)))
            = (database (fst st))\<lparr>users := users (database (fst st)) @ us\<rparr>"
    unfolding db_grows_def
    by (elim disjE exE conjE) (force intro: exI [of _ "[]"], force intro: exI [of _ "[_]"])
  with serve_database(2) [OF bus] show ?thesis by blast
qed

theorem only_register_creates_accounts_witness:
  "database (fst (run_state (serve sample_per_request sample_mux (\<lambda>r w. w) sample_server
     (sample_request []) (sample_sys, new_response)))) = empty_db"
proof -
  have "sample_mux (routes sample_server) (req_method (sample_request [])) (req_path (sample_request []))
      = Some MeEP"
    by (simp add: sample_mux_def sample_server_def sample_request_def modules_Register_def
        healthRoutes_def authControllerRoutes_def route_accepts_def)
  moreover have "event_bus sample_server = Some (server_bus True True)"
    by (simp add: sample_server_def)
  moreover have "database sample_sys = empty_db" by (simp add: sample_sys_def)
  ultimately show ?thesis
    using only_register_creates_accounts [of sample_server True True sample_mux "sample_request []"
        sample_per_request "\<lambda>r w. w" "(sample_sys, new_response)"] by simp
qed

end
