(* ===== verification/Middleware_Properties.thy ===== *)
theory Middleware_Properties
  imports Middlewares
begin

text \<open>
  What the middlewares do to the requests that meet them: the origin check, the key of the rate
  limiter, request ids and the access log.
\<close>

section \<open>Canonical header names\<close>

lemma canon_keys [simp]:
  "canon_key ''Access-Control-Allow-Origin'' = ''Access-Control-Allow-Origin''"
  "canon_key ''Access-Control-Allow-Methods'' = ''Access-Control-Allow-Methods''"
  "canon_key ''Access-Control-Allow-Headers'' = ''Access-Control-Allow-Headers''"
  "canon_key ''Access-Control-Allow-Credentials'' = ''Access-Control-Allow-Credentials''"
  "canon_key ''Access-Control-Expose-Headers'' = ''Access-Control-Expose-Headers''"
  "canon_key ''Content-Type'' = ''Content-Type''"
  "canon_key ''X-Request-ID'' = ''X-Request-Id''"
  "canon_key ''X-Forwarded-For'' = ''X-Forwarded-For''"
  "canon_key ''X-Real-IP'' = ''X-Real-Ip''"
  "canon_key ''Origin'' = ''Origin''" "canon_key ''Host'' = ''Host''"
  by code_simp+

lemma rsp_header_set_header [simp]: "rsp_header (set_header k v w) = hset (rsp_header w) k v"
  by (simp add: set_header_def)

lemma rsp_sent_set_header [simp]: "rsp_sent (set_header k v w) = rsp_sent w"
  by (simp add: set_header_def)

lemma rsp_capture_set_header [simp]: "rsp_capture (set_header k v w) = rsp_capture w"
  by (simp add: set_header_def)

section \<open>CORS\<close>

text \<open>
  C38. The origin check is a substring test on the configured list.  A preflight request is answered
  with 204 without running the handler; it allows credentials always, and echoes the origin
  exactly where the text of the origin occurs anywhere in the list, so a prefix of an allowed
  origin, a single letter or the empty origin passes like the origins that were configured.
\<close>
theorem cors_reflects_substrings:
  assumes "req_method r = ''OPTIONS''" "rsp_sent (snd s) = None"
  shows "\<exists>w hd. CORSMiddleware env h r s = Done (fst s, w) \<and> rsp_sent w = Some (204, hd)
    \<and> hget hd ''Access-Control-Allow-Credentials'' = ''true''
    \<and> hget hd ''Access-Control-Allow-Origin'' =
        (if sublist (request_origin r)
              (GetEnv env ''CORS_ORIGINS'' ''http://localhost:3000,http://localhost:5173'')
         then request_origin r
         else hget (rsp_header (snd s)) ''Access-Control-Allow-Origin'')"
  using assms
  by (simp add: CORSMiddleware_def Let_def cors_headers_def cors_allowed_def contains_iff_sublist
      WriteHeader_def send_status_def hget_hset)

definition options_request :: "bytes \<Rightarrow> unit request" where
  "options_request origin =
     \<lparr>req_method = ''OPTIONS'', req_path = ''/api/v1/auth/login'', req_query = [],
      req_header = [''Origin'' \<mapsto> [origin]], req_cookies = [], req_body = None,
      req_remote = ''10.0.0.1:4711'', req_vars = Map.empty, ctx_uid = None, ctx_body = None\<rparr>"

theorem cors_reflects_substrings_witness:
  "\<exists>w hd. CORSMiddleware Map.empty (\<lambda>r s. Panicked s) (options_request ''http://localhost:30'') ((), new_response)
       = Done ((), w) \<and> rsp_sent w = Some (204, hd)
     \<and> hget hd ''Access-Control-Allow-Origin'' = ''http://localhost:30''"
proof -
  let ?r = "options_request ''http://localhost:30''"
  have o: "request_origin ?r = ''http://localhost:30''"
    by (simp add: request_origin_def options_request_def hget_def)
  have "contains ''http://localhost:3000,http://localhost:5173'' ''http://localhost:30''"
    by code_simp
  then have s: "sublist ''http://localhost:30'' ''http://localhost:3000,http://localhost:5173''"
    by (simp only: contains_iff_sublist)
  have m: "req_method ?r = ''OPTIONS''" by (simp add: options_request_def)
  have n: "rsp_sent (snd ((), new_response)) = None" by (simp add: new_response_def)
  show ?thesis
    using cors_reflects_substrings [OF m n, of Map.empty "\<lambda>r s. Panicked s"] s unfolding o GetEnv_def by auto
qed

section \<open>The key of the rate limiter\<close>

text \<open>Requests one after the other through the limiter, each with its clock reading.\<close>

fun limited_run ::
  "('b, 'a web_scheme) handler \<Rightarrow> (int \<times> 'b request) list \<Rightarrow> 'a web_scheme \<Rightarrow> int option list" where
  "limited_run h [] w = []"
| "limited_run h ((now, r) # rs) w =
     (case RateLimitMiddleware now h r (w, new_response) of
        Done (w', rsp) \<Rightarrow> status rsp # limited_run h rs w'
      | Panicked (w', rsp) \<Rightarrow> None # limited_run h rs w')"

lemma GetIP_forwarded:
  assumes "hget (req_header r) ''X-Forwarded-For'' = x" "x \<noteq> []" "CHR '','' \<notin> set x" "trim_space x = x"
  shows "GetIP r = x"
  using assms by (simp add: GetIP_def Let_def)

lemma allow_new: "entries rl ip = None \<Longrightarrow> fst (allow ip now rl)"
  by (simp add: allow_def)

lemma allow_entries: "entries (snd (allow ip now rl)) ip' = None \<longleftrightarrow> ip' \<noteq> ip \<and> entries rl ip' = None"
  by (auto simp: allow_def Let_def split: option.splits)

text \<open>
  C37. One client can pass the limiter any number of times: the limiter counts the text the client
  puts in \<open>X-Forwarded-For\<close>, and a text it has not seen is let through whatever the limit.  Requests
  with pairwise distinct new texts, from one address and at any times, are all handled.
\<close>
theorem forwarded_for_evades_limit:
  assumes "distinct (map (\<lambda>(now, r). hget (req_header r) ''X-Forwarded-For'') rs)"
    and "\<forall>(now, r) \<in> set rs. let x = hget (req_header r) ''X-Forwarded-For'' in
      x \<noteq> [] \<and> CHR '','' \<notin> set x \<and> trim_space x = x \<and> entries (limiter w) x = None"
    and "\<And>r w rsp. h r (w, rsp) = Done (w, WriteHeader 200 rsp)"
  shows "limited_run h rs w = replicate (length rs) (Some 200)"
  using assms(1,2)
proof (induction rs arbitrary: w)
  case (Cons nr rs)
  obtain now r where nr: "nr = (now, r)" by fastforce
  let ?x = "hget (req_header r) ''X-Forwarded-For''"
  have x: "?x \<noteq> []" "CHR '','' \<notin> set ?x" "trim_space ?x = ?x" "entries (limiter w) ?x = None"
    using Cons.prems(2) nr by (auto simp: Let_def)
  have ip: "GetIP r = ?x" using GetIP_forwarded [OF refl x(1-3)] .
  let ?rl = "snd (allow ?x now (limiter w))"
  have pass: "RateLimitMiddleware now h r (w, new_response)
      = Done (w\<lparr>limiter := ?rl\<rparr>, WriteHeader 200 new_response)"
    using allow_new [OF x(4), of now]
    by (simp add: RateLimitMiddleware_def ip assms(3) case_prod_beta Let_def)
  have "limited_run h rs (w\<lparr>limiter := ?rl\<rparr>) = replicate (length rs) (Some 200)"
    using Cons.prems nr
    by (intro Cons.IH) (force simp: Let_def allow_entries)+
  moreover have "status (WriteHeader 200 new_response) = Some 200"
    by (simp add: WriteHeader_def send_status_def status_def new_response_def)
  ultimately show ?case
    by (simp add: nr pass)
qed simp

definition forwarded_request :: "bytes \<Rightarrow> unit request" where
  "forwarded_request x =
     \<lparr>req_method = ''POST'', req_path = ''/api/v1/auth/login'', req_query = [],
      req_header = [''X-Forwarded-For'' \<mapsto> [x]], req_cookies = [], req_body = None,
      req_remote = ''10.0.0.1:4711'', req_vars = Map.empty, ctx_uid = None, ctx_body = None\<rparr>"

definition sample_web :: "int \<Rightarrow> web" where
  "sample_web n = \<lparr>limiter = NewRateLimiter n 1000000000, events_log = [], stdout_log = [], app_log = []\<rparr>"

theorem forwarded_for_evades_limit_witness:
  "limited_run (\<lambda>r (w, rsp). Done (w, WriteHeader 200 rsp))
     [(0, forwarded_request ''a''), (0, forwarded_request ''b''), (0, forwarded_request ''c'')]
     (sample_web 1) = replicate 3 (Some 200)"
proof -
  have "hget (req_header (forwarded_request x)) ''X-Forwarded-For'' = x" for x
    by (simp add: forwarded_request_def hget_def)
  moreover have "trim_space ''a'' = ''a''" "trim_space ''b'' = ''b''" "trim_space ''c'' = ''c''"
    by code_simp+
  ultimately have "limited_run (\<lambda>r (w, rsp). Done (w, WriteHeader 200 rsp))
     [(0, forwarded_request ''a''), (0, forwarded_request ''b''), (0, forwarded_request ''c'')]
     (sample_web 1) = replicate (length [(0 :: int, forwarded_request ''a''),
       (0, forwarded_request ''b''), (0, forwarded_request ''c'')]) (Some 200)"
    by (intro forwarded_for_evades_limit) (simp_all add: sample_web_def NewRateLimiter_def)
  then show ?thesis by (simp add: numeral_3_eq_3)
qed

section \<open>Request ids\<close>

lemma marshalable_api_gov [simp]:
  "marshalable (api_gov (res\<lparr>RequestID := rid\<rparr>)) = marshalable (api_gov res)"
  by (simp add: api_gov_def split: option.splits)

lemma marshalable_update:
  "marshalable (JObj kvs) \<Longrightarrow> marshalable v \<Longrightarrow> marshalable (JObj (AList.update k v kvs))"
  by (induction kvs) auto

lemma json_field_request_id:
  "rid \<noteq> [] \<Longrightarrow> gov_field ''request_id'' (api_gov (res\<lparr>RequestID := rid\<rparr>)) = Some (JStr rid)"
  by (simp add: api_gov_def split: option.splits)

lemma SendResponse_sent:
  assumes "rsp_sent w = None" "marshalable (api_gov res)" "hget (rsp_header w) ''X-Request-ID'' = rid"
  shows "SendResponse w res = w\<lparr>rsp_header := hset (rsp_header w) ''Content-Type'' ''application/json'',
      rsp_capture := map_option (\<lambda>_. StatusCode res) (rsp_capture w),
      rsp_sent := Some (StatusCode res, hset (rsp_header w) ''Content-Type'' ''application/json''),
      rsp_body := rsp_body w @ [Json (api_gov (res\<lparr>RequestID := rid\<rparr>))]\<rparr>"
  using assms
  by (cases w) (simp add: SendResponse_def Let_def WriteHeader_def send_status_def Write_def
      set_header_def map_option_case cong: option.case_cong)

lemma hw_JSON_sent:
  assumes "rsp_sent w = None" "marshalable (JObj kvs)" "hget (rsp_header w) ''X-Request-ID'' = rid"
    "rid \<noteq> []"
  shows "hw_JSON kvs (NewHttpWriter w r) = w\<lparr>rsp_header := hset (rsp_header w) ''Content-Type'' ''application/json'',
      rsp_capture := map_option (\<lambda>_. 200) (rsp_capture w),
      rsp_sent := Some (200, hset (rsp_header w) ''Content-Type'' ''application/json''),
      rsp_body := rsp_body w @ [Json (JObj (AList.update ''request_id'' (JStr rid) kvs))]\<rparr>"
proof -
  have "marshalable (JObj (AList.update ''request_id'' (JStr rid) kvs))"
    by (rule marshalable_update [OF assms(2)]) simp
  with assms(1,3,4) show ?thesis
    by (cases w) (simp add: hw_JSON_def NewHttpWriter_def Let_def WriteHeader_def send_status_def
        Write_def set_header_def map_option_case)
qed

text \<open>
  A request id reaches the client twice: behind the request-id middleware every answer sent as
  an \<open>ApiResponse\<close>, and every answer written with \<open>HttpWriter.JSON\<close>, carries the id in the header
  \<open>X-Request-ID\<close> and in the body, and the log of the application names it.
\<close>
theorem request_id_traced:
  assumes "rid \<noteq> []" "rsp_sent (snd s) = None" "marshalable (api_gov res)" "marshalable (JObj kvs)"
    and "answer = (\<lambda>w. SendResponse w res)
      \<or> answer = (\<lambda>w. hw_JSON kvs (NewHttpWriter w r))"
  shows "\<exists>w code hd js. RequestIDMiddleware True (Inr rid) (\<lambda>r s. Done (fst s, answer (snd s))) r s
        = Done (log_incoming (incoming (Inr rid) r) (fst s), w) \<and> rsp_sent w = Some (code, hd)
    \<and> hget hd ''X-Request-ID'' = rid
        \<and> rsp_body w = rsp_body (snd s) @ [Json js] \<and> gov_field ''request_id'' js = Some (JStr rid)"
proof -
  let ?w = "set_header ''X-Request-ID'' rid (snd s)"
  have w: "rsp_sent ?w = None" "hget (rsp_header ?w) ''X-Request-ID'' = rid" "rsp_body ?w = rsp_body (snd s)"
    using assms(2) by (simp_all add: hget_hset set_header_def)
  note sent = SendResponse_sent [OF w(1) assms(3) w(2)] hw_JSON_sent [OF w(1) assms(4) w(2) assms(1)]
  show ?thesis
    using assms(5) w(3)
    by (elim disjE)
      (simp_all add: RequestIDMiddleware_def sent hget_hset json_field_request_id [OF assms(1)]
        update_conv)
qed

theorem request_id_traced_witness:
  "\<exists>w code hd js. RequestIDMiddleware True (Inr ''id'')
       (\<lambda>r s. Done (fst s, SendResponse (snd s) (ApiSuccess ''ok'' None 200)))
       (options_request []) (sample_web 1, new_response)
       = Done (log_incoming (incoming (Inr ''id'') (options_request [])) (sample_web 1), w)
     \<and> rsp_sent w = Some (code, hd) \<and> hget hd ''X-Request-ID'' = ''id''
     \<and> rsp_body w = [Json js] \<and> gov_field ''request_id'' js = Some (JStr ''id'')"
  using request_id_traced [of "''id''" "(sample_web 1, new_response)" "ApiSuccess ''ok'' None 200" "[]"
      "\<lambda>w. SendResponse w (ApiSuccess ''ok'' None 200)" "options_request []"]
  by (simp add: new_response_def ApiSuccess_def api_gov_def)

section \<open>The access log\<close>

text \<open>
  Each request whose handler returns gets one line in the access log, with the status the
  client got when the handler answered with an envelope; in development, whatever the capital
  letters of the name, the line holds the body of the request word for word, passwords included.
  A handler that panics leaves no line.
\<close>
theorem access_log_line:
  assumes "rsp_sent (snd s) = None" "marshalable (api_gov res)"
    and "\<And>rsp. h r (fst s, rsp) = Done (w', SendResponse rsp res)"
  shows "\<exists>line rsp. LoggerMiddleware env True start finish h r s
      = Done (w'\<lparr>events_log := events_log w' @ [line], stdout_log := stdout_log w' @ [line]\<rparr>, rsp)
    \<and> status rsp = Some (al_status line) \<and> al_path line = req_path r \<and> al_ip line = GetIP r
    \<and> al_details line = (if map lower_byte env = ''development''
        then Some (req_query r, req_vars r, case req_body r of Some b \<Rightarrow> b | None \<Rightarrow> [])
        else None)
    \<and> LoggerMiddleware env True start finish (\<lambda>r s. Panicked s) r s
      = Panicked (fst s, (snd s)\<lparr>rsp_capture := None\<rparr>)"
proof -
  have "rsp_sent ((snd s)\<lparr>rsp_capture := Some 200\<rparr>) = None" using assms(1) by simp
  note sent = SendResponse_sent [OF this assms(2) refl]
  let ?body = "if log_details env then (case req_body r of Some b \<Rightarrow> b | None \<Rightarrow> []) else []"
  let ?rsp = "SendResponse ((snd s)\<lparr>rsp_capture := Some 200\<rparr>) res"
  let ?line = "access_args (log_details env) ?body (finish - start) r (StatusCode res) ?rsp"
  have "LoggerMiddleware env True start finish h r s
      = Done (w'\<lparr>events_log := events_log w' @ [?line], stdout_log := stdout_log w' @ [?line]\<rparr>,
          ?rsp\<lparr>rsp_capture := None\<rparr>)"
    by (simp add: LoggerMiddleware_def Let_def assms(3) sent)
  moreover have "status (?rsp\<lparr>rsp_capture := None\<rparr>) = Some (al_status ?line)"
    by (simp add: sent status_def access_args_def)
  moreover have "LoggerMiddleware env True start finish (\<lambda>r s. Panicked s) r s
      = Panicked (fst s, (snd s)\<lparr>rsp_capture := None\<rparr>)"
    by (simp add: LoggerMiddleware_def Let_def)
  moreover have "al_path ?line = req_path r" "al_ip ?line = GetIP r"
    "al_details ?line = (if map lower_byte env = ''development''
        then Some (req_query r, req_vars r, case req_body r of Some b \<Rightarrow> b | None \<Rightarrow> [])
        else None)"
    by (simp_all add: access_args_def log_details_def)
  ultimately show ?thesis by blast
qed

theorem access_log_line_witness:
  "\<exists>line rsp. LoggerMiddleware ''Development'' True 0 1
       (\<lambda>r s. Done (fst s, SendResponse (snd s) (ApiSuccess ''ok'' None 200)))
       ((options_request [])\<lparr>req_body := Some ''secret''\<rparr>) (sample_web 1, new_response)
     = Done ((sample_web 1)\<lparr>events_log := [line], stdout_log := [line]\<rparr>, rsp)
     \<and> (\<exists>q v. al_details line = Some (q, v, ''secret''))"
proof -
  let ?s = "(sample_web 1, new_response)" and ?ok = "ApiSuccess ''ok'' None 200"
  let ?r = "(options_request [])\<lparr>req_body := Some ''secret''\<rparr>"
  have d: "map lower_byte ''Development'' = ''development''" by code_simp
  have "rsp_sent (snd ?s) = None" "marshalable (api_gov ?ok)"
    by (simp_all add: new_response_def ApiSuccess_def api_gov_def)
  from access_log_line [OF this, of "\<lambda>r s. Done (fst s, SendResponse (snd s) ?ok)" ?r "sample_web 1"
      "''Development''" 0 1]
  obtain line rsp where "LoggerMiddleware ''Development'' True 0 1
       (\<lambda>r s. Done (fst s, SendResponse (snd s) ?ok)) ?r ?s
      = Done ((sample_web 1)\<lparr>events_log := events_log (sample_web 1) @ [line],
          stdout_log := stdout_log (sample_web 1) @ [line]\<rparr>, rsp)"
    "al_details line = Some (req_query ?r, req_vars ?r, ''secret'')"
    unfolding d by auto
  then show ?thesis by (auto simp: sample_web_def)
qed

end
