(* ===== verification/Front_Door.thy ===== *)
theory Front_Door
  imports Traffic Middleware_Properties
begin

text \<open>
  The whole chain in front of the endpoints: which requests never get past it, what the access log
  sees of them, and what the log's writer does to the WebSocket endpoint.
\<close>

section \<open>Requests the chain answers\<close>

lemma mw_chain_full:
  assumes "rid_Enabled (mw_RequestID (c_Middlewares c))" "cors_Enabled (sec_CORS (c_Security c))"
    "rate_Enabled (sec_RateLimit (c_Security c))" "mw_Logger (c_Middlewares c)"
  shows "\<exists>n d. mw_chain c = [UseRequestID, UseCORS, UseRateLimit n d, UseLogger (srv_Environment (c_Server c))]"
  using assms by (simp add: mw_chain_def)

lemma RequestIDMiddleware_passes:
  "\<exists>rsp'. (\<forall>h. RequestIDMiddleware True uuid h r (w, rsp) = h r (log_incoming (incoming uuid r) w, rsp'))
     \<and> rsp_sent rsp' = rsp_sent rsp
     \<and> rsp_capture rsp' = rsp_capture rsp"
  by (cases uuid) (auto simp: RequestIDMiddleware_def Let_def set_header_def)

lemma rsp_cors_headers [simp]:
  "rsp_sent (cors_headers a o1 w) = rsp_sent w" "rsp_capture (cors_headers a o1 w) = rsp_capture w"
  by (simp_all add: cors_headers_def Let_def)

lemma status_rate_limited: "rsp_sent w = None \<Longrightarrow> status (rate_limited r w) = Some 429"
  by (simp add: rate_limited_def hw_JSON_def hw_Status_def NewHttpWriter_def Let_def status_def
      Write_def WriteHeader_def send_status_def set_header_def)

lemma status_WriteHeader: "rsp_sent w = None \<Longrightarrow> status (WriteHeader code w) = Some code"
  by (simp add: status_def WriteHeader_def send_status_def)

text \<open>
  C35. With every middleware on, the access log does not see every request, although it is there to:
  a preflight request is answered with 204 and a request over the limit with 429 before the log's
  middleware runs, so neither leaves a line in it.  What such a request leaves is the line \<open>Incoming
  request\<close> of the request-id middleware, which has no status, and, over the limit, its own count with
  the limiter; a preflight request does not even count, and nothing else of the server's state changes.
\<close>
theorem refused_requests_unlogged:
  assumes "Setup x env (server_New c web) = (None, srv)"
    and "rid_Enabled (mw_RequestID (c_Middlewares c))" "cors_Enabled (sec_CORS (c_Security c))"
      "rate_Enabled (sec_RateLimit (c_Security c))" "mw_Logger (c_Middlewares c)"
    and "q_logger_ok q" "m (routes srv) (req_method r) (req_path r) = Some ep"
    and "rsp_sent rsp = None"
  shows "(req_method r = ''OPTIONS'' \<longrightarrow>
      (\<exists>rsp'. serve q m miss srv r (w, rsp) = Done (log_incoming (incoming (q_uuid q) r) w, rsp')
         \<and> status rsp' = Some 204))
    \<and> (req_method r \<noteq> ''OPTIONS'' \<and> allow (GetIP r) (q_now q) (limiter w) = (False, rl) \<longrightarrow>
      (\<exists>rsp'. serve q m miss srv r (w, rsp)
           = Done (log_incoming (incoming (q_uuid q) r) (w\<lparr>limiter := rl\<rparr>), rsp')
         \<and> status rsp' = Some 429))"
proof -
  obtain n d where chain: "chain srv = [UseRequestID, UseCORS, UseRateLimit n d, UseLogger (srv_Environment (c_Server c))]"
    using mw_chain_full [OF assms(2-5)] Setup_routes(2) [OF assms(1)] by auto
  obtain rsp' where id: "\<And>h. RequestIDMiddleware True (q_uuid q) h r (w, rsp) = h r (log_incoming (incoming (q_uuid q) r) w, rsp')"
      "rsp_sent rsp' = None"
    using RequestIDMiddleware_passes [of "q_uuid q" r w rsp] assms(8) by auto
  have "serve q m miss srv r (w, rsp)
      = CORSMiddleware (e_env (q_svc q)) (RateLimitMiddleware (q_now q)
          (use_mw q (UseLogger (srv_Environment (c_Server c))) (endpoint_handler q srv ep))) r
          (log_incoming (incoming (q_uuid q) r) w, rsp')"
    by (simp add: serve_def assms(6,7) chain use_chain_def id del: use_mw.simps(4))
  with id(2) show ?thesis
    by (simp add: CORSMiddleware_def Let_def RateLimitMiddleware_def status_rate_limited status_WriteHeader
        log_incoming_def)
qed

theorem refused_requests_unlogged_witness:
  "\<exists>srv rsp'. Setup calm_startup Map.empty (server_New (applyDefaults sample_config) True) = (None, srv)
     \<and> serve sample_per_request sample_mux (\<lambda>r w. w) srv
          ((sample_request [])\<lparr>req_method := ''OPTIONS'', req_path := ''/api/v1/auth/login''\<rparr>)
          (sample_sys, new_response)
        = Done (log_incoming (incoming (q_uuid sample_per_request)
            ((sample_request [])\<lparr>req_method := ''OPTIONS'', req_path := ''/api/v1/auth/login''\<rparr>)) sample_sys, rsp')
     \<and> status rsp' = Some 204"
proof -
  let ?c = "applyDefaults sample_config"
  let ?r = "(sample_request [])\<lparr>req_method := ''OPTIONS'', req_path := ''/api/v1/auth/login''\<rparr>"
  obtain srv where s: "Setup calm_startup Map.empty (server_New ?c True) = (None, srv)"
    by (rule sample_setup)
  have on: "rid_Enabled (mw_RequestID (c_Middlewares ?c))" "cors_Enabled (sec_CORS (c_Security ?c))"
    "rate_Enabled (sec_RateLimit (c_Security ?c))" "mw_Logger (c_Middlewares ?c)"
    "ws_Path (c_WebSocket ?c) = ''/ws''"
    by (simp_all add: applyDefaults_def sample_config_def dflt_def)
  have req: "req_method ?r = ''OPTIONS''" "req_path ?r = ''/api/v1/auth/login''" by simp_all
  have m: "sample_mux (routes srv) (req_method ?r) (req_path ?r) = Some WebEP"
    unfolding req using routes_table [OF sample_mux_ok s sample_paths(1,2)] on(5) by (simp add: routing_table_def Let_def)
  have "q_logger_ok sample_per_request" "rsp_sent new_response = None"
    by (simp_all add: sample_per_request_def new_response_def)
  with refused_requests_unlogged [OF s on(1-4), where m = sample_mux and r = ?r and rsp = new_response
      and q = sample_per_request] m s req(1) show ?thesis by blast
qed

section \<open>The WebSocket endpoint behind the chain\<close>

text \<open>Behind the access log the upgrade fails, and the hub never hears of the connection.\<close>

lemma upgrade_behind_log:
  assumes "needs_hijacker upg"
  shows "s_hub (fst (run_state (LoggerMiddleware env file_ok start finish (hub_ServeHTTP upg meanwhile origins i) r s)))
    = s_hub (fst s)"
proof -
  let ?s = "(fst s, (snd s)\<lparr>rsp_capture := Some 200\<rparr>)"
  obtain e rsp where "upg (CheckOrigin origins r) r ((snd s)\<lparr>rsp_capture := Some 200\<rparr>) = (Some e, rsp)"
    using assms unfolding needs_hijacker_def
    by (metis option.distinct(1) option.exhaust prod.collapse response.select_convs(4)
        response.surjective response.update_convs(4))
  then show ?thesis
    by (simp add: LoggerMiddleware_def hub_ServeHTTP_def Let_def)
qed

lemma use_chain_append: "use_chain q (ms @ ns) h = use_chain q ms (use_chain q ns h)"
  by (simp add: use_chain_def)

lemma chain_hub:
  assumes "\<And>r s. s_hub (fst (run_state (h r s))) = s_hub (fst s)"
  shows "s_hub (fst (run_state (use_chain q ms h r s))) = s_hub (fst s)"
  using server_chain.keeps [where R = "\<lambda>a b. fst (snd b) = fst (snd a)" and h = h and s = s and r = r] assms
  by (simp add: beyond_web_def reflp_def)

text \<open>
  C34. With the access log on, no WebSocket connection is ever made: the log's response writer embeds
  the interface \<open>http.ResponseWriter\<close> and is no \<open>http.Hijacker\<close>, so every upgrade fails, whatever the
  other settings.  Where an upgrade is accepted, no broadcast under way holds the lock and the hub is in
  order, the handler makes the connection a client of the hub, by the steps of the hub's own protocol,
  whatever the other goroutines do between the registration and the hello frame: the frame is queued
  behind those that broadcasts put there meanwhile, the first of the queue where there are none, and
  dropped where they filled it.
\<close>
theorem websocket_needs_log_off:
  assumes "needs_hijacker (q_upgrade q)" "Setup x env (server_New c web) = (None, srv)"
    and "m (routes srv) (req_method r) (req_path r) = Some WebSocketEP"
  shows "(mw_Logger (c_Middlewares c) \<longrightarrow>
        s_hub (fst (run_state (serve q m miss srv r (w, rsp)))) = s_hub w)
    \<and> (\<forall>rsp' (upg :: upgrader). upg (CheckOrigin origins r) r rsp = (None, rsp') \<and> conns (s_hub w) i = None
          \<and> broadcasts (s_hub w) = [] \<and> hub_inv (s_hub w) \<and> runs_aside i meanwhile \<longrightarrow>
        (\<exists>h c queued. hub_ServeHTTP upg meanwhile origins i r (w, rsp) = Done (w\<lparr>s_hub := h\<rparr>, rsp')
           \<and> hub_step\<^sup>*\<^sup>* (s_hub w) h \<and> i \<in> members h \<and> conns h i = Some c \<and> reader c = Reading \<and> writing c
           \<and> map_option send_buf (conns (meanwhile (hub_register i (s_hub w))) i) = Some queued
           \<and> send_buf c = (if length queued < 256 then queued @ [JObj [(''event'', JStr ''system:hello''),
                (''payload'', hello_payload (req_remote r))]] else queued)
           \<and> (meanwhile = id \<longrightarrow> queued = [])))"
proof (intro conjI impI allI)
  assume "mw_Logger (c_Middlewares c)"
  then obtain ms env' where "chain srv = ms @ [UseLogger env']"
    using Setup_routes(2) [OF assms(2)] by (auto simp: mw_chain_def)
  moreover have "s_hub (fst (run_state (use_chain q [UseLogger env'] (endpoint_handler q srv WebSocketEP) r s)))
      = s_hub (fst s)" for r s
    using upgrade_behind_log [OF assms(1)] by (simp add: use_chain_def endpoint_handler_def Let_def)
  ultimately show "s_hub (fst (run_state (serve q m miss srv r (w, rsp)))) = s_hub w"
    by (simp add: serve_def assms(3) use_chain_append chain_hub)
next
  fix rsp' and upg :: upgrader
  assume up: "upg (CheckOrigin origins r) r rsp = (None, rsp') \<and> conns (s_hub w) i = None
    \<and> broadcasts (s_hub w) = [] \<and> hub_inv (s_hub w) \<and> runs_aside i meanwhile"
  let ?f = "JObj [(''event'', JStr ''system:hello''), (''payload'', hello_payload (req_remote r))]"
  let ?h = "start_pumps i (writeJSON ''system:hello'' (hello_payload (req_remote r)) i
      (meanwhile (hub_register i (s_hub w))))"
  have f: "marshalFrame ''system:hello'' (hello_payload (req_remote r)) = Inr ?f"
    by (simp add: marshalFrame_def hello_payload_def)
  obtain c where c: "hub_step\<^sup>*\<^sup>* (s_hub w) ?h" "conns (meanwhile (hub_register i (s_hub w))) i = Some c"
    "i \<in> members ?h"
    "conns ?h i = Some (c\<lparr>send_buf := (if length (send_buf c) < 256 then send_buf c @ [?f] else send_buf c),
       reader := Reading, writing := True\<rparr>)"
    using connected [of "s_hub w" i meanwhile "req_remote r" ?f] f up by blast
  have "hub_ServeHTTP upg meanwhile origins i r (w, rsp) = Done (w\<lparr>s_hub := ?h\<rparr>, rsp')"
    using up by (simp add: hub_ServeHTTP_def Let_def)
  moreover have "meanwhile = id \<longrightarrow> send_buf c = []"
    using c(2) by (auto simp: hub_register_def new_client_def)
  ultimately show "\<exists>h c queued. hub_ServeHTTP upg meanwhile origins i r (w, rsp) = Done (w\<lparr>s_hub := h\<rparr>, rsp')
       \<and> hub_step\<^sup>*\<^sup>* (s_hub w) h \<and> i \<in> members h \<and> conns h i = Some c \<and> reader c = Reading \<and> writing c
       \<and> map_option send_buf (conns (meanwhile (hub_register i (s_hub w))) i) = Some queued
       \<and> send_buf c = (if length queued < 256 then queued @ [?f] else queued)
       \<and> (meanwhile = id \<longrightarrow> queued = [])"
    using c by (intro exI [of _ ?h] exI [of _ "send_buf c"]) simp
qed

theorem websocket_needs_log_off_witness:
  "\<exists>srv. Setup calm_startup Map.empty (server_New (applyDefaults sample_config) True) = (None, srv)
     \<and> s_hub (fst (run_state (serve sample_per_request sample_mux (\<lambda>r w. w) srv
          ((sample_request [])\<lparr>req_path := ''/ws''\<rparr>) (sample_sys, new_response)))) = s_hub sample_sys"
proof -
  let ?c = "applyDefaults sample_config"
  let ?r = "(sample_request [])\<lparr>req_path := ''/ws''\<rparr>"
  obtain srv where s: "Setup calm_startup Map.empty (server_New ?c True) = (None, srv)"
    by (rule sample_setup)
  have on: "mw_Logger (c_Middlewares ?c)" "ws_Path (c_WebSocket ?c) = ''/ws''" "ws_Enabled (c_WebSocket ?c)"
    "srv_APIPrefix (c_Server ?c) = ''/api/v1''"
    by (simp_all add: applyDefaults_def sample_config_def dflt_def)
  have req: "req_method ?r = ''GET''" "req_path ?r = ''/ws''"
    by (simp_all add: sample_request_def)
  have m: "sample_mux (routes srv) (req_method ?r) (req_path ?r) = Some WebSocketEP"
    unfolding req using routes_table [OF sample_mux_ok s sample_paths(1,5)] on by (simp add: routing_table_def Let_def)
  have "needs_hijacker (q_upgrade sample_per_request)"
    by (auto simp: needs_hijacker_def sample_per_request_def)
  from websocket_needs_log_off [OF this s, where m = sample_mux and r = ?r] m s on(1) show ?thesis
    by blast
qed

end
