(* ===== verification/Main_Program.thy ===== *)
theory Main_Program
  imports Routes
begin

text \<open>
  \<open>main.go\<close>, and \<open>Start\<close> of \<open>server/server.go\<close>: from the logger over the configuration and the set-up
  to the end of the process.  The outcomes of the file system, the environment file, the libraries
  and the listener are arguments; how a process ended is its exit code with the resources it closed,
  or a panic, in \<open>main\<close> or in a goroutine, which ends the process just the same.  \<open>p_goroutines_run\<close> tells
  whether the goroutine that the set-up started got to run before the process ended by itself.
\<close>

record process_env =
  p_logs_exists :: bool
  p_mkdir_err :: "bytes option"
  p_open_err :: "bytes option"
  p_dotenv_err :: "bytes option"
  p_config :: "Config fallible"
  p_startup :: startup
  p_env :: "bytes \<rightharpoonup> bytes"
  p_listen_err :: "bytes option"
  p_goroutines_run :: bool

datatype program_end = Exited int "resource list" "entry list" | Crashed_with bytes

text \<open>
  \<open>Start\<close>: the listener runs until a signal comes, or until it fails, which sends the signal itself;
  either way \<open>Shutdown\<close> runs and \<open>Start\<close> returns.
\<close>

definition Start :: "bytes option \<Rightarrow> server \<Rightarrow> Logger option \<Rightarrow> (resource list \<times> Logger option) go" where
  "Start listen_err s lg =
     go_bind (logger_Info ''[SERVER] Started'' lg) (\<lambda>lg.
     go_bind (case listen_err of
                Some err \<Rightarrow> logger_Error ''[SERVER] HTTP server error'' lg
              | None \<Rightarrow> Ret lg) (\<lambda>lg.
     go_bind (logger_Info (''[SERVER] Shutdown signal received, draining connections''
         @ [CHR 0xE2, CHR 0x80, CHR 0xA6]) lg) (\<lambda>lg.
       Ret (Shutdown s, lg))))"

text \<open>What is in the log file when the process ends; \<open>os.Exit\<close> skips the deferred \<open>Close\<close>.\<close>

definition exit_with :: "int \<Rightarrow> resource list \<Rightarrow> Logger option \<Rightarrow> program_end" where
  "exit_with code closed lg =
     Exited code closed (case lg of Some g \<Rightarrow> sl_out (FileLogger g) | None \<Rightarrow> [])"

definition go_end :: "'a go \<Rightarrow> ('a \<Rightarrow> program_end) \<Rightarrow> program_end" where
  "go_end r k = (case r of Ret a \<Rightarrow> k a | Panic m \<Rightarrow> Crashed_with m)"

definition main :: "process_env \<Rightarrow> program_end" where
  "main P =
     (let lg = NewLogger (p_logs_exists P) (p_mkdir_err P) (p_open_err P)
      in go_end (case p_dotenv_err P of
                   Some err \<Rightarrow> logger_Warn ''No .env file found, relying on environment variables'' lg
                 | None \<Rightarrow> Ret lg) (\<lambda>lg.
         if lg = None
         then go_end (logger_Error ''Failed to initialise logger, aborting'' lg) (exit_with 1 [])
         else case p_config P of
             Inl err \<Rightarrow> go_end (logger_Error ''Failed to load config'' lg) (exit_with 1 [])
           | Inr c \<Rightarrow>
               (case Setup (p_startup P) (p_env P) (server_New c True) of
                  (Some err, s) \<Rightarrow> go_end (logger_Error ''Failed to set up server'' lg) (exit_with 1 [])
                | (None, s) \<Rightarrow>
                    go_end (if p_goroutines_run P then background s else Ret ()) (\<lambda>_.
                    go_end (Start (p_listen_err P) s lg) (\<lambda>(closed, lg).
                    go_end (logger_Close lg) (\<lambda>_. exit_with 0 closed lg))))))"

lemma log_at_Some:
  "log_at l msg (Some g) = Ret (Some (g\<lparr>FileLogger := slog_write l msg (FileLogger g),
     StdoutLogger := slog_write l msg (StdoutLogger g)\<rparr>))"
  by (simp add: log_at_def)

text \<open>The limiter is on and its window, an \<open>int64\<close> of nanoseconds, is not positive.\<close>

definition limiter_dies :: "Config \<Rightarrow> bool" where
  "limiter_dies c \<longleftrightarrow> rate_Enabled (sec_RateLimit (c_Security c))
     \<and> seconds_duration (rate_WindowSeconds (sec_RateLimit (c_Security c))) \<le> 0"

lemma Setup_background:
  assumes "Setup x env (server_New c web) = (None, s)"
  shows "background s = (if limiter_dies c then Panic ''non-positive interval for NewTicker'' else Ret ())"
proof -
  obtain s1 where "s = setupDocs (setupRouter s1)" "cfg s1 = c" by (rule Setup_done [OF assms])
  then have "background s = limiter_goroutine c" by (simp add: setupDocs_def setupRouter_def Let_def)
  then show ?thesis by (simp add: limiter_goroutine_def limiter_dies_def cleanup_def NewRateLimiter_def Let_def)
qed

lemmas logger_calls = logger_Info_def logger_Warn_def logger_Error_def log_at_Some logger_Close_def

text \<open>
  C28. How the process ends.  Without a logger it panics, with or without an environment file: the
  branch that would report this and exit with 1 dereferences the nil logger first.  With a logger it
  exits with 1 exactly where the configuration cannot be loaded or the set-up fails, and then closes
  nothing, not even the pool a half-way set-up had opened.  After a set-up that succeeded, a rate limiter
  whose window is not positive, as given or after the overflow of the product with a second, crashes
  the process as soon as its goroutine runs.  Otherwise the process, once it gets its signal, ends with
  0 after closing everything in reverse, even where the listener could not be started, say because the
  port is taken.
\<close>
theorem main_ends:
  "(NewLogger (p_logs_exists P) (p_mkdir_err P) (p_open_err P) = None \<longrightarrow>
        main P = Crashed_with ''invalid memory address or nil pointer dereference'')
    \<and> (NewLogger (p_logs_exists P) (p_mkdir_err P) (p_open_err P) \<noteq> None \<longrightarrow>
        (case p_config P of
           Inl err \<Rightarrow> \<exists>out. main P = Exited 1 [] out
         | Inr c \<Rightarrow>
             (case Setup (p_startup P) (p_env P) (server_New c True) of
                (Some err, s) \<Rightarrow> \<exists>out. main P = Exited 1 [] out
              | (None, s) \<Rightarrow>
                  if p_goroutines_run P \<and> limiter_dies c
                  then main P = Crashed_with ''non-positive interval for NewTicker''
                  else \<exists>out. main P = Exited 0 (Shutdown s) out
                    \<and> (p_listen_err P \<noteq> None \<longrightarrow>
                         \<lparr>en_level = Error, en_msg = ''[SERVER] HTTP server error''\<rparr> \<in> set out))))"
proof (cases "NewLogger (p_logs_exists P) (p_mkdir_err P) (p_open_err P)")
  case None
  then show ?thesis
    by (simp add: main_def go_end_def logger_Warn_def logger_Error_def log_at_def split: option.splits)
next
  case lg: (Some g)
  then have lv: "sl_Level (FileLogger g) = Debug" by (auto simp: NewLogger_def split: if_splits)
  show ?thesis
  proof (cases "p_config P")
    case (Inl err)
    with lg show ?thesis
      by (cases "p_dotenv_err P") (simp_all add: main_def go_end_def exit_with_def logger_calls)
  next
    case (Inr c)
    obtain e s where s: "Setup (p_startup P) (p_env P) (server_New c True) = (e, s)" by fastforce
    show ?thesis
    proof (cases e)
      case (Some err)
      with lg Inr s show ?thesis
        by (cases "p_dotenv_err P") (simp_all add: main_def go_end_def exit_with_def logger_calls)
    next
      case None
      with s have "background s = (if limiter_dies c then Panic ''non-positive interval for NewTicker'' else Ret ())"
        by (simp add: Setup_background)
      with lg Inr s None lv show ?thesis
        by (cases "p_goroutines_run P \<and> limiter_dies c"; cases "p_listen_err P"; cases "p_dotenv_err P")
          (auto simp: main_def go_end_def exit_with_def Start_def logger_calls slog_write_def slog_enabled_def)
    qed
  qed
qed

theorem main_ends_witness:
  "\<exists>out. main \<lparr>p_logs_exists = True, p_mkdir_err = None, p_open_err = None, p_dotenv_err = Some ''absent'',
      p_config = Inr sample_config, p_startup = calm_startup\<lparr>x_ping_db := (\<lambda>_. Some ''refused'')\<rparr>,
      p_env = Map.empty, p_listen_err = None, p_goroutines_run = True\<rparr> = Exited 1 [] out"
proof -
  let ?P = "\<lparr>p_logs_exists = True, p_mkdir_err = None, p_open_err = None, p_dotenv_err = Some ''absent'',
      p_config = Inr sample_config, p_startup = calm_startup\<lparr>x_ping_db := (\<lambda>_. Some ''refused'')\<rparr>,
      p_env = Map.empty, p_listen_err = None, p_goroutines_run = True\<rparr>"
  have g: "NewLogger (p_logs_exists ?P) (p_mkdir_err ?P) (p_open_err ?P) \<noteq> None"
    by (simp add: NewLogger_def)
  have "fst (Setup (p_startup ?P) (p_env ?P) (server_New sample_config True)) \<noteq> None"
    by (simp add: Setup_def setupDatabase_def Connect_def calm_startup_def Let_def)
  moreover have "p_config ?P = Inr sample_config" by simp
  ultimately show ?thesis using conjunct2 [OF main_ends [of ?P]] g by auto
qed

end
