(* ===== verification/Json_String.thy ===== *)
theory Json_String
  imports Utf8 Go_Format
begin

text \<open>
  Strings as \<open>encoding/json\<close> writes and reads them.  The encoder escapes quotes, backslashes, control
  characters, the three bytes HTML cares about and the two Unicode line separators, and replaces
  what is not UTF-8; the decoder resolves escapes, surrogate pairs among them, and replaces what is
  not UTF-8 as well.
\<close>

section \<open>Writing\<close>

definition hex_digit :: "nat \<Rightarrow> char" where
  "hex_digit d = (if d < 10 then char_of (48 + d) else char_of (87 + d))"

definition replacement :: bytes where
  "replacement = [CHR 0xEF, CHR 0xBF, CHR 0xBD]"

definition escape_byte :: "char \<Rightarrow> bytes" where
  "escape_byte c =
     (if byte c = 34 \<or> byte c = 92 then [CHR 0x5C, c]
      else if byte c = 8 then [CHR 0x5C, CHR ''b'']
      else if byte c = 12 then [CHR 0x5C, CHR ''f'']
      else if byte c = 10 then [CHR 0x5C, CHR ''n'']
      else if byte c = 13 then [CHR 0x5C, CHR ''r'']
      else if byte c = 9 then [CHR 0x5C, CHR ''t'']
      else if byte c < 32 \<or> byte c = 60 \<or> byte c = 62 \<or> byte c = 38
      then [CHR 0x5C, CHR ''u'', CHR ''0'', CHR ''0'', hex_digit (byte c div 16), hex_digit (byte c mod 16)]
      else [c])"

definition line_separator :: "bytes \<Rightarrow> bool" where
  "line_separator cs \<longleftrightarrow> cs = [CHR 0xE2, CHR 0x80, CHR 0xA8] \<or> cs = [CHR 0xE2, CHR 0x80, CHR 0xA9]"

definition escape_char :: "bytes \<Rightarrow> bytes" where
  "escape_char cs =
     (if line_separator cs
      then [CHR 0x5C, CHR ''u'', CHR ''2'', CHR ''0'', CHR ''2'', hex_digit (byte (last cs) mod 16)]
      else case cs of [c] \<Rightarrow> escape_byte c | _ \<Rightarrow> cs)"

function escape :: "bytes \<Rightarrow> bytes" where
  "escape s =
     (if s = [] then []
      else if utf8_head s = 0 then (CHR 0x5C # ''ufffd'') @ escape (tl s)
      else escape_char (take (utf8_head s) s) @ escape (drop (utf8_head s) s))"
  by pat_completeness auto
termination by (relation "measure length") auto

declare escape.simps [simp del]

definition json_quote :: "bytes \<Rightarrow> bytes" where
  "json_quote s = CHR 0x22 # escape s @ [CHR 0x22]"

section \<open>Reading\<close>

definition hex_val :: "char \<Rightarrow> nat option" where
  "hex_val c =
     (if is_digit c then Some (byte c - 48)
      else if 97 \<le> byte c \<and> byte c \<le> 102 then Some (byte c - 87)
      else if 65 \<le> byte c \<and> byte c \<le> 70 then Some (byte c - 55)
      else None)"

text \<open>Four hexadecimal digits, and what follows them.\<close>

definition read_u4 :: "bytes \<Rightarrow> (nat \<times> bytes) option" where
  "read_u4 s =
     (case s of
        a # b # c # d # r \<Rightarrow>
          (case (hex_val a, hex_val b, hex_val c, hex_val d) of
             (Some a, Some b, Some c, Some d) \<Rightarrow> Some (((a * 16 + b) * 16 + c) * 16 + d, r)
           | _ \<Rightarrow> None)
      | _ \<Rightarrow> None)"

text \<open>\<open>utf8.AppendRune\<close>; a surrogate becomes the replacement character.\<close>

definition utf8_encode :: "nat \<Rightarrow> bytes" where
  "utf8_encode n =
     (if n < 128 then [char_of n]
      else if n < 2048 then [char_of (192 + n div 64), char_of (128 + n mod 64)]
      else if 55296 \<le> n \<and> n < 57344 then replacement
      else if n < 65536
      then [char_of (224 + n div 4096), char_of (128 + n div 64 mod 64), char_of (128 + n mod 64)]
      else [char_of (240 + n div 262144), char_of (128 + n div 4096 mod 64),
            char_of (128 + n div 64 mod 64), char_of (128 + n mod 64)])"

text \<open>After \<open>\u\<close>: a pair of surrogates is one character, a lone one is replaced.\<close>

definition read_rune :: "bytes \<Rightarrow> (bytes \<times> bytes) option" where
  "read_rune s =
     (case read_u4 s of
        None \<Rightarrow> None
      | Some (hi, r) \<Rightarrow>
          if 55296 \<le> hi \<and> hi < 56320 \<and> take 2 r = [CHR 0x5C, CHR ''u'']
          then (case read_u4 (drop 2 r) of
                  Some (lo, r') \<Rightarrow>
                    if 56320 \<le> lo \<and> lo < 57344
                    then Some (utf8_encode (65536 + (hi - 55296) * 1024 + (lo - 56320)), r')
                    else Some (replacement, r)
                | None \<Rightarrow> None)
          else Some (utf8_encode hi, r))"

text \<open>A plain escape, as the byte it stands for.\<close>

definition plain_escape :: "char \<Rightarrow> char option" where
  "plain_escape e =
     (if byte e = 34 \<or> byte e = 92 \<or> byte e = 47 then Some e
      else if e = CHR ''b'' then Some (CHR 0x08)
      else if e = CHR ''f'' then Some (CHR 0x0C)
      else if e = CHR ''n'' then Some (CHR 0x0A)
      else if e = CHR ''r'' then Some (CHR 0x0D)
      else if e = CHR ''t'' then Some (CHR 0x09)
      else None)"

definition prepend :: "bytes \<Rightarrow> (bytes \<times> 'r) option \<Rightarrow> (bytes \<times> 'r) option" where
  "prepend x r = map_option (\<lambda>(s, r). (x @ s, r)) r"

lemma read_u4_length: "read_u4 s = Some (n, r) \<Longrightarrow> length r < length s"
  by (auto simp: read_u4_def split: list.splits option.splits)

lemma read_rune_length: "read_rune s = Some (x, r) \<Longrightarrow> length r < length s"
  by (force simp: read_rune_def split: option.splits if_splits dest: read_u4_length)

text \<open>The rest of a string after its opening quote, up to the closing one.\<close>

function unquote :: "bytes \<Rightarrow> (bytes \<times> bytes) option" where
  "unquote s =
     (case s of
        [] \<Rightarrow> None
      | c # cs \<Rightarrow>
          if byte c = 34 then Some ([], cs)
          else if byte c = 92 then
            (case cs of
               [] \<Rightarrow> None
             | e # r \<Rightarrow>
                 if e = CHR ''u'' then
                   (case read_rune r of None \<Rightarrow> None | Some (x, r') \<Rightarrow> prepend x (unquote r'))
                 else (case plain_escape e of None \<Rightarrow> None | Some x \<Rightarrow> prepend [x] (unquote r)))
          else if byte c < 32 then None
          else if utf8_head s = 0 then prepend replacement (unquote cs)
          else prepend (take (utf8_head s) s) (unquote (drop (utf8_head s) s)))"
  by pat_completeness auto
termination
  by (relation "measure length") (auto dest!: read_rune_length)

declare unquote.simps [simp del]

section \<open>What is written can be read\<close>

lemma hex_val_digit: "d < 16 \<Longrightarrow> hex_val (hex_digit d) = Some d"
  by (cases "d < 10") (simp_all add: hex_val_def hex_digit_def is_digit_def)

lemma utf8_head_1: "utf8_head (c # s) = 1 \<Longrightarrow> byte c < 128"
  using utf8_leads [of "byte c"]
  by (elim disjE) (simp_all add: utf8_head_def utf8_len_def Let_def split: if_splits)

lemma utf8_head_multi: "1 < utf8_head (c # s) \<Longrightarrow> 194 \<le> byte c"
  using utf8_leads [of "byte c"]
  by (elim disjE) (simp_all add: utf8_head_def utf8_len_def Let_def split: if_splits)

lemma prepend_Some [simp]: "prepend x (Some (s, r)) = Some (x @ s, r)"
  by (simp add: prepend_def)

lemma byte_eqD: "byte c = n \<Longrightarrow> c = char_of n" for n :: nat
  by (drule arg_cong [of _ _ char_of]) simp

lemma plain_escapes:
  "char_of (8 :: nat) = CHR 0x08" "char_of (12 :: nat) = CHR 0x0C" "char_of (10 :: nat) = CHR 0x0A"
  "char_of (13 :: nat) = CHR 0x0D" "char_of (9 :: nat) = CHR 0x09"
  "char_of (34 :: nat) = CHR 0x22" "char_of (92 :: nat) = CHR 0x5C"
  "char_of (226 :: nat) = CHR 0xE2" "char_of (128 :: nat) = CHR 0x80" "char_of (168 :: nat) = CHR 0xA8"
  "char_of (169 :: nat) = CHR 0xA9"
  by code_simp+

lemma unquote_plain:
  "plain_escape e = Some x \<Longrightarrow> e \<noteq> CHR ''u'' \<Longrightarrow> unquote (CHR 0x5C # e # t) = prepend [x] (unquote t)"
  by (simp add: unquote.simps [of "_ # _"])

lemma escape_byte_plain:
  assumes "byte c \<in> {34, 92, 8, 12, 10, 13, 9 :: nat}"
  shows "\<exists>e. escape_byte c = [CHR 0x5C, e] \<and> plain_escape e = Some c \<and> e \<noteq> CHR ''u''"
proof -
  have "c \<in> {CHR 0x22, CHR 0x5C, CHR 0x08, CHR 0x0C, CHR 0x0A, CHR 0x0D, CHR 0x09}"
    using assms by (auto dest!: byte_eqD simp: plain_escapes)
  then show ?thesis
    by (elim insertE emptyE) (simp_all add: escape_byte_def plain_escape_def)
qed

lemma unquote_escape_byte:
  assumes "byte c < 128"
  shows "unquote (escape_byte c @ t) = prepend [c] (unquote t)"
proof -
  let ?b = "byte c :: nat"
  consider "?b \<in> {34, 92, 8, 12, 10, 13, 9}"
    | "?b \<notin> {34, 92, 8, 12, 10, 13, 9}" "?b < 32 \<or> ?b = 60 \<or> ?b = 62 \<or> ?b = 38"
    | "?b \<notin> {34, 92, 60, 62, 38}" "32 \<le> ?b"
    by force
  then show ?thesis
  proof cases
    case 1
    then show ?thesis using escape_byte_plain [of c] by (auto simp: unquote_plain)
  next
    case 2
    have "?b div 16 < 16" "?b mod 16 < 16" using assms by simp_all
    moreover have "hex_val (CHR ''0'') = Some 0" by (simp add: hex_val_def is_digit_def)
    moreover have "?b div 16 * 16 + ?b mod 16 = ?b" by simp
    ultimately have "read_u4 (CHR ''0'' # CHR ''0'' # hex_digit (?b div 16) # hex_digit (?b mod 16) # t) = Some (?b, t)"
      by (simp add: read_u4_def hex_val_digit)
    moreover have "utf8_encode ?b = [c]" using assms by (simp add: utf8_encode_def)
    ultimately have "read_rune (CHR ''0'' # CHR ''0'' # hex_digit (?b div 16) # hex_digit (?b mod 16) # t) = Some ([c], t)"
      using assms by (simp add: read_rune_def)
    moreover have "escape_byte c
        = [CHR 0x5C, CHR ''u'', CHR ''0'', CHR ''0'', hex_digit (?b div 16), hex_digit (?b mod 16)]"
      using 2 by (simp add: escape_byte_def)
    ultimately show ?thesis by (simp add: unquote.simps [of "_ # _"])
  next
    case 3
    moreover have "utf8_head (c # t) = 1" using assms by (simp add: utf8_head_def utf8_len_def)
    ultimately show ?thesis by (simp add: escape_byte_def unquote.simps [of "_ # _"])
  qed
qed

lemma unquote_escape_char:
  assumes "utf8_head s = n" "n \<noteq> 0"
  shows "unquote (escape_char (take n s) @ t) = prepend (take n s) (unquote t)"
proof -
  obtain c s' where s: "s = c # s'"
    using assms by (cases s) (auto simp: utf8_head_def)
  show ?thesis
  proof (cases "n = 1")
    case True
    then have "byte c < 128" using assms(1) utf8_head_1 s by blast
    with True s show ?thesis
      by (simp add: escape_char_def line_separator_def unquote_escape_byte)
  next
    case False
    then have c: "194 \<le> byte c" using assms utf8_head_multi [of c s'] s by auto
    have len: "length (take n s) = n" using utf8_head_length [of s] assms(1) by simp
    with False assms(2) obtain c' d cs where cs: "take n s = c' # d # cs"
      by (cases "take n s"; cases "tl (take n s)") auto
    with s assms(2) have [simp]: "c' = c" by (cases n) auto
    show ?thesis
    proof (cases "line_separator (take n s)")
      case True
      then have "take n s = [CHR 0xE2, CHR 0x80, CHR 0xA8] \<or> take n s = [CHR 0xE2, CHR 0x80, CHR 0xA9]"
        by (simp add: line_separator_def)
      then show ?thesis
        by (elim disjE) (simp_all add: escape_char_def line_separator_def unquote.simps [of "_ # _"]
            read_rune_def read_u4_def hex_val_def is_digit_def utf8_encode_def hex_digit_def plain_escapes)
    next
      case False
      have n: "n = length (c # d # cs)" using len cs by simp
      have "utf8_head (take n s @ t) = n" by (rule utf8_head_take [OF assms])
      then have "utf8_head (c # d # cs @ t) = length (c # d # cs)" using cs n by simp
      with False cs c show ?thesis
        by (simp add: escape_char_def unquote.simps [of "c # _"])
    qed
  qed
qed

lemma unquote_escape:
  assumes "utf8_chars s \<noteq> None"
  shows "unquote (escape s @ CHR 0x22 # t) = Some (s, t)"
  using assms
proof (induction s rule: escape.induct)
  case (1 s)
  show ?case
  proof (cases "s = []")
    case True
    then show ?thesis by (simp add: escape.simps [of "[]"] unquote.simps [of "_ # _"])
  next
    case False
    with "1.prems" have h: "utf8_head s \<noteq> 0"
      by (auto simp: utf8_chars.simps [of s] split: if_splits)
    with False "1.prems" have "utf8_chars (drop (utf8_head s) s) \<noteq> None"
      by (auto simp: utf8_chars.simps [of s])
    with False h "1.IH"(2) have "unquote (escape (drop (utf8_head s) s) @ CHR 0x22 # t) = Some (drop (utf8_head s) s, t)"
      by simp
    with False h unquote_escape_char [OF refl h] show ?thesis
      by (simp add: escape.simps [of s])
  qed
qed

text \<open>Text that is UTF-8 survives the trip.\<close>

definition json_unquote :: "bytes \<Rightarrow> bytes option" where
  "json_unquote s = (case s of [] \<Rightarrow> None
     | c # cs \<Rightarrow> if byte c \<noteq> 34 then None
                else (case unquote cs of Some (x, []) \<Rightarrow> Some x | _ \<Rightarrow> None))"

interpretation json_string: codec json_quote json_unquote "\<lambda>s. utf8_chars s \<noteq> None"
  by unfold_locales (simp add: json_quote_def json_unquote_def unquote_escape)

end
