(* ===== verification/Json.thy ===== *)
theory Json
  imports Json_String Http
begin

text \<open>
  \<open>encoding/json\<close>: the text of a value, the parser, and decoding into a struct of strings, which is
  what every request body and the job of this program is.  The number of a float is the parameter
  \<open>ft\<close> of the encoder.  The parser takes fuel for its recursion; twice the length of the text and one more
  is always enough.  Values may be nested 10,000 deep, as in the library.
\<close>

section \<open>Writing\<close>

fun json_text :: "(int \<Rightarrow> int \<Rightarrow> bytes) \<Rightarrow> gov \<Rightarrow> bytes" where
  "json_text ft JNull = ''null''"
| "json_text ft (JBool b) = (if b then ''true'' else ''false'')"
| "json_text ft (JInt i) = show_int i"
| "json_text ft (JFloat m e) = ft m e"
| "json_text ft (JStr s) = json_quote s"
| "json_text ft (JArr vs) = CHR ''['' # join_byte (CHR '','') (map (json_text ft) vs) @ '']''"
| "json_text ft (JObj kvs) =
     CHR ''{'' # join_byte (CHR '','') (map (\<lambda>(k, v). json_quote k @ CHR '':'' # json_text ft v) kvs) @ ''}''"
| "json_text ft JUnsupported = []"

section \<open>Parsing\<close>

datatype json =
  JsNull | JsBool bool | JsNum bytes | JsStr bytes | JsArr "json list" | JsObj "(bytes \<times> json) list"

definition json_blank :: "char \<Rightarrow> bool" where
  "json_blank c \<longleftrightarrow> byte c \<in> {32, 9, 10, 13 :: nat}"

definition skip_ws :: "bytes \<Rightarrow> bytes" where
  "skip_ws s = dropWhile json_blank s"

text \<open>The next byte after blanks, where it is \<open>c\<close>.\<close>

definition expect :: "char \<Rightarrow> bytes \<Rightarrow> bytes option" where
  "expect c s = (case skip_ws s of [] \<Rightarrow> None | x # r \<Rightarrow> if x = c then Some r else None)"

definition digits :: "bytes \<Rightarrow> (bytes \<times> bytes) option" where
  "digits s = (let ds = takeWhile is_digit s in if ds = [] then None else Some (ds, dropWhile is_digit s))"

text \<open>A number: sign, digits without a superfluous zero, fraction, exponent.\<close>

definition scan_intpart :: "bytes \<Rightarrow> (bytes \<times> bytes) option" where
  "scan_intpart s =
     (case s of [] \<Rightarrow> None | c # r \<Rightarrow> if c = CHR ''0'' then Some (''0'', r) else digits s)"

definition scan_frac :: "bytes \<Rightarrow> (bytes \<times> bytes) option" where
  "scan_frac s =
     (case s of
        [] \<Rightarrow> Some ([], [])
      | c # r \<Rightarrow> if c = CHR ''.'' then map_option (\<lambda>(ds, r). (c # ds, r)) (digits r) else Some ([], s))"

definition scan_exp :: "bytes \<Rightarrow> (bytes \<times> bytes) option" where
  "scan_exp s =
     (case s of
        [] \<Rightarrow> Some ([], [])
      | c # r \<Rightarrow>
          if c = CHR ''e'' \<or> c = CHR ''E'' then
            (case r of
               x # r' \<Rightarrow>
                 if x = CHR ''+'' \<or> x = CHR ''-'' then map_option (\<lambda>(ds, r). (c # x # ds, r)) (digits r')
                 else map_option (\<lambda>(ds, r). (c # ds, r)) (digits r)
             | [] \<Rightarrow> None)
          else Some ([], s))"

definition scan_number :: "bytes \<Rightarrow> (bytes \<times> bytes) option" where
  "scan_number s =
     (let (sign, s) = (case s of [] \<Rightarrow> ([], s) | c # r \<Rightarrow> if c = CHR ''-'' then ([c], r) else ([], s))
      in case scan_intpart s of
           None \<Rightarrow> None
         | Some (i, s) \<Rightarrow>
             (case scan_frac s of
                None \<Rightarrow> None
              | Some (f, s) \<Rightarrow>
                  (case scan_exp s of None \<Rightarrow> None | Some (e, s) \<Rightarrow> Some (sign @ i @ f @ e, s))))"

definition scan_word :: "bytes \<Rightarrow> json \<Rightarrow> bytes \<Rightarrow> (json \<times> bytes) option" where
  "scan_word w v s = (if prefix w s then Some (v, drop (length w) s) else None)"

text \<open>
  \<open>pval\<close> reads a value, \<open>pelems\<close> the elements of an array after its bracket and up to the closing one,
  \<open>pmembers\<close> the members of an object.  \<open>n\<close> is fuel, \<open>d\<close> the nesting still allowed.
\<close>

fun pval :: "nat \<Rightarrow> nat \<Rightarrow> bytes \<Rightarrow> (json \<times> bytes) option"
  and pelems :: "nat \<Rightarrow> nat \<Rightarrow> bytes \<Rightarrow> (json list \<times> bytes) option"
  and pmembers :: "nat \<Rightarrow> nat \<Rightarrow> bytes \<Rightarrow> ((bytes \<times> json) list \<times> bytes) option"
where
  "pval 0 d s = None"
| "pval (Suc n) d s =
     (case skip_ws s of
        [] \<Rightarrow> None
      | c # r \<Rightarrow>
          if byte c = 34 then map_option (\<lambda>(x, r). (JsStr x, r)) (unquote r)
          else if c = CHR ''['' then
            (if d = 0 then None
             else case expect (CHR '']'') r of
                 Some r \<Rightarrow> Some (JsArr [], r)
               | None \<Rightarrow> map_option (\<lambda>(vs, r). (JsArr vs, r)) (pelems n (d - 1) r))
          else if c = CHR ''{'' then
            (if d = 0 then None
             else case expect (CHR ''}'') r of
                 Some r \<Rightarrow> Some (JsObj [], r)
               | None \<Rightarrow> map_option (\<lambda>(kvs, r). (JsObj kvs, r)) (pmembers n (d - 1) r))
          else if c = CHR ''n'' then scan_word ''null'' JsNull (c # r)
          else if c = CHR ''t'' then scan_word ''true'' (JsBool True) (c # r)
          else if c = CHR ''f'' then scan_word ''false'' (JsBool False) (c # r)
          else map_option (\<lambda>(x, r). (JsNum x, r)) (scan_number (c # r)))"
| "pelems 0 d s = None"
| "pelems (Suc n) d s =
     (case pval n d s of
        None \<Rightarrow> None
      | Some (v, r) \<Rightarrow>
          (case expect (CHR '']'') r of
             Some r \<Rightarrow> Some ([v], r)
           | None \<Rightarrow>
               (case expect (CHR '','') r of
                  None \<Rightarrow> None
                | Some r \<Rightarrow> map_option (\<lambda>(vs, r). (v # vs, r)) (pelems n d r))))"
| "pmembers 0 d s = None"
| "pmembers (Suc n) d s =
     (case expect (CHR 0x22) s of
        None \<Rightarrow> None
      | Some r \<Rightarrow>
          (case unquote r of
             None \<Rightarrow> None
           | Some (k, r) \<Rightarrow>
               (case expect (CHR '':'') r of
                  None \<Rightarrow> None
                | Some r \<Rightarrow>
                    (case pval n d r of
                       None \<Rightarrow> None
                     | Some (v, r) \<Rightarrow>
                         (case expect (CHR ''}'') r of
                            Some r \<Rightarrow> Some ([(k, v)], r)
                          | None \<Rightarrow>
                              (case expect (CHR '','') r of
                                 None \<Rightarrow> None
                               | Some r \<Rightarrow> map_option (\<lambda>(kvs, r). ((k, v) # kvs, r)) (pmembers n d r)))))))"

declare pval.simps(2) [simp del] pelems.simps(2) [simp del] pmembers.simps(2) [simp del]

definition json_parse :: "bytes \<Rightarrow> (json \<times> bytes) option" where
  "json_parse s = pval (2 * length s + 1) 10000 s"

section \<open>Decoding into a struct of strings\<close>

text \<open>
  A key is compared with the names of the fields as it is, then with letter case folded; two
  letters outside ASCII fold to ASCII ones, the long s and the Kelvin sign.
\<close>

definition fold_char :: "bytes \<Rightarrow> bytes" where
  "fold_char cs =
     (if cs = [CHR 0xC5, CHR 0xBF] then ''S''
      else if cs = [CHR 0xE2, CHR 0x84, CHR 0xAA] then ''K''
      else case cs of [c] \<Rightarrow> [upper_byte c] | _ \<Rightarrow> cs)"

definition fold_key :: "bytes \<Rightarrow> bytes" where
  "fold_key k = (case utf8_chars k of None \<Rightarrow> k | Some cs \<Rightarrow> concat (map fold_char cs))"

definition field_of :: "bytes list \<Rightarrow> bytes \<Rightarrow> bytes option" where
  "field_of names k =
     (if k \<in> set names then Some k else find (\<lambda>n. fold_key n = fold_key k) names)"

text \<open>
  Each member in turn: a string is stored, null leaves the field, unknown keys are skipped, and a
  value of another type is an error in the end, though decoding goes on.
\<close>

fun store_members :: "bytes list \<Rightarrow> (bytes \<times> json) list \<Rightarrow> (bytes \<Rightarrow> bytes) \<Rightarrow> bool \<times> (bytes \<Rightarrow> bytes)" where
  "store_members names [] st = (True, st)"
| "store_members names ((k, v) # kvs) st =
     (case field_of names k of
        None \<Rightarrow> store_members names kvs st
      | Some n \<Rightarrow>
          (case v of
             JsStr x \<Rightarrow> store_members names kvs (st(n := x))
           | JsNull \<Rightarrow> store_members names kvs st
           | _ \<Rightarrow> (False, snd (store_members names kvs st))))"

text \<open>
  The fields of a struct, empty at first.  \<open>syn\<close> and \<open>typ\<close> are the texts of the two kinds of errors,
  which depend on the input.
\<close>

definition decode_value :: "bytes \<Rightarrow> bytes list \<Rightarrow> json \<Rightarrow> (bytes \<Rightarrow> bytes) fallible" where
  "decode_value typ names v =
     (case v of
        JsNull \<Rightarrow> Inr (\<lambda>_. [])
      | JsObj kvs \<Rightarrow>
          (case store_members names kvs (\<lambda>_. []) of
             (True, st) \<Rightarrow> Inr st
           | (False, st) \<Rightarrow> Inl typ)
      | _ \<Rightarrow> Inl typ)"

text \<open>\<open>Unmarshal\<close> wants one value and nothing after it; \<open>Decoder.Decode\<close> reads the first value only.\<close>

definition Unmarshal :: "(bytes \<Rightarrow> bytes) \<Rightarrow> (bytes \<Rightarrow> bytes) \<Rightarrow> bytes list \<Rightarrow> bytes \<Rightarrow> (bytes \<Rightarrow> bytes) fallible" where
  "Unmarshal syn typ names s =
     (case json_parse s of
        Some (v, r) \<Rightarrow> if skip_ws r = [] then decode_value (typ s) names v else Inl (syn s)
      | None \<Rightarrow> Inl (syn s))"

definition Decode :: "(bytes \<Rightarrow> bytes) \<Rightarrow> (bytes \<Rightarrow> bytes) \<Rightarrow> bytes list \<Rightarrow> bytes \<Rightarrow> (bytes \<Rightarrow> bytes) fallible" where
  "Decode syn typ names s =
     (case json_parse s of
        Some (v, r) \<Rightarrow> decode_value (typ s) names v
      | None \<Rightarrow> Inl (syn s))"

section \<open>Every reader consumes\<close>

lemma skip_ws_length: "length (skip_ws s) \<le> length s"
  by (simp add: skip_ws_def length_dropWhile_le)

lemma expect_length: "expect c s = Some r \<Longrightarrow> length r < length s"
  using skip_ws_length [of s] by (auto simp: expect_def split: list.splits if_splits)

lemma prepend_eq_Some: "prepend x q = Some (s, r) \<longleftrightarrow> (\<exists>z. q = Some (z, r) \<and> s = x @ z)"
  by (cases q) (auto simp: prepend_def)

lemma unquote_step:
  assumes "unquote s = Some (x, r)"
  shows "(\<exists>c. s = c # r) \<or> (\<exists>s' z. length s' < length s \<and> unquote s' = Some (z, r))"
proof (cases s)
  case Nil
  with assms show ?thesis by (simp add: unquote.simps)
next
  case (Cons c cs)
  with assms consider "cs = r"
    | e t y t' z where "cs = e # t" "read_rune t = Some (y, t')" "unquote t' = Some (z, r)"
    | e t z where "cs = e # t" "unquote t = Some (z, r)"
    | z where "unquote cs = Some (z, r)"
    | z where "utf8_head s \<noteq> 0" "unquote (drop (utf8_head s) s) = Some (z, r)"
    by (auto simp: unquote.simps [of "c # cs"] prepend_eq_Some split: if_splits list.splits option.splits)
  then show ?thesis
  proof cases
    case 2
    with Cons read_rune_length [OF 2(2)] have "length t' < length s \<and> unquote t' = Some (z, r)" by simp
    then show ?thesis by blast
  next
    case 3
    with Cons have "length t < length s \<and> unquote t = Some (z, r)" by simp
    then show ?thesis by blast
  next
    case 4
    with Cons have "length cs < length s \<and> unquote cs = Some (z, r)" by simp
    then show ?thesis by blast
  next
    case 5
    with Cons have "length (drop (utf8_head s) s) < length s \<and> unquote (drop (utf8_head s) s) = Some (z, r)"
      by simp
    then show ?thesis by blast
  qed (use Cons in simp)
qed

lemma unquote_length: "unquote s = Some (x, r) \<Longrightarrow> length r < length s"
proof (induction "length s" arbitrary: s x rule: less_induct)
  case less
  from unquote_step [OF less.prems] show ?case
    using less.hyps by fastforce
qed

lemma digits_length: "digits s = Some (x, r) \<Longrightarrow> length r < length s"
proof -
  assume d: "digits s = Some (x, r)"
  then have "s = x @ r" "x \<noteq> []"
    using takeWhile_dropWhile_id [of is_digit s] by (auto simp: digits_def Let_def split: if_splits)
  then show ?thesis by (cases x) simp_all
qed

lemma scan_number_length: "scan_number s = Some (x, r) \<Longrightarrow> length r < length s"
proof -
  assume n: "scan_number s = Some (x, r)"
  have i: "length b < length a" if "scan_intpart a = Some (y, b)" for a y b
    using that by (auto simp: scan_intpart_def split: list.splits if_splits dest: digits_length)
  have f: "length b \<le> length a" if "scan_frac a = Some (y, b)" for a y b
    using that by (auto simp: scan_frac_def split: list.splits if_splits dest!: digits_length)
  have e: "length b \<le> length a" if "scan_exp a = Some (y, b)" for a y b
    using that by (auto simp: scan_exp_def split: list.splits if_splits dest!: digits_length)
  obtain s0 i1 s1 f1 s2 e1 where "scan_intpart s0 = Some (i1, s1)" "scan_frac s1 = Some (f1, s2)"
      "scan_exp s2 = Some (e1, r)" "length s0 \<le> length s"
    using n by (auto simp: scan_number_def split: list.splits option.splits if_splits prod.splits)
  with i [of s0 i1 s1] f [of s1 f1 s2] e [of s2 e1 r] show ?thesis by simp
qed

lemma scan_word_length: "scan_word w v s = Some (x, r) \<Longrightarrow> w \<noteq> [] \<Longrightarrow> length r < length s"
  by (cases w) (auto simp: scan_word_def prefix_def split: if_splits)

lemma parse_length:
  "pval n d s = Some (v, r) \<Longrightarrow> length r < length s"
  "pelems n d s = Some (vs, r) \<Longrightarrow> length r < length s"
  "pmembers n d s = Some (kvs, r) \<Longrightarrow> length r < length s"
proof (induction n d s and n d s and n d s arbitrary: v r and vs r and kvs r
    rule: pval_pelems_pmembers.induct)
  case (2 n d s)
  note sk = skip_ws_length [of s]
  from "2.prems" obtain c t where c: "skip_ws s = c # t"
    by (auto simp: pval.simps split: list.splits)
  with "2.prems" consider x where "unquote t = Some (x, r)"
    | "expect (CHR '']'') t = Some r" | "expect (CHR ''}'') t = Some r"
    | vs where "byte c \<noteq> 34" "d \<noteq> 0" "c = CHR ''[''" "expect (CHR '']'') t = None" "pelems n (d - 1) t = Some (vs, r)"
    | kvs where "byte c \<noteq> 34" "d \<noteq> 0" "c \<noteq> CHR ''[''" "c = CHR ''{''" "expect (CHR ''}'') t = None"
        "pmembers n (d - 1) t = Some (kvs, r)"
    | w v' where "w \<noteq> []" "scan_word w v' (c # t) = Some (v, r)" | x where "scan_number (c # t) = Some (x, r)"
    by (auto simp: pval.simps split: if_splits option.splits)
  then show ?case
  proof cases
    case 4
    from "2.IH"(1) [OF c 4(1,3,2,4,5)] c sk show ?thesis by simp
  next
    case 5
    from "2.IH"(2) [OF c 5(1,3,4,2,5,6)] c sk show ?thesis by simp
  qed (use c sk in \<open>auto dest: unquote_length expect_length scan_word_length scan_number_length\<close>)
next
  case (4 n d s)
  then obtain v t where v: "pval n d s = Some (v, t)"
    by (auto simp: pelems.simps split: option.splits)
  with "4.prems" consider "expect (CHR '']'') t = Some r"
    | t' vs' where "expect (CHR '']'') t = None" "expect (CHR '','') t = Some t'" "pelems n d t' = Some (vs', r)"
    by (auto simp: pelems.simps split: option.splits)
  then show ?case
  proof cases
    case 1
    with "4.IH"(1) [OF v] expect_length [OF 1] show ?thesis by simp
  next
    case 2
    with "4.IH"(1) [OF v] "4.IH"(2) [OF v _ 2(1,2,3)] expect_length [OF 2(2)] show ?thesis by simp
  qed
next
  case (6 n d s)
  then obtain q k t t' v u where v: "expect (CHR 0x22) s = Some q" "unquote q = Some (k, t)"
      "expect (CHR '':'') t = Some t'" "pval n d t' = Some (v, u)"
    by (auto simp: pmembers.simps split: option.splits)
  note less = expect_length [OF v(1)] unquote_length [OF v(2)] expect_length [OF v(3)]
  from "6.prems" v consider "expect (CHR ''}'') u = Some r"
    | u' kvs' where "expect (CHR ''}'') u = None" "expect (CHR '','') u = Some u'" "pmembers n d u' = Some (kvs', r)"
    by (auto simp: pmembers.simps split: option.splits)
  then show ?case
  proof cases
    case 1
    with "6.IH"(1) [OF v(1,2) _ v(3,4)] less expect_length [OF 1] show ?thesis by simp
  next
    case 2
    with "6.IH"(1) [OF v(1,2) _ v(3,4)] "6.IH"(2) [OF v(1,2) refl v(3,4) refl 2(1,2,3)] less expect_length [OF 2(2)]
    show ?thesis by simp
  qed
qed simp_all

section \<open>Enough fuel\<close>

lemma pval_Suc_cong:
  assumes "skip_ws s = c # t"
    and "byte c \<noteq> 34 \<Longrightarrow> c = CHR ''['' \<Longrightarrow> d \<noteq> 0 \<Longrightarrow> expect (CHR '']'') t = None
      \<Longrightarrow> pelems n (d - 1) t = pelems m (d - 1) t"
    and "byte c \<noteq> 34 \<Longrightarrow> c \<noteq> CHR ''['' \<Longrightarrow> c = CHR ''{'' \<Longrightarrow> d \<noteq> 0 \<Longrightarrow> expect (CHR ''}'') t = None
      \<Longrightarrow> pmembers n (d - 1) t = pmembers m (d - 1) t"
  shows "pval (Suc n) d s = pval (Suc m) d s"
proof -
  consider "byte c = 34" | "d = 0" | "byte c \<noteq> 34" "c \<noteq> CHR ''[''" "c \<noteq> CHR ''{''"
    | "byte c \<noteq> 34" "c = CHR ''[''" "d \<noteq> 0" | "byte c \<noteq> 34" "c = CHR ''{''" "d \<noteq> 0"
    by blast
  then show ?thesis
  proof cases
    case 4
    with assms(2) show ?thesis
      by (cases "expect (CHR '']'') t") (simp_all add: pval.simps assms(1))
  next
    case 5
    with assms(3) show ?thesis
      by (cases "expect (CHR ''}'') t") (simp_all add: pval.simps assms(1))
  qed (simp_all add: pval.simps assms(1))
qed

lemma parse_fuel:
  "2 * length s + 1 \<le> n \<Longrightarrow> 2 * length s + 1 \<le> m \<Longrightarrow> pval n d s = pval m d s"
  "2 * length s + 2 \<le> n \<Longrightarrow> 2 * length s + 2 \<le> m \<Longrightarrow> pelems n d s = pelems m d s"
  "2 * length s + 2 \<le> n \<Longrightarrow> 2 * length s + 2 \<le> m \<Longrightarrow> pmembers n d s = pmembers m d s"
proof (induction n d s and n d s and n d s arbitrary: m and m and m rule: pval_pelems_pmembers.induct)
  case (2 n d s)
  obtain m' where m: "m = Suc m'" using "2.prems" by (cases m) auto
  show ?case
  proof (cases "skip_ws s")
    case Nil
    then show ?thesis by (simp add: m pval.simps)
  next
    case (Cons c t)
    then have "length t < length s" using skip_ws_length [of s] by simp
    then have f: "2 * length t + 2 \<le> n" "2 * length t + 2 \<le> m'" using "2.prems" m by simp_all
    show ?thesis
      unfolding m
      by (rule pval_Suc_cong [OF Cons]) (use "2.IH" [OF Cons] f in blast)+
  qed
next
  case (4 n d s)
  obtain m' where m: "m = Suc m'" using "4.prems" by (cases m) auto
  have v: "pval n d s = pval m' d s" using "4.prems" m by (intro "4.IH"(1)) simp_all
  show ?case
  proof (cases "pval n d s")
    case None
    with v show ?thesis by (simp add: m pelems.simps)
  next
    case (Some x)
    obtain u t where x: "x = (u, t)" by fastforce
    have "pelems n d t' = pelems m' d t'" if "expect (CHR '']'') t = None" "expect (CHR '','') t = Some t'" for t'
      using "4.IH"(2) [OF Some [unfolded x] refl that] parse_length(1) [OF Some [unfolded x]]
        expect_length [OF that(2)] "4.prems" m by simp
    with Some v x show ?thesis by (simp add: m pelems.simps split: option.splits)
  qed
next
  case (6 n d s)
  obtain m' where m: "m = Suc m'" using "6.prems" by (cases m) auto
  have eq: "pval n d t' = pval m' d t'
      \<and> (\<forall>v u u'. pval n d t' = Some (v, u) \<and> expect (CHR ''}'') u = None \<and> expect (CHR '','') u = Some u'
           \<longrightarrow> pmembers n d u' = pmembers m' d u')"
    if e: "expect (CHR 0x22) s = Some q" "unquote q = Some (k, t)" "expect (CHR '':'') t = Some t'" for q k t t'
  proof (intro conjI allI impI)
    note less = expect_length [OF e(1)] unquote_length [OF e(2)] expect_length [OF e(3)]
    show "pval n d t' = pval m' d t'"
      using less "6.prems" m by (intro "6.IH"(1) [OF e(1,2) refl e(3)]) simp_all
    fix v u u'
    assume u: "pval n d t' = Some (v, u) \<and> expect (CHR ''}'') u = None \<and> expect (CHR '','') u = Some u'"
    then have "length u' < length t'" using parse_length(1) [of n d t' v u] expect_length [of _ u u'] by force
    with less "6.prems" m u show "pmembers n d u' = pmembers m' d u'"
      by (intro "6.IH"(2) [OF e(1,2) refl e(3), of "(v, u)" v u]) simp_all
  qed
  show ?case
  proof (cases "\<exists>q k t t'. expect (CHR 0x22) s = Some q \<and> unquote q = Some (k, t) \<and> expect (CHR '':'') t = Some t'")
    case True
    then obtain q k t t' where e: "expect (CHR 0x22) s = Some q" "unquote q = Some (k, t)"
      "expect (CHR '':'') t = Some t'" by blast
    note eq = eq [OF e]
    show ?thesis
    proof (cases "pval n d t'")
      case None
      with eq e show ?thesis by (simp add: m pmembers.simps)
    next
      case (Some x)
      obtain v u where x: "x = (v, u)" by fastforce
      have pm: "pval m' d t' = Some (v, u)" using conjunct1 [OF eq] Some x by simp
      show ?thesis
      proof (cases "expect (CHR ''}'') u = None \<and> expect (CHR '','') u \<noteq> None")
        case True
        then obtain u' where u': "expect (CHR '','') u = Some u'" by blast
        have pe: "pmembers n d u' = pmembers m' d u'" using eq Some x True u' by blast
        show ?thesis using True by (simp add: m pmembers.simps e Some x pm pe u')
      next
        case False
        then show ?thesis
          by (cases "expect (CHR ''}'') u") (simp_all add: m pmembers.simps e Some x pm)
      qed
    qed
  next
    case False
    then show ?thesis
      by (cases "expect (CHR 0x22) s") (auto simp: m pmembers.simps split: option.splits)
  qed
qed simp_all

end
