(* ===== verification/Json_Roundtrip.thy ===== *)
theory Json_Roundtrip
  imports Json
begin

text \<open>
  What \<open>encoding/json\<close> writes it reads back: the text of a value parses to that value, whatever
  follows it, and the parser always has fuel enough.
\<close>

section \<open>Values without floats\<close>

fun plain :: "gov \<Rightarrow> bool" where
  "plain (JFloat m e) = False"
| "plain JUnsupported = False"
| "plain (JStr s) \<longleftrightarrow> utf8_chars s \<noteq> None"
| "plain (JArr vs) = list_all plain vs"
| "plain (JObj kvs) = list_all (\<lambda>(k, v). utf8_chars k \<noteq> None \<and> plain v) kvs"
| "plain _ = True"

fun nesting :: "gov \<Rightarrow> nat" where
  "nesting (JArr vs) = Suc (foldr max (map nesting vs) 0)"
| "nesting (JObj kvs) = Suc (foldr max (map (\<lambda>(k, v). nesting v) kvs) 0)"
| "nesting _ = 0"

fun to_json :: "gov \<Rightarrow> json" where
  "to_json JNull = JsNull"
| "to_json (JBool b) = JsBool b"
| "to_json (JInt i) = JsNum (show_int i)"
| "to_json (JFloat m e) = JsNull"
| "to_json (JStr s) = JsStr s"
| "to_json (JArr vs) = JsArr (map to_json vs)"
| "to_json (JObj kvs) = JsObj (map (\<lambda>(k, v). (k, to_json v)) kvs)"
| "to_json JUnsupported = JsNull"

text \<open>What may follow a number.\<close>

definition ends_number :: "bytes \<Rightarrow> bool" where
  "ends_number s \<longleftrightarrow> (case s of [] \<Rightarrow> True
     | c # _ \<Rightarrow> \<not> is_digit c \<and> c \<noteq> CHR ''.'' \<and> c \<noteq> CHR ''e'' \<and> c \<noteq> CHR ''E'')"

section \<open>The readers on what was written\<close>

lemma expect_hit [simp]: "\<not> json_blank c \<Longrightarrow> expect c (c # s) = Some s"
  by (simp add: expect_def skip_ws_def)

lemma expect_miss [simp]: "\<not> json_blank x \<Longrightarrow> x \<noteq> c \<Longrightarrow> expect c (x # s) = None"
  by (simp add: expect_def skip_ws_def)

lemma json_blank_punct [simp]:
  "\<not> json_blank (CHR '','')" "\<not> json_blank (CHR '':'')" "\<not> json_blank (CHR ''['')"
  "\<not> json_blank (CHR '']'')" "\<not> json_blank (CHR ''{'')" "\<not> json_blank (CHR ''}'')"
  "\<not> json_blank (CHR 0x22)" "\<not> json_blank (CHR ''-'')" "\<not> json_blank (CHR ''n'')"
  "\<not> json_blank (CHR ''t'')" "\<not> json_blank (CHR ''f'')"
  by (simp_all add: json_blank_def)

lemma not_is_digit [simp]:
  "\<not> is_digit (CHR ''['')" "\<not> is_digit (CHR '']'')" "\<not> is_digit (CHR ''{'')" "\<not> is_digit (CHR ''n'')"
  "\<not> is_digit (CHR ''t'')" "\<not> is_digit (CHR ''f'')" "\<not> is_digit (CHR ''-'')"
  by code_simp+

lemma is_digit_not:
  assumes "is_digit c"
  shows "\<not> json_blank c" "byte c \<noteq> 34" "c \<noteq> CHR ''[''" "c \<noteq> CHR ''{''" "c \<noteq> CHR ''n''" "c \<noteq> CHR ''t''"
    "c \<noteq> CHR ''f''" "c \<noteq> CHR '']''" "c \<noteq> CHR ''-''"
proof -
  from assms have "48 \<le> byte c" by (simp add: is_digit_def)
  then show "\<not> json_blank c" "byte c \<noteq> 34" by (auto simp: json_blank_def)
qed (metis assms not_is_digit)+

lemma digit_0: "digit 0 = CHR ''0''"
  by code_simp

text \<open>A positive number has no leading zero.\<close>

lemma show_nat_head:
  obtains c cs where "show_nat n = c # cs" "is_digit c" "c = CHR ''0'' \<longleftrightarrow> n = 0"
proof -
  have "\<exists>c cs. show_nat n = c # cs \<and> is_digit c \<and> (c = CHR ''0'' \<longleftrightarrow> n = 0)"
  proof (induction n rule: show_nat.induct)
    case (1 n)
    show ?case
    proof (cases "n < 10")
      case True
      then have "digit n = CHR ''0'' \<Longrightarrow> n = 0" using byte_digit [of n] by simp
      with digit_0 have "digit n = CHR ''0'' \<longleftrightarrow> n = 0" by blast
      with True show ?thesis by (simp add: show_nat.simps [of n])
    next
      case False
      then have "n div 10 \<noteq> 0" by simp
      with False "1.IH" show ?thesis by (fastforce simp: show_nat.simps [of n])
    qed
  qed
  with that show ?thesis by blast
qed

lemma show_nat_0 [simp]: "show_nat 0 = ''0''"
  by (simp add: show_nat.simps digit_0)

lemma scan_intpart_show:
  assumes "ends_number s"
  shows "scan_intpart (show_nat n @ s) = Some (show_nat n, s)"
proof (cases "n = 0")
  case True
  then show ?thesis by (simp add: scan_intpart_def)
next
  case False
  obtain c cs where c: "show_nat n = c # cs" "is_digit c" "c \<noteq> CHR ''0''"
    using False by (rule_tac show_nat_head [of n]) auto
  have "no_digit_head s"
    using assms by (auto simp: ends_number_def no_digit_head_def split: list.splits)
  from takeWhile_digits [OF this, of n] c show ?thesis
    by (simp add: scan_intpart_def digits_def)
qed

lemma scan_number_show:
  assumes "ends_number s"
  shows "scan_number (show_int i @ s) = Some (show_int i, s)"
proof -
  have tail: "scan_frac s = Some ([], s)" "scan_exp s = Some ([], s)"
    using assms by (auto simp: scan_frac_def scan_exp_def ends_number_def split: list.splits)
  obtain c cs where c: "show_nat (nat i) = c # cs" "is_digit c"
    by (rule show_nat_head)
  show ?thesis
  proof (cases "i < 0")
    case True
    then show ?thesis
      by (simp add: show_int_def scan_number_def scan_intpart_show [OF assms] tail)
  next
    case False
    from scan_intpart_show [OF assms, of "nat i"] c is_digit_not [OF c(2)] False
    show ?thesis by (simp add: show_int_def scan_number_def tail)
  qed
qed

text \<open>How the text of a value begins.\<close>

lemma json_text_head:
  assumes "plain g"
  obtains c cs where "json_text ft g = c # cs" "\<not> json_blank c" "c \<noteq> CHR '']''"
proof (cases g)
  case (JInt i)
  obtain c cs where c: "show_nat (nat i) = c # cs" "is_digit c"
    by (rule show_nat_head)
  from that [of "hd (show_int i)" "tl (show_int i)"] is_digit_not [OF c(2)] c JInt show ?thesis
    by (cases "i < 0") (auto simp: show_int_def)
next
  case (JBool b)
  with that show ?thesis by (cases b) simp_all
qed (use assms that in \<open>simp_all add: json_quote_def\<close>)

lemma pval_scalar:
  assumes "plain g" "\<And>vs. g \<noteq> JArr vs" "\<And>kvs. g \<noteq> JObj kvs" "ends_number s"
  shows "pval (Suc n) d (json_text ft g @ s) = Some (to_json g, s)"
proof (cases g)
  case (JInt i)
  show ?thesis
  proof (cases "i < 0")
    case True
    with JInt scan_number_show [OF assms(4), of i] show ?thesis
      by (simp add: pval.simps skip_ws_def show_int_def)
  next
    case False
    obtain c cs where c: "show_nat (nat i) = c # cs" "is_digit c"
      by (rule show_nat_head)
    with JInt False scan_number_show [OF assms(4), of i] is_digit_not [OF c(2)] show ?thesis
      by (simp add: pval.simps skip_ws_def show_int_def)
  qed
next
  case (JStr x)
  with assms(1) unquote_escape [of x s] show ?thesis
    by (simp add: pval.simps skip_ws_def json_quote_def)
qed (use assms in \<open>simp_all add: pval.simps skip_ws_def scan_word_def\<close>)

section \<open>Arrays and objects\<close>

definition reads :: "(int \<Rightarrow> int \<Rightarrow> bytes) \<Rightarrow> gov \<Rightarrow> bool" where
  "reads ft g \<longleftrightarrow> (\<forall>n d s. nesting g \<le> d \<longrightarrow> ends_number s \<longrightarrow> 2 * length (json_text ft g @ s) + 1 \<le> n
     \<longrightarrow> pval n d (json_text ft g @ s) = Some (to_json g, s))"

lemma readsD:
  assumes "reads ft g" "nesting g \<le> d" "ends_number s" "2 * length (json_text ft g @ s) + 1 \<le> n"
  shows "pval n d (json_text ft g @ s) = Some (to_json g, s)"
  using assms by (simp add: reads_def)

lemma ends_number_punct [simp]:
  "ends_number []" "ends_number (CHR '','' # s)" "ends_number (CHR '']'' # s)" "ends_number (CHR ''}'' # s)"
  by (simp_all add: ends_number_def is_digit_def)

lemma nesting_max: "foldr max (map f vs) 0 \<le> (d :: nat) \<longleftrightarrow> (\<forall>v \<in> set vs. f v \<le> d)"
  by (induction vs) auto

lemma reads_elems:
  assumes "\<forall>v \<in> set vs. reads ft v \<and> nesting v \<le> d" "vs \<noteq> []"
    "2 * length (join_byte (CHR '','') (map (json_text ft) vs) @ '']'' @ s) + 2 \<le> n"
  shows "pelems n d (join_byte (CHR '','') (map (json_text ft) vs) @ '']'' @ s) = Some (map to_json vs, s)"
  using assms
proof (induction vs arbitrary: n)
  case (Cons v vs)
  obtain m where n: "n = Suc m" using Cons.prems(3) by (cases n) auto
  show ?case
  proof (cases "vs = []")
    case True
    with readsD [of ft v d "'']'' @ s" m] Cons.prems n show ?thesis
      by (simp add: pelems.simps)
  next
    case False
    let ?t = "join_byte (CHR '','') (map (json_text ft) vs) @ '']'' @ s"
    have "pval m d (json_text ft v @ CHR '','' # ?t) = Some (to_json v, CHR '','' # ?t)"
      using Cons.prems n False by (intro readsD) (auto simp: neq_Nil_conv)
    moreover have "pelems m d ?t = Some (map to_json vs, s)"
      using Cons.prems n False by (intro Cons.IH) (auto simp: neq_Nil_conv)
    ultimately show ?thesis using False n by (auto simp: pelems.simps neq_Nil_conv)
  qed
qed simp

abbreviation member_text :: "(int \<Rightarrow> int \<Rightarrow> bytes) \<Rightarrow> bytes \<times> gov \<Rightarrow> bytes" where
  "member_text ft \<equiv> \<lambda>(k, v). json_quote k @ CHR '':'' # json_text ft v"

lemma reads_members:
  assumes "\<forall>(k, v) \<in> set kvs. utf8_chars k \<noteq> None \<and> reads ft v \<and> nesting v \<le> d" "kvs \<noteq> []"
    "2 * length (join_byte (CHR '','') (map (member_text ft) kvs) @ ''}'' @ s) + 2 \<le> n"
  shows "pmembers n d (join_byte (CHR '','') (map (member_text ft) kvs) @ ''}'' @ s)
    = Some (map (\<lambda>(k, v). (k, to_json v)) kvs, s)"
  using assms
proof (induction kvs arbitrary: n)
  case (Cons kv kvs)
  obtain k v where kv: "kv = (k, v)" by fastforce
  obtain m where n: "n = Suc m" using Cons.prems(3) by (cases n) auto
  have k: "unquote (escape k @ CHR 0x22 # r) = Some (k, r)" for r
    using Cons.prems(1) kv unquote_escape [of k r] by simp
  show ?case
  proof (cases "kvs = []")
    case True
    with readsD [of ft v d "''}'' @ s" m] Cons.prems n kv k show ?thesis
      by (simp add: pmembers.simps json_quote_def)
  next
    case False
    let ?t = "join_byte (CHR '','') (map (member_text ft) kvs) @ ''}'' @ s"
    have "pval m d (json_text ft v @ CHR '','' # ?t) = Some (to_json v, CHR '','' # ?t)"
      using Cons.prems n False kv by (intro readsD) (auto simp: neq_Nil_conv)
    moreover have "pmembers m d ?t = Some (map (\<lambda>(k, v). (k, to_json v)) kvs, s)"
      using Cons.prems n False kv by (intro Cons.IH) (auto simp: neq_Nil_conv)
    ultimately show ?thesis using False n kv k
      by (auto simp: pmembers.simps neq_Nil_conv json_quote_def)
  qed
qed simp

section \<open>Every value\<close>

lemma reads_array:
  assumes "\<forall>v \<in> set vs. plain v \<and> reads ft v"
  shows "reads ft (JArr vs)"
  unfolding reads_def
proof (intro allI impI)
  fix n d s
  assume d: "nesting (JArr vs) \<le> d" and n: "2 * length (json_text ft (JArr vs) @ s) + 1 \<le> n"
  obtain m d' where m: "n = Suc m" and d': "d = Suc d'" using n d by (cases n; cases d) auto
  show "pval n d (json_text ft (JArr vs) @ s) = Some (to_json (JArr vs), s)"
  proof (cases vs)
    case Nil
    with m d show ?thesis by (simp add: pval.simps skip_ws_def)
  next
    case (Cons v us)
    let ?t = "join_byte (CHR '','') (map (json_text ft) vs) @ '']'' @ s"
    obtain c cs where "json_text ft v = c # cs" "\<not> json_blank c" "c \<noteq> CHR '']''"
      using assms Cons by (auto elim: json_text_head [of v ft])
    then have "expect (CHR '']'') ?t = None"
      using Cons by (cases us) simp_all
    moreover have "pelems m (d - 1) ?t = Some (map to_json vs, s)"
      using assms Cons d d' n m by (intro reads_elems) (auto simp: nesting_max)
    ultimately show ?thesis using d m by (simp add: pval.simps skip_ws_def)
  qed
qed

text \<open>After an object anything may follow.\<close>

lemma pval_object:
  assumes members: "\<forall>(k, v) \<in> set kvs. utf8_chars k \<noteq> None \<and> reads ft v"
    and d: "nesting (JObj kvs) \<le> d" and n: "2 * length (json_text ft (JObj kvs) @ s) + 1 \<le> n"
  shows "pval n d (json_text ft (JObj kvs) @ s) = Some (to_json (JObj kvs), s)"
proof -
  obtain m d' where m: "n = Suc m" and d': "d = Suc d'" using n d by (cases n; cases d) auto
  show ?thesis
  proof (cases kvs)
    case Nil
    with m d show ?thesis by (simp add: pval.simps skip_ws_def)
  next
    case (Cons kv us)
    let ?t = "join_byte (CHR '','') (map (member_text ft) kvs) @ ''}'' @ s"
    have "expect (CHR ''}'') ?t = None"
      using Cons by (cases us) (simp_all add: json_quote_def split: prod.splits)
    moreover have "pmembers m (d - 1) ?t = Some (map (\<lambda>(k, v). (k, to_json v)) kvs, s)"
      using members Cons d d' n m by (intro reads_members) (auto simp: nesting_max)
    ultimately show ?thesis using d m by (simp add: pval.simps skip_ws_def)
  qed
qed

lemma reads_scalar: "plain g \<Longrightarrow> (\<And>vs. g \<noteq> JArr vs) \<Longrightarrow> (\<And>kvs. g \<noteq> JObj kvs) \<Longrightarrow> reads ft g"
  using pval_scalar by (auto simp: reads_def dest!: Suc_le_D)

lemma reads_plain: "plain g \<Longrightarrow> reads ft g"
proof (induction g)
  case (JArr vs)
  then show ?case by (intro reads_array) (auto simp: list_all_iff)
next
  case (JObj kvs)
  then have "\<forall>(k, v) \<in> set kvs. utf8_chars k \<noteq> None \<and> reads ft v" by (fastforce simp: list_all_iff)
  from pval_object [OF this] have "reads ft (JObj kvs)" unfolding reads_def by blast
  then show ?case .
qed (use reads_scalar in simp_all)

text \<open>
  Reading back: the text of a value of strings in UTF-8, integers, booleans, nulls, lists and
  objects, nested 10,000 deep at most, parses to that value with what follows it as the rest, unless
  what follows would continue a number.
\<close>
theorem json_roundtrip:
  assumes "plain g" "nesting g \<le> 10000" "ends_number s"
  shows "json_parse (json_text ft g @ s) = Some (to_json g, s)"
  using reads_plain [OF assms(1)] assms(2,3) unfolding json_parse_def by (intro readsD) simp_all

theorem json_roundtrip_witness:
  "json_parse (json_text (\<lambda>_ _. []) (JObj [(''a'', JArr [JInt (- 12), JStr [CHR 0xC3, CHR 0xA9, CHR 0x0A], JBool True]),
       (''b'', JNull)]) @ ''}'')
   = Some (JsObj [(''a'', JsArr [JsNum ''-12'', JsStr [CHR 0xC3, CHR 0xA9, CHR 0x0A], JsBool True]),
       (''b'', JsNull)], ''}'')"
proof -
  have "utf8_chars ''a'' \<noteq> None" "utf8_chars ''b'' \<noteq> None"
    "utf8_chars [CHR 0xC3, CHR 0xA9, CHR 0x0A] \<noteq> None" "show_int (- 12) = ''-12''"
    by code_simp+
  then show ?thesis by (subst json_roundtrip) simp_all
qed

text \<open>
  The parser always ends: with fuel for twice the length of the text and one more step it
  answers, and more fuel never changes the answer.
\<close>
theorem json_fuel_suffices:
  assumes "2 * length s + 1 \<le> n"
  shows "pval n 10000 s = json_parse s"
  unfolding json_parse_def using assms by (intro parse_fuel(1)) simp_all

theorem json_fuel_suffices_witness: "pval 99 10000 ''[1,{}]x'' = json_parse ''[1,{}]x''"
  by (rule json_fuel_suffices) simp

end
