(* ===== verification/Wire.thy ===== *)
theory Wire
  imports Json_Roundtrip Traffic
begin

text \<open>
  The program's own JSON: the struct tags of \<open>auth.schema.go\<close> and of the welcome job, with the
  decoders the handlers and the worker use, so that a request starts from the bytes of its body and
  a job from the bytes of its delivery.
\<close>

section \<open>Structs and their tags\<close>

definition register_names :: "bytes list" where
  "register_names = [''first_name'', ''last_name'', ''email'', ''password'']"

definition decode_register ::
  "(bytes \<Rightarrow> bytes) \<Rightarrow> (bytes \<Rightarrow> bytes) \<Rightarrow> bytes \<Rightarrow> RegisterInput fallible" where
  "decode_register syn typ s =
     (case Decode syn typ register_names s of
        Inl e \<Rightarrow> Inl e
      | Inr f \<Rightarrow> Inr \<lparr>ri_FirstName = f ''first_name'', ri_LastName = f ''last_name'',
                     ri_Email = f ''email'', ri_Password = f ''password''\<rparr>)"

definition decode_login ::
  "(bytes \<Rightarrow> bytes) \<Rightarrow> (bytes \<Rightarrow> bytes) \<Rightarrow> bytes \<Rightarrow> LoginInput fallible" where
  "decode_login syn typ s =
     (case Decode syn typ [''email'', ''password''] s of
        Inl e \<Rightarrow> Inl e
      | Inr f \<Rightarrow> Inr \<lparr>li_Email = f ''email'', li_Password = f ''password''\<rparr>)"

definition decode_refresh ::
  "(bytes \<Rightarrow> bytes) \<Rightarrow> (bytes \<Rightarrow> bytes) \<Rightarrow> bytes \<Rightarrow> RefreshInput fallible" where
  "decode_refresh syn typ s =
     (case Decode syn typ [''refresh_token''] s of
        Inl e \<Rightarrow> Inl e
      | Inr f \<Rightarrow> Inr \<lparr>rf_RefreshToken = f ''refresh_token''\<rparr>)"

definition decode_job ::
  "(bytes \<Rightarrow> bytes) \<Rightarrow> (bytes \<Rightarrow> bytes) \<Rightarrow> bytes \<Rightarrow> WelcomeEmailJob fallible" where
  "decode_job syn typ s =
     (case Unmarshal syn typ [''user_id'', ''email''] s of
        Inl e \<Rightarrow> Inl e
      | Inr f \<Rightarrow> Inr \<lparr>wj_UserID = f ''user_id'', wj_Email = f ''email''\<rparr>)"

definition json_decoders ::
  "(bytes \<Rightarrow> bytes) \<Rightarrow> (bytes \<Rightarrow> bytes) \<Rightarrow> (bytes \<Rightarrow> bytes) \<Rightarrow> decoders" where
  "json_decoders syn typ uni =
     \<lparr>dec_register = decode_register syn typ, dec_login = decode_login syn typ,
      dec_refresh = decode_refresh syn typ, dec_unicode = uni\<rparr>"

section \<open>Objects of strings\<close>

lemma utf8_names:
  "\<forall>k \<in> set register_names. utf8_chars k \<noteq> None"
  "utf8_chars ''user_id'' \<noteq> None" "utf8_chars ''email'' \<noteq> None"
  by code_simp+

lemma json_parse_strings:
  assumes "\<forall>(k, v) \<in> set kvs. utf8_chars k \<noteq> None \<and> utf8_chars v \<noteq> None"
  shows "json_parse (json_text ft (JObj (map (\<lambda>(k, v). (k, JStr v)) kvs)) @ s)
    = Some (JsObj (map (\<lambda>(k, v). (k, JsStr v)) kvs), s)"
proof -
  let ?kvs = "map (\<lambda>(k, v). (k, JStr v)) kvs"
  have "foldr max (map (\<lambda>(k, v). nesting v) ?kvs) 0 \<le> 9999"
    unfolding case_prod_unfold nesting_max by auto
  then have "nesting (JObj ?kvs) \<le> 10000" by simp
  moreover have "\<forall>(k, v) \<in> set ?kvs. utf8_chars k \<noteq> None \<and> reads ft v"
    using assms reads_plain [of "JStr _" ft] by auto
  ultimately have "json_parse (json_text ft (JObj ?kvs) @ s) = Some (to_json (JObj ?kvs), s)"
    unfolding json_parse_def by (intro pval_object) simp_all
  then show ?thesis by (simp add: comp_def case_prod_unfold)
qed

text \<open>The last string under a name is the one that stays; nothing is left of a name that is absent.\<close>

lemma store_strings:
  assumes "\<forall>(k, v) \<in> set kvs. k \<in> set names"
  shows "store_members names (map (\<lambda>(k, v). (k, JsStr v)) kvs) st
    = (True, \<lambda>n. case map_of (rev kvs) n of Some v \<Rightarrow> v | None \<Rightarrow> st n)"
  using assms
  by (induction kvs arbitrary: st)
    (auto simp: field_of_def map_add_def fun_eq_iff split: option.splits)

lemma Decode_strings:
  assumes "\<forall>(k, v) \<in> set kvs. k \<in> set names \<and> utf8_chars k \<noteq> None \<and> utf8_chars v \<noteq> None"
  shows "Decode syn typ names (json_text ft (JObj (map (\<lambda>(k, v). (k, JStr v)) kvs)) @ s)
    = Inr (\<lambda>n. case map_of (rev kvs) n of Some v \<Rightarrow> v | None \<Rightarrow> [])"
proof -
  have "store_members names (map (\<lambda>(k, v). (k, JsStr v)) kvs) (\<lambda>_. [])
    = (True, \<lambda>n. case map_of (rev kvs) n of Some v \<Rightarrow> v | None \<Rightarrow> [])"
    using assms by (intro store_strings) blast
  moreover have "json_parse (json_text ft (JObj (map (\<lambda>(k, v). (k, JStr v)) kvs)) @ s)
    = Some (JsObj (map (\<lambda>(k, v). (k, JsStr v)) kvs), s)"
    using assms by (intro json_parse_strings) blast
  ultimately show ?thesis by (simp add: Decode_def decode_value_def)
qed

section \<open>Jobs on the queue\<close>

lemma decode_job_text:
  assumes "utf8_chars i \<noteq> None" "utf8_chars m \<noteq> None"
  shows "decode_job syn typ (json_text ft (JObj [(''user_id'', JStr i), (''email'', JStr m)]))
    = Inr \<lparr>wj_UserID = i, wj_Email = m\<rparr>"
proof -
  have "json_parse (json_text ft (JObj [(''user_id'', JStr i), (''email'', JStr m)]))
    = Some (JsObj [(''user_id'', JsStr i), (''email'', JsStr m)], [])"
    using assms json_parse_strings [of "[(''user_id'', i), (''email'', m)]" ft "[]"] utf8_names
    by (simp del: not_None_eq)
  then show ?thesis
    by (simp add: decode_job_def Unmarshal_def skip_ws_def decode_value_def field_of_def)
qed

text \<open>
  The queue's two ends agree: a welcome job whose two strings are UTF-8, published as JSON,
  reaches the worker's handler as the same job, so that it is acknowledged if the handler succeeds
  and put back if it fails, and never dropped as malformed.
\<close>
theorem job_survives_queue:
  assumes "utf8_chars (wj_UserID j) \<noteq> None" "utf8_chars (wj_Email j) \<noteq> None"
  shows "decode_job syn typ (json_text ft (job_gov j)) = Inr j
    \<and> processWithRetry (decode_job syn typ) handler (json_text ft (job_gov j))
      = (if handler j = None then Ack else Nack True)"
proof -
  have "decode_job syn typ (json_text ft (job_gov j)) = Inr j"
    using decode_job_text [OF assms] by (simp add: job_gov_def)
  then show ?thesis by (auto simp: processWithRetry_def split: option.splits)
qed

theorem job_survives_queue_witness:
  "processWithRetry (decode_job (\<lambda>_. ''bad'') (\<lambda>_. ''type'')) WelcomeEmailHandler
     (json_text (\<lambda>_ _. []) (job_gov \<lparr>wj_UserID = ''1'', wj_Email = ''a<b>@x''\<rparr>)) = Ack"
proof -
  have "utf8_chars ''1'' \<noteq> None" "utf8_chars ''a<b>@x'' \<noteq> None" by code_simp+
  with job_survives_queue [of "\<lparr>wj_UserID = ''1'', wj_Email = ''a<b>@x''\<rparr>"] show ?thesis
    by (simp add: WelcomeEmailHandler_def)
qed

text \<open>What a column holds is UTF-8.\<close>

lemma varchar_utf8: "varchar n s = Inr v \<Longrightarrow> utf8_chars v \<noteq> None"
  by (drule varchar_pg_text) (auto simp: pg_text_def split: if_splits)

text \<open>
  C18. From registration to worker: on a server with the hub and the queue, a registration answered with
  201 and whose publication the broker takes publishes one job, the text that \<open>json.Marshal\<close> makes,
  and the worker that receives this text decodes from it the id and the email of the stored
  account, hands them to the handler and acknowledges.  The text of a UUID is assumed to be UTF-8.
\<close>
theorem registration_job_acked:
  assumes "Register E (Some (server_emitter out (server_bus True True))) input r w = Returned res w'"
    and "StatusCode res = 201" "o_publish_fault out = None" "o_encode out = json_text ft"
    and "utf8_chars (e_uuid_text E (e_new_uuid E)) \<noteq> None"
  shows "\<exists>u body. u \<in> set (users (database w')) \<and> Bytes (u_ID u) = e_new_uuid E
    \<and> published (s_broker w') = published (s_broker w) @ [body]
    \<and> decode_job syn typ body = Inr \<lparr>wj_UserID = e_uuid_text E (Bytes (u_ID u)), wj_Email = u_Email u\<rparr>
    \<and> processWithRetry (decode_job syn typ) WelcomeEmailHandler body = Ack"
proof -
  let ?b = "server_emitter out (server_bus True True)"
  obtain hashed u d where h: "HashPassword (e_rand E) (e_kdf E) (ri_Password input) = Ret (Inr hashed)"
    and c: "CreateUser (e_insert_fault E) (e_new_uuid E) (e_db_now E)
         \<lparr>FirstName = ri_FirstName input, LastName = ri_LastName input,
          Email = ri_Email input, Passwd = hashed\<rparr> (database w) = (Inr u, d)"
    by (rule Register_201 [OF server_bus_ok assms(1,2)])
  note new = new_user_Inr [OF CreateUser_Inr(1) [OF c]]
  have uid: "u_ID u = \<lparr>Bytes = e_new_uuid E, Valid = True\<rparr>" using new(1,2) by (cases "u_ID u") simp
  let ?p = "\<lparr>ur_UserID = e_uuid_text E (e_new_uuid E), ur_Email = u_Email u\<rparr>"
  have "Register_insert E (Some ?b) input r w = Returned res w'"
    using assms(1,2) by (auto simp: Register_def ApiError_def split: if_splits)
  then have "published (s_broker w') = published (s_broker w) @ [welcome_job out ?p]" "database w' = d"
    by (auto simp: Register_insert_def h c Let_def uid UUID_String_def
        server_emit_registered_full [OF assms(3)] server_emit_audit)
  moreover have "welcome_job out ?p = json_text ft (job_gov \<lparr>wj_UserID = e_uuid_text E (e_new_uuid E), wj_Email = u_Email u\<rparr>)"
    by (simp add: welcome_job_def assms(4) job_gov_def)
  moreover have "decode_job syn typ (json_text ft (job_gov \<lparr>wj_UserID = e_uuid_text E (e_new_uuid E), wj_Email = u_Email u\<rparr>))
      = Inr \<lparr>wj_UserID = e_uuid_text E (e_new_uuid E), wj_Email = u_Email u\<rparr>"
    using decode_job_text [OF assms(5) varchar_utf8 [OF new(6)]] by (simp add: job_gov_def)
  ultimately show ?thesis
    using CreateUser_Inr(2) [OF c] new(1)
    by (intro exI [of _ u] exI [of _ "welcome_job out ?p"])
      (simp add: processWithRetry_def WelcomeEmailHandler_def)
qed

theorem registration_job_acked_witness:
  "\<exists>(w' :: sys) u body. u \<in> set (users (database w'))
     \<and> published (s_broker w') = [body]
     \<and> decode_job id id body = Inr \<lparr>wj_UserID = e_uuid_text sample_env (Bytes (u_ID u)), wj_Email = u_Email u\<rparr>"
proof -
  let ?out = "sample_outside\<lparr>o_encode := json_text (\<lambda>_ _. [])\<rparr>"
  have out: "o_publish_fault ?out = None" "o_encode ?out = json_text (\<lambda>_ _. [])"
    by (simp_all add: sample_outside_def)
  obtain w' u where reg: "Register sample_env (Some (server_emitter ?out (server_bus True True))) sample_input
       (sample_request []) sample_sys
     = Returned (ApiSuccess ''user registered successfully''
         (Some (JObj [(''user'', SafeUser sample_env u)])) 201) w'"
    by (rule sample_registered [OF out(1)])
  have "utf8_chars (e_uuid_text sample_env (e_new_uuid sample_env)) \<noteq> None" by code_simp
  from registration_job_acked [OF reg _ out this, of id id] obtain u body where
    "u \<in> set (users (database w'))" "Bytes (u_ID u) = e_new_uuid sample_env" "published (s_broker w') = [body]"
    "decode_job id id body = Inr \<lparr>wj_UserID = e_uuid_text sample_env (Bytes (u_ID u)), wj_Email = u_Email u\<rparr>"
    by (auto simp: ApiSuccess_def sample_sys_def new_broker_def)
  then show ?thesis by blast
qed

section \<open>Bodies of requests\<close>

definition sample_body_request :: "bytes \<Rightarrow> body request" where
  "sample_body_request b = (sample_request [])\<lparr>req_header := [''Content-Type'' \<mapsto> [''application/json'']],
     req_body := Some b\<rparr>"

lemma sample_content_type: "hget [''Content-Type'' \<mapsto> [''application/json'']] ''Content-Type'' = ''application/json''"
  by code_simp

text \<open>
  What a registration reads from a body: the fields in any order, each value that of its last
  occurrence, absent ones empty, and whatever follows the object is never looked at, so that trailing
  bytes, even of a second document, are accepted.
\<close>
theorem register_body_decoded:
  assumes "\<forall>(k, v) \<in> set kvs. k \<in> set register_names \<and> utf8_chars v \<noteq> None"
    and "req_body r = Some (json_text ft (JObj (map (\<lambda>(k, v). (k, JStr v)) kvs)) @ junk)"
    and "hget (req_header r) ''Content-Type'' = ''application/json''"
  shows "ParseBody (decode_register syn typ) r
    = (let f = (\<lambda>n. case map_of (rev kvs) n of Some v \<Rightarrow> v | None \<Rightarrow> [])
       in Inr \<lparr>ri_FirstName = f ''first_name'', ri_LastName = f ''last_name'',
              ri_Email = f ''email'', ri_Password = f ''password''\<rparr>)"
proof -
  have "Decode syn typ register_names (json_text ft (JObj (map (\<lambda>(k, v). (k, JStr v)) kvs)) @ junk)
    = Inr (\<lambda>n. case map_of (rev kvs) n of Some v \<Rightarrow> v | None \<Rightarrow> [])"
    using assms(1) utf8_names(1) by (intro Decode_strings) blast
  moreover have "contains ''application/json'' ''application/json''" by code_simp
  ultimately show ?thesis
    using assms(2,3) by (simp add: ParseBody_def decode_register_def)
qed

theorem register_body_decoded_witness:
  "ParseBody (decode_register id id) (sample_body_request
       (json_text (\<lambda>_ _. []) (JObj [(''email'', JStr ''old''), (''password'', JStr ''pw''),
          (''email'', JStr ''new'')]) @ ''trailing''))
   = Inr \<lparr>ri_FirstName = [], ri_LastName = [], ri_Email = ''new'', ri_Password = ''pw''\<rparr>"
proof -
  let ?kvs = "[(''email'', ''old''), (''password'', ''pw''), (''email'', ''new'')]"
  have "\<forall>(k, v) \<in> set ?kvs. k \<in> set register_names \<and> utf8_chars v \<noteq> None" by code_simp
  from register_body_decoded [OF this, of "sample_body_request _" "\<lambda>_ _. []" "''trailing''" id id] show ?thesis
    by (simp add: sample_body_request_def sample_content_type)
qed

end
