(* ===== verification/Whole_System.thy ===== *)
theory Whole_System
  imports Wire
begin

text \<open>
  The running server as one transition system: requests, the audit goroutines, the pumps of the
  WebSocket connections, the broker with the email workers, and the ticks of the limiter, in any
  order.  Requests are atomic here; what happens when two registrations interleave is the subject
  of \<open>Register_Race\<close>, and how broadcasts interleave that of \<open>Realtime\<close>.
\<close>

section \<open>Steps\<close>

text \<open>
  \<open>idt\<close> is the text of an id, \<open>ft\<close> that of a float, \<open>esyn\<close> and \<open>etyp\<close> the error texts of the JSON
  library.  Where \<open>healthy\<close> is set, the broker takes every job it is given.  A connection gets a number
  that was not used before, and a handler that touches the map of clients waits for broadcasts.
\<close>

definition fits :: "(int \<Rightarrow> int \<Rightarrow> bytes) \<Rightarrow> (bytes \<Rightarrow> bytes) \<Rightarrow> bool \<Rightarrow> per_request \<Rightarrow> bool" where
  "fits ft idt healthy q \<longleftrightarrow> e_uuid_text (q_svc q) = idt \<and> length (e_new_uuid (q_svc q)) = 16
     \<and> runs_aside (q_conn q) (q_meanwhile q) \<and> o_encode (q_out q) = json_text ft \<and> (healthy \<longrightarrow> o_publish_fault (q_out q) = None)"

definition hub_ready :: "nat \<Rightarrow> hub \<Rightarrow> bool" where
  "hub_ready i h \<longleftrightarrow> conns h i = None \<and> broadcasts h = []"

inductive system_step ::
  "mux \<Rightarrow> (body request \<Rightarrow> response \<Rightarrow> response) \<Rightarrow> server \<Rightarrow> (int \<Rightarrow> int \<Rightarrow> bytes) \<Rightarrow> (bytes \<Rightarrow> bytes)
    \<Rightarrow> (bytes \<Rightarrow> bytes) \<Rightarrow> (bytes \<Rightarrow> bytes) \<Rightarrow> bool \<Rightarrow> sys \<Rightarrow> sys \<Rightarrow> bool"
  for m miss srv ft esyn etyp idt healthy where
  request: "fits ft idt healthy q \<Longrightarrow> hub_ready (q_conn q) (s_hub w) \<Longrightarrow>
    system_step m miss srv ft esyn etyp idt healthy w (fst (run_state (serve q m miss srv r (w, new_response))))"
| audit_write: "k < length (s_audit w) \<Longrightarrow>
    system_step m miss srv ft esyn etyp idt healthy w
      (write_audit_log out (s_audit w ! k) (w\<lparr>s_audit := take k (s_audit w) @ drop (Suc k) (s_audit w)\<rparr>))"
| hub_runs: "hub_step (s_hub w) h \<Longrightarrow>
    system_step m miss srv ft esyn etyp idt healthy w (w\<lparr>s_hub := h\<rparr>)"
| broker_runs: "job_step (decode_job esyn etyp) WelcomeEmailHandler (s_broker w) b \<Longrightarrow>
    published b = published (s_broker w) \<Longrightarrow>
    system_step m miss srv ft esyn etyp idt healthy w (w\<lparr>s_broker := b\<rparr>)"
| limiter_ticks: "system_step m miss srv ft esyn etyp idt healthy w (w\<lparr>limiter := cleanup_tick now (limiter w)\<rparr>)"

section \<open>The invariant\<close>

definition row_ok :: "user \<Rightarrow> bool" where
  "row_ok u \<longleftrightarrow> hashed_password u \<and> length (Bytes (u_ID u)) = 16 \<and> utf8_chars (u_Email u) \<noteq> None"

definition user_job :: "(bytes \<Rightarrow> bytes) \<Rightarrow> user \<Rightarrow> WelcomeEmailJob" where
  "user_job idt u = \<lparr>wj_UserID = idt (Bytes (u_ID u)), wj_Email = u_Email u\<rparr>"

definition job_text :: "(int \<Rightarrow> int \<Rightarrow> bytes) \<Rightarrow> (bytes \<Rightarrow> bytes) \<Rightarrow> user \<Rightarrow> bytes" where
  "job_text ft idt u = json_text ft (job_gov (user_job idt u))"

definition names_user :: "(bytes \<Rightarrow> bytes) \<Rightarrow> user list \<Rightarrow> AuditLogPayload \<Rightarrow> bool" where
  "names_user idt us p \<longleftrightarrow> (\<exists>u \<in> set us. ap_ActorUserID p = idt (Bytes (u_ID u)))"

text \<open>\<open>Q\<close> relates the published jobs to those of the accounts, in the order of their rows.\<close>

fun view_ok ::
  "(bytes list \<Rightarrow> bytes list \<Rightarrow> bool) \<Rightarrow> (int \<Rightarrow> int \<Rightarrow> bytes) \<Rightarrow> (bytes \<Rightarrow> bytes) \<Rightarrow> (bytes \<Rightarrow> bytes)
    \<Rightarrow> (bytes \<Rightarrow> bytes) \<Rightarrow> db \<times> hub \<times> broker \<times> AuditLogPayload list \<times> bytes list \<Rightarrow> bool" where
  "view_ok Q ft esyn etyp idt (d, h, b, ps, l) \<longleftrightarrow>
     db_ok d \<and> list_all row_ok (users d) \<and> hub_inv h
     \<and> job_inv (decode_job esyn etyp) WelcomeEmailHandler b
     \<and> Q (published b) (map (job_text ft idt) (users d))
     \<and> list_all (names_user idt (users d)) ps"

section \<open>What the events do\<close>

lemma hub_inv_Broadcast: "hub_inv h \<Longrightarrow> hub_inv (Broadcast event payload h)"
  by (auto simp: Broadcast_def marshalFrame_def deliver_to_def hub_inv_def client_inv_def
      split: option.splits if_splits)

definition add_job :: "bytes \<Rightarrow> broker \<Rightarrow> broker" where
  "add_job body b = b\<lparr>ready := ready b @ [body], published := published b @ [body]\<rparr>"

lemma job_inv_add:
  assumes "job_inv decode handler b"
  shows "job_inv decode handler (add_job body b)"
proof -
  have "Publish (\<lambda>_. Inr body) None JNull b = (None, add_job body b)"
    by (simp add: Publish_def add_job_def)
  from job_step_inv [OF job_step.publish [OF this] assms] show ?thesis .
qed

lemma published_add [simp]: "published (add_job body b) = published b @ [body]"
  by (simp add: add_job_def)

lemma emitted:
  "\<exists>w'. emit_registered (server_emitter out (server_bus ws jobs)) p w = Done w'
     \<and> database w' = database w \<and> s_audit w' = s_audit w
     \<and> (hub_inv (s_hub w) \<longrightarrow> hub_inv (s_hub w'))
     \<and> s_broker w' = (if jobs \<and> o_publish_fault out = None then add_job (welcome_job out p) (s_broker w)
                      else s_broker w)"
proof -
  let ?w = "if ws then w\<lparr>s_hub := Broadcast ''auth:user-registered'' (user_payload_gov p) (s_hub w)\<rparr> else w"
  have "emit_registered (server_emitter out (server_bus ws jobs)) p w
      = (if jobs then enqueue_welcome_email out (server_bus ws jobs) p ?w else Done ?w)"
    by (cases ws; cases jobs)
      (simp_all add: server_emitter_def EmitUserRegistered_def emit_def server_listeners server_code_def
        hub_user_registered_def run_bind_Done)
  then show ?thesis
    by (cases jobs; cases "o_publish_fault out"; cases ws)
      (simp_all add: enqueue_published enqueue_refused hub_inv_Broadcast add_job_def)
qed

section \<open>What the endpoints do\<close>

lemma new_user_row_ok:
  assumes "new_user uuid now \<lparr>FirstName = f, LastName = l, Email = e, Passwd = h\<rparr> d = Inr u"
    "HashPassword rnd kdf pw = Ret (Inr h)" "length uuid = 16"
  shows "row_ok u"
  using new_user_hashed [OF assms(1,2)] new_user_Inr(1,6) [OF assms(1)] assms(3) varchar_utf8
  by (auto simp: row_ok_def)

lemma names_user_mono: "names_user idt us p \<Longrightarrow> names_user idt (us @ vs) p"
  by (auto simp: names_user_def)

lemma new_user_db_ok: "db_ok d \<Longrightarrow> new_user uuid now arg d = Inr u \<Longrightarrow> db_ok (d\<lparr>users := users d @ [u]\<rparr>)"
  using CreateUser_ok [of d None uuid now arg] by (simp add: CreateUser_def)

text \<open>
  Every endpoint keeps the invariant, from a state in which the hub is ready for the request.
\<close>

definition view_step ::
  "(bytes list \<Rightarrow> bytes list \<Rightarrow> bool) \<Rightarrow> (int \<Rightarrow> int \<Rightarrow> bytes) \<Rightarrow> (bytes \<Rightarrow> bytes) \<Rightarrow> (bytes \<Rightarrow> bytes)
    \<Rightarrow> (bytes \<Rightarrow> bytes) \<Rightarrow> nat \<Rightarrow> db \<times> hub \<times> broker \<times> AuditLogPayload list \<times> bytes list
    \<Rightarrow> db \<times> hub \<times> broker \<times> AuditLogPayload list \<times> bytes list \<Rightarrow> bool" where
  "view_step Q ft esyn etyp idt i v v' \<longleftrightarrow>
     view_ok Q ft esyn etyp idt v \<and> hub_ready i (fst (snd v)) \<longrightarrow> view_ok Q ft esyn etyp idt v'"

lemma view_step_refl: "reflp (view_step Q ft esyn etyp idt i)"
  by (simp add: reflp_def view_step_def)

lemma hub_of_view [simp]: "fst (snd (beyond_web w)) = s_hub w"
  by (simp add: beyond_web_def)

text \<open>A connection: its registration, what the others do meanwhile, and its hello.\<close>

lemma hub_inv_ServeHTTP:
  assumes "hub_inv h" "hub_ready i h" "runs_aside i meanwhile"
  shows "hub_inv (start_pumps i (writeJSON ''system:hello'' (hello_payload remote) i (meanwhile (hub_register i h))))"
proof -
  obtain frame where "marshalFrame ''system:hello'' (hello_payload remote) = Inr frame"
    by (simp add: marshalFrame_def hello_payload_def)
  with connected [of h i meanwhile remote frame] assms show ?thesis by (auto simp: hub_ready_def)
qed

text \<open>The state the server starts from.\<close>

definition fresh_system :: "sys \<Rightarrow> bool" where
  "fresh_system w \<longleftrightarrow> database w = empty_db \<and> s_hub w = NewHub \<and> s_broker w = new_broker \<and> s_audit w = []"

section \<open>Ledgers\<close>

text \<open>
  What the proofs need of \<open>Q\<close>: it stays true when an account and its job are booked together, and,
  unless every account is owed a job, when an account goes without.
\<close>

locale ledger =
  fixes Q :: "bytes list \<Rightarrow> bytes list \<Rightarrow> bool"
    and complete :: bool
  assumes booked: "Q ps us \<Longrightarrow> Q (ps @ [j]) (us @ [j])"
    and skipped: "\<not> complete \<Longrightarrow> Q ps us \<Longrightarrow> Q ps (us @ [j])"
begin

lemma view_ok_created:
  assumes ok: "view_ok Q ft esyn etyp idt (d, h, b, ps, l)"
    and u: "new_user uuid now arg d = Inr u" "row_ok u"
    and h: "hub_inv h'"
    and b: "b' = (if taken then add_job (job_text ft idt u) b else b)" "complete \<longrightarrow> taken"
    and p: "ap_ActorUserID p = idt (Bytes (u_ID u))"
  shows "view_ok Q ft esyn etyp idt (d\<lparr>users := users d @ [u]\<rparr>, h', b', ps @ [p], l')"
proof -
  have "db_ok (d\<lparr>users := users d @ [u]\<rparr>)"
    using ok u(1) by (simp add: new_user_db_ok)
  moreover have "list_all (names_user idt (users d @ [u])) (ps @ [p])"
    using ok p by (auto simp: list_all_iff names_user_def)
  moreover have "Q (published b') (map (job_text ft idt) (users d @ [u]))"
    using ok b booked skipped by (cases taken) auto
  ultimately show ?thesis
    using ok u(2) h b by (auto simp: job_inv_add)
qed

lemma Register_view:
  assumes ok: "view_ok Q ft esyn etyp idt (beyond_web w)"
    and q: "fits ft idt healthy q" and c: "complete \<longrightarrow> healthy \<and> jobs"
  shows "view_ok Q ft esyn etyp idt (beyond_web (fst (run_state
    (respond (Register (q_svc q) (Some (server_emitter (q_out q) (server_bus ws jobs))) input r w) rsp))))"
proof (cases "Register_taken (q_svc q) input (database w)")
  case True
  with ok show ?thesis by (simp add: Register_def respond_def)
next
  case False
  let ?E = "q_svc q" and ?bus = "server_emitter (q_out q) (server_bus ws jobs)"
  show ?thesis
  proof (cases rule: Register_insert_cases [OF server_bus_ok [of "q_out q" ws jobs], case_names crashed failed created,
        of ?E input r w])
    case crashed
    with ok False show ?thesis by (simp add: Register_def respond_def)
  next
    case (failed res)
    with ok False show ?thesis by (simp add: Register_def respond_def)
  next
    case (created hashed u d w')
    note cu = CreateUser_Inr [OF created(2)]
    let ?p = "\<lparr>ur_UserID = UUID_String ?E (u_ID u), ur_Email = u_Email u\<rparr>"
    obtain w1 where w1: "emit_registered ?bus ?p (w\<lparr>database := d\<rparr>) = Done w1"
      "database w1 = d" "s_audit w1 = s_audit w" "hub_inv (s_hub w) \<longrightarrow> hub_inv (s_hub w1)"
      "s_broker w1 = (if jobs \<and> o_publish_fault (q_out q) = None
         then add_job (welcome_job (q_out q) ?p) (s_broker w) else s_broker w)"
      using emitted [of "q_out q" ws jobs ?p "w\<lparr>database := d\<rparr>"] by auto
    have id: "Valid (u_ID u)" "length (Bytes (u_ID u)) = 16"
      using new_user_Inr(1,2) [OF cu(1)] q by (simp_all add: fits_def)
    have job: "welcome_job (q_out q) ?p = job_text ft idt u"
      using q id by (simp add: welcome_job_def job_text_def user_job_def fits_def UUID_String_def)
    have actor: "ap_ActorUserID (audit_payload ?E ''register'' u r) = idt (Bytes (u_ID u))"
      using q id by (simp add: audit_payload_def fits_def UUID_String_def)
    have row: "row_ok u"
      using new_user_row_ok [OF cu(1) created(1)] q by (simp add: fits_def)
    have "w' = w1\<lparr>s_audit := s_audit w1 @ [audit_payload ?E ''register'' u r]\<rparr>"
      using created(4) created(1,2) w1(1) by (simp add: Register_insert_def Let_def server_emit_audit)
    with created(4) False have result: "beyond_web (fst (run_state (respond (Register ?E (Some ?bus) input r w) rsp)))
      = ((database w)\<lparr>users := users (database w) @ [u]\<rparr>, s_hub w1, s_broker w1,
         s_audit w @ [audit_payload ?E ''register'' u r], s_log w1)"
      using w1(2,3) by (simp add: Register_def respond_def beyond_web_def cu(2))
    show ?thesis
      unfolding result
    proof (rule view_ok_created [OF _ cu(1) row])
      show "view_ok Q ft esyn etyp idt (database w, s_hub w, s_broker w, s_audit w, s_log w)"
        using ok by (simp only: beyond_web_def)
      show "hub_inv (s_hub w1)" using ok w1(4) by (simp add: beyond_web_def)
      show "s_broker w1 = (if jobs \<and> o_publish_fault (q_out q) = None then add_job (job_text ft idt u) (s_broker w)
        else s_broker w)"
        using w1(5) job by simp
    qed (use q c actor in \<open>auto simp: fits_def\<close>)
  qed
qed

lemma Login_view:
  assumes ok: "view_ok Q ft esyn etyp idt (beyond_web w)" and q: "fits ft idt healthy q"
  shows "view_ok Q ft esyn etyp idt (beyond_web (fst (run_state
    (respond (Login (q_svc q) (Some (server_emitter (q_out q) (server_bus ws jobs))) l r w) rsp))))"
proof -
  let ?r = "respond (Login (q_svc q) (Some (server_emitter (q_out q) (server_bus ws jobs))) l r w) rsp"
  have "names_user idt (users (database w)) (audit_payload (q_svc q) ''login'' u r)"
    if "GetUserByEmail (e_lookup_fault (q_svc q)) (li_Email l) (database w) = Inr u" for u
  proof -
    have "u \<in> set (users (database w))" using that by (auto simp: GetUserByEmail_Inr dest: find_Some_in_set)
    moreover have "Valid (u_ID u)" using ok calculation by (simp add: beyond_web_def db_ok_def)
    ultimately show ?thesis
      using q by (auto simp: names_user_def audit_payload_def UUID_String_def fits_def)
  qed
  moreover have "fst (run_state ?r) = w \<or> (\<exists>u. GetUserByEmail (e_lookup_fault (q_svc q)) (li_Email l) (database w) = Inr u
      \<and> fst (run_state ?r) = w\<lparr>s_audit := s_audit w @ [audit_payload (q_svc q) ''login'' u r]\<rparr>)"
  proof (cases "GetUserByEmail (e_lookup_fault (q_svc q)) (li_Email l) (database w)")
    case (Inr u)
    have "fst (run_state ?r) = w \<or> fst (run_state ?r) = w\<lparr>s_audit := s_audit w @ [audit_payload (q_svc q) ''login'' u r]\<rparr>"
      by (cases "ComparePassword (e_kdf (q_svc q)) (u_Password u) (li_Password l)";
          cases "Sign (e_jwt (q_svc q)) (NewTokenSigner (access_key (q_svc q)))
            (StandardClaims (e_now (q_svc q)) (UUID_String (q_svc q) (u_ID u)) access_ttl)";
          cases "Sign (e_jwt (q_svc q)) (NewTokenSigner (refresh_key (q_svc q)))
            (StandardClaims (e_now2 (q_svc q)) (UUID_String (q_svc q) (u_ID u)) refresh_ttl)")
        (simp_all add: Login_def respond_def Let_def server_emit_audit Inr split: option.split)
    with Inr show ?thesis by blast
  qed (simp add: Login_def respond_def)
  ultimately show ?thesis using ok by (auto simp: beyond_web_def)
qed

lemma hub_ServeHTTP_view:
  assumes "view_ok Q ft esyn etyp idt (beyond_web (fst s))" "hub_ready i (s_hub (fst s))" "runs_aside i meanwhile"
  shows "view_ok Q ft esyn etyp idt (beyond_web (fst (run_state (hub_ServeHTTP upg meanwhile origins i r s))))"
  using assms hub_inv_ServeHTTP [of "s_hub (fst s)" i meanwhile "req_remote r"]
  by (auto simp: hub_ServeHTTP_def beyond_web_def Let_def split: prod.splits option.splits)

lemma endpoint_view:
  assumes "event_bus srv = Some (server_bus ws jobs)" "fits ft idt healthy q" "complete \<longrightarrow> healthy \<and> jobs"
  shows "view_step Q ft esyn etyp idt (q_conn q) (beyond_web (fst s))
    (beyond_web (fst (run_state (endpoint_handler q srv ep r s))))"
proof -
  let ?R = "view_step Q ft esyn etyp idt (q_conn q)"
  note [simp] = endpoint_handler_def assms(1) reflpD [OF view_step_refl]
  have validated: "?R (beyond_web (fst s)) (beyond_web (fst (run_state (Validate dec val wrap h r s))))"
    if "\<And>r. ?R (beyond_web (fst s)) (beyond_web (fst (run_state (h r s))))" for dec val wrap h
    using that by (simp add: Validate_def split: sum.splits prod.splits option.splits)
  show ?thesis
  proof (cases ep)
    case RegisterEP
    have "?R (beyond_web (fst s)) (beyond_web (fst (run_state
        (register (q_svc q) (Some (server_emitter (q_out q) (server_bus ws jobs))) r s))))" for r
      unfolding view_step_def register_def Let_def using Register_view [OF _ assms(2,3)] by blast
    with RegisterEP show ?thesis by (simp add: validated Let_def)
  next
    case LoginEP
    have "?R (beyond_web (fst s)) (beyond_web (fst (run_state
        (login (q_svc q) (Some (server_emitter (q_out q) (server_bus ws jobs))) r s))))" for r
      unfolding view_step_def login_def Let_def using Login_view [OF _ assms(2)] by blast
    with LoginEP show ?thesis by (simp add: validated Let_def)
  next
    case RefreshEP
    then show ?thesis by (simp add: validated refresh_def Let_def)
  next
    case MeEP
    then show ?thesis by (simp add: Guard_def me_def Let_def split: sum.splits option.splits)
  next
    case WebSocketEP
    moreover have "runs_aside (q_conn q) (q_meanwhile q)" using assms(2) by (simp add: fits_def)
    ultimately show ?thesis by (simp add: view_step_def hub_ServeHTTP_view)
  qed (simp_all add: health_state files_state)
qed

lemma serve_view:
  assumes "event_bus srv = Some (server_bus ws jobs)" "fits ft idt healthy q" "complete \<longrightarrow> healthy \<and> jobs"
  shows "view_step Q ft esyn etyp idt (q_conn q) (beyond_web (fst st))
    (beyond_web (fst (run_state (serve q m miss srv r st))))"
proof (cases "m (routes srv) (req_method r) (req_path r)")
  case None
  then show ?thesis using reflpD [OF view_step_refl] by (simp add: serve_def)
next
  case (Some ep)
  with server_chain.keeps [OF endpoint_view [OF assms] view_step_refl] show ?thesis
    by (simp add: serve_def)
qed

text \<open>The other steps.\<close>

lemma audit_write_view:
  assumes "view_ok Q ft esyn etyp idt (beyond_web w)"
  shows "view_ok Q ft esyn etyp idt (beyond_web (write_audit_log out (s_audit w ! k)
    (w\<lparr>s_audit := take k (s_audit w) @ drop (Suc k) (s_audit w)\<rparr>)))"
proof -
  let ?w = "w\<lparr>s_audit := take k (s_audit w) @ drop (Suc k) (s_audit w)\<rparr>"
  let ?w' = "write_audit_log out (s_audit w ! k) ?w"
  have "tables_ok (database ?w)"
    using assms by (auto simp: beyond_web_def tables_ok_def list_all_iff row_ok_def)
  from write_audit_log_tables [OF this] have "db_ok (database ?w')" "users (database ?w') = users (database w)"
    by (simp_all add: tables_ok_def)
  moreover have "s_hub ?w' = s_hub w \<and> s_broker ?w' = s_broker w
      \<and> s_audit ?w' = take k (s_audit w) @ drop (Suc k) (s_audit w)"
    by (simp add: write_audit_log_def split: prod.splits sum.splits)
  moreover have "list_all P (take k xs @ drop (Suc k) xs)" if "list_all P xs" for P and xs :: "AuditLogPayload list"
    using that by (auto simp: list_all_iff dest: in_set_takeD in_set_dropD)
  ultimately show ?thesis using assms by (simp add: beyond_web_def)
qed

lemma system_step_view:
  assumes "system_step m miss srv ft esyn etyp idt healthy w w'" "event_bus srv = Some (server_bus ws jobs)"
    "view_ok Q ft esyn etyp idt (beyond_web w)" "complete \<longrightarrow> healthy \<and> jobs"
  shows "view_ok Q ft esyn etyp idt (beyond_web w')"
  using assms(1)
proof cases
  case (request q r)
  with serve_view [OF assms(2) _ assms(4), of ft idt q esyn etyp "(w, new_response)" m miss r] assms(3) show ?thesis
    by (simp add: view_step_def)
next
  case (audit_write k out)
  with audit_write_view [OF assms(3)] show ?thesis by simp
next
  case (hub_runs h)
  with assms(3) hub_step_inv show ?thesis by (auto simp: beyond_web_def)
next
  case (broker_runs b)
  with assms(3) job_step_inv show ?thesis by (auto simp: beyond_web_def)
next
  case (limiter_ticks now)
  with assms(3) show ?thesis by simp
qed

end

text \<open>A ledger that starts empty holds of every state the server reaches.\<close>

locale fresh_ledger = ledger +
  assumes opened: "Q [] []"
begin

lemma view_ok_fresh:
  assumes "fresh_system w"
  shows "view_ok Q ft esyn etyp idt (beyond_web w)"
proof -
  have "db_ok (database w)" "users (database w) = []" using assms by (simp_all add: fresh_system_def) (simp add: empty_db_def)
  moreover have "published (s_broker w) = []" using assms by (simp add: fresh_system_def new_broker_def)
  ultimately show ?thesis
    using assms hub_inv_New job_inv_new opened by (simp add: beyond_web_def fresh_system_def)
qed

lemma reachable_view:
  assumes "(system_step m miss srv ft esyn etyp idt healthy)\<^sup>*\<^sup>* w0 w" "fresh_system w0"
    "event_bus srv = Some (server_bus ws jobs)" "complete \<longrightarrow> healthy \<and> jobs"
  shows "view_ok Q ft esyn etyp idt (beyond_web w)"
  using assms(1)
  by (induction rule: rtranclp_induct) (auto intro: view_ok_fresh assms(2) system_step_view [OF _ assms(3) _ assms(4)])

end

section \<open>The system's promises\<close>

text \<open>The ledger of a server that runs its requests one after the other.\<close>

definition in_order :: "bool \<Rightarrow> bytes list \<Rightarrow> bytes list \<Rightarrow> bool" where
  "in_order complete ps us \<longleftrightarrow> subseq ps us \<and> (complete \<longrightarrow> ps = us)"

interpretation ordered: fresh_ledger "in_order complete" complete for complete
  by unfold_locales (auto simp: in_order_def intro: subseq_rev_drop_many list_emb_append_mono)

text \<open>
  The whole server, from an empty database: however requests of all kinds, audit writes,
  connections, the broker and the workers interleave, the tables keep their constraints, every
  password in them is a hash, the hub has not panicked, and the published jobs are the welcome jobs of
  accounts in the order of registration, one at most for each; every pending audit write names an
  account.  Where the broker refuses nothing, each account has its job.
\<close>
theorem system_invariant:
  assumes "(system_step m miss srv ft esyn etyp idt healthy)\<^sup>*\<^sup>* w0 w" "fresh_system w0"
    and "event_bus srv = Some (server_bus ws jobs)"
  shows "db_ok (database w)
    \<and> list_all hashed_password (users (database w))
    \<and> \<not> panicked (s_hub w)
    \<and> subseq (published (s_broker w)) (map (job_text ft idt) (users (database w)))
    \<and> (healthy \<and> jobs \<longrightarrow> published (s_broker w) = map (job_text ft idt) (users (database w)))
    \<and> list_all (names_user idt (users (database w))) (s_audit w)"
proof -
  have "view_ok (in_order (healthy \<and> jobs)) ft esyn etyp idt (beyond_web w)"
    by (rule ordered.reachable_view [OF assms]) simp
  then show ?thesis
    by (auto simp: beyond_web_def in_order_def hub_inv_def row_ok_def list_all_iff)
qed

definition sample_start :: sys where
  "sample_start = sample_sys\<lparr>s_hub := NewHub\<rparr>"

definition sample_visit :: per_request where
  "sample_visit = sample_per_request\<lparr>q_out := sample_outside\<lparr>o_encode := json_text (\<lambda>_ _. [])\<rparr>\<rparr>"

text \<open>Two workers come up, and a registration arrives.\<close>

definition sample_up :: sys where
  "sample_up = sample_start\<lparr>s_broker := ConsumeWelcomeEmails 2 (s_broker sample_start)\<rparr>"

definition sample_end :: sys where
  "sample_end = fst (run_state (serve sample_visit sample_mux (\<lambda>r w. w) sample_server register_request
     (sample_up, new_response)))"

lemma sample_run:
  "(system_step sample_mux (\<lambda>r w. w) sample_server (\<lambda>_ _. []) id id (e_uuid_text sample_env) True)\<^sup>*\<^sup>*
     sample_start sample_end"
    (is "?step\<^sup>*\<^sup>* _ _")
proof -
  have "?step sample_start sample_up"
    unfolding sample_up_def
    by (rule system_step.broker_runs [OF job_step.consume])
      (simp_all add: sample_start_def sample_sys_def new_broker_def ConsumeWelcomeEmails_def)
  moreover have "fits (\<lambda>_ _. []) (e_uuid_text sample_env) True sample_visit"
    by (simp add: fits_def sample_visit_def sample_per_request_def sample_env_def sample_outside_def
        runs_aside_id)
  moreover have "hub_ready (q_conn sample_visit) (s_hub sample_up)"
    by (simp add: hub_ready_def sample_up_def sample_start_def NewHub_def)
  ultimately have "?step sample_start sample_up" "?step sample_up sample_end"
    unfolding sample_end_def by (blast intro: system_step.request)+
  then show ?thesis by (rule converse_rtranclp_into_rtranclp [OF _ r_into_rtranclp])
qed

lemma sample_fresh: "fresh_system sample_start" "event_bus sample_server = Some (server_bus True True)"
  by (simp_all add: fresh_system_def sample_start_def sample_sys_def sample_server_def)

theorem system_invariant_witness:
  "list_all hashed_password (users (database sample_end)) \<and> \<not> panicked (s_hub sample_end)
   \<and> published (s_broker sample_end)
      = map (job_text (\<lambda>_ _. []) (e_uuid_text sample_env)) (users (database sample_end))"
  using system_invariant [OF sample_run sample_fresh] by blast

end
