(* ===== verification/Concurrent.thy ===== *)
theory Concurrent
  imports Whole_System
begin

text \<open>
  The running server with registrations that overlap: \<open>Service.Register\<close> as the four steps it takes
  on shared state (the lookup, the insert, the registration event, the audit event), any number of
  them under way, between all the steps of \<open>Whole_System\<close>.
\<close>

section \<open>Registrations under way\<close>

datatype stage = Lookup | Insertion | Announce user | Note user | Replied ApiResponse | Lost

record task =
  tk_q :: per_request
  tk_input :: RegisterInput
  tk_req :: "body request"
  tk_stage :: stage

definition task_insert :: "task \<Rightarrow> sys \<Rightarrow> stage \<times> sys" where
  "task_insert t w =
     (let E = q_svc (tk_q t); input = tk_input t
      in case HashPassword (e_rand E) (e_kdf E) (ri_Password input) of
           Panic _ \<Rightarrow> (Lost, w)
         | Ret (Inl err) \<Rightarrow> (Replied (ApiError ''failed to process password'' (Some (JStr err)) 500), w)
         | Ret (Inr hashed) \<Rightarrow>
             (case CreateUser (e_insert_fault E) (e_new_uuid E) (e_db_now E)
                     \<lparr>FirstName = ri_FirstName input, LastName = ri_LastName input,
                      Email = ri_Email input, Passwd = hashed\<rparr> (database w) of
                (Inl err, d) \<Rightarrow>
                  (Replied (ApiError ''failed to create user'' (Some (JStr err)) 500), w\<lparr>database := d\<rparr>)
              | (Inr u, d) \<Rightarrow> (Announce u, w\<lparr>database := d\<rparr>)))"

definition task_step :: "server_bus \<Rightarrow> task \<times> sys \<Rightarrow> task \<times> sys" where
  "task_step bus = (\<lambda>(t, w).
     let E = q_svc (tk_q t); b = server_emitter (q_out (tk_q t)) bus;
         (st, w) =
           (case tk_stage t of
              Lookup \<Rightarrow>
                (if Register_taken E (tk_input t) (database w)
                 then Replied (ApiError ''email already registered'' None 409) else Insertion, w)
            | Insertion \<Rightarrow> task_insert t w
            | Announce u \<Rightarrow>
                (case emit_registered b \<lparr>ur_UserID = UUID_String E (u_ID u), ur_Email = u_Email u\<rparr> w of
                   Done w \<Rightarrow> (Note u, w) | Panicked w \<Rightarrow> (Lost, w))
            | Note u \<Rightarrow>
                (case emit_audit b (audit_payload E ''register'' u (tk_req t)) w of
                   Done w \<Rightarrow> (Replied (ApiSuccess ''user registered successfully''
                       (Some (JObj [(''user'', SafeUser E u)])) 201), w)
                 | Panicked w \<Rightarrow> (Lost, w))
            | Replied res \<Rightarrow> (Replied res, w)
            | Lost \<Rightarrow> (Lost, w))
     in (t\<lparr>tk_stage := st\<rparr>, w))"

lemma task_step_simps:
  "tk_stage t = Lookup \<Longrightarrow> task_step bus (t, w) =
     (t\<lparr>tk_stage := if Register_taken (q_svc (tk_q t)) (tk_input t) (database w)
        then Replied (ApiError ''email already registered'' None 409) else Insertion\<rparr>, w)"
  "tk_stage t = Insertion \<Longrightarrow> task_step bus (t, w) =
     (t\<lparr>tk_stage := fst (task_insert t w)\<rparr>, snd (task_insert t w))"
  "tk_stage t = Replied res \<Longrightarrow> task_step bus (t, w) = (t, w)"
  "tk_stage t = Lost \<Longrightarrow> task_step bus (t, w) = (t, w)"
  by (cases t; simp add: task_step_def Let_def split_beta)+

lemma task_steps:
  "(task_step bus ^^ 4) (t\<lparr>tk_stage := Lookup\<rparr>, w)
     = (case Register (q_svc (tk_q t)) (Some (server_emitter (q_out (tk_q t)) bus)) (tk_input t) (tk_req t) w of
          Returned res w' \<Rightarrow> (t\<lparr>tk_stage := Replied res\<rparr>, w')
        | Crashed w' \<Rightarrow> (t\<lparr>tk_stage := Lost\<rparr>, w'))"
proof -
  let ?E = "q_svc (tk_q t)" and ?in = "tk_input t"
  have iter: "(f ^^ 4) x = f (f (f (f x)))" for f :: "task \<times> sys \<Rightarrow> task \<times> sys" and x
    by (simp add: eval_nat_numeral)
  show ?thesis
  proof (cases "Register_taken ?E ?in (database w)")
    case True
    then show ?thesis by (simp add: iter task_step_simps Register_def)
  next
    case False
    then have reg: "Register ?E b ?in r w = Register_insert ?E b ?in r w" for b and r :: "body request"
      by (simp add: Register_def)
    show ?thesis
    proof (cases "HashPassword (e_rand ?E) (e_kdf ?E) (ri_Password ?in)")
      case (Panic m)
      with False show ?thesis
        by (simp add: iter task_step_simps reg Register_insert_def task_insert_def)
    next
      case (Ret h)
      show ?thesis
      proof (cases h)
        case (Inl e)
        with Ret False show ?thesis
          by (simp add: iter task_step_simps reg Register_insert_def task_insert_def)
      next
        case (Inr hashed)
        obtain c d where c: "CreateUser (e_insert_fault ?E) (e_new_uuid ?E) (e_db_now ?E)
           \<lparr>FirstName = ri_FirstName ?in, LastName = ri_LastName ?in,
            Email = ri_Email ?in, Passwd = hashed\<rparr> (database w) = (c, d)" by fastforce
        show ?thesis
        proof (cases c)
          case (Inl e)
          with Ret Inr c False show ?thesis
            by (simp add: iter task_step_simps reg Register_insert_def task_insert_def)
        next
          case u: (Inr u)
          with Ret Inr c False show ?thesis
            by (simp add: iter task_step_def reg Register_insert_def task_insert_def Let_def split: run.split)
        qed
      qed
    qed
  qed
qed

text \<open>
  The four steps are \<open>Register\<close>: a registration that nothing interrupts answers and leaves the
  state as the service method does, in four steps at most, and panics where it does.
\<close>
theorem register_in_steps:
  "(task_step bus ^^ 4) (t\<lparr>tk_stage := Lookup\<rparr>, w)
     = (case Register (q_svc (tk_q t)) (Some (server_emitter (q_out (tk_q t)) bus)) (tk_input t) (tk_req t) w of
          Returned res w' \<Rightarrow> (t\<lparr>tk_stage := Replied res\<rparr>, w')
        | Crashed w' \<Rightarrow> (t\<lparr>tk_stage := Lost\<rparr>, w'))"
  by (rule task_steps)

section \<open>Steps\<close>

text \<open>
  A registration arrives, one under way makes its next step, or something else happens: a step of the
  system, or of the middlewares, which touch the limiter and the access logs only.
\<close>

inductive conc_step ::
  "mux \<Rightarrow> (body request \<Rightarrow> response \<Rightarrow> response) \<Rightarrow> server \<Rightarrow> server_bus \<Rightarrow> (int \<Rightarrow> int \<Rightarrow> bytes)
    \<Rightarrow> (bytes \<Rightarrow> bytes) \<Rightarrow> (bytes \<Rightarrow> bytes) \<Rightarrow> (bytes \<Rightarrow> bytes) \<Rightarrow> bool \<Rightarrow> sys \<times> task list \<Rightarrow> sys \<times> task list \<Rightarrow> bool"
  for m miss srv bus ft esyn etyp idt healthy where
  arrives: "fits ft idt healthy q \<Longrightarrow> conc_step m miss srv bus ft esyn etyp idt healthy
    (w, ts) (w, ts @ [\<lparr>tk_q = q, tk_input = input, tk_req = r, tk_stage = Lookup\<rparr>])"
| moves: "i < length ts \<Longrightarrow> task_step bus (ts ! i, w) = (t, w') \<Longrightarrow>
    conc_step m miss srv bus ft esyn etyp idt healthy (w, ts) (w', ts[i := t])"
| elsewhere: "system_step m miss srv ft esyn etyp idt healthy w w' \<Longrightarrow>
    conc_step m miss srv bus ft esyn etyp idt healthy (w, ts) (w', ts)"
| middlewares: "beyond_web w' = beyond_web w \<Longrightarrow>
    conc_step m miss srv bus ft esyn etyp idt healthy (w, ts) (w', ts)"

inductive_cases conc_stepE: "conc_step m miss srv bus ft esyn etyp idt healthy s s'"

section \<open>The ledger of the jobs still owed\<close>

text \<open>Between its insert and its event, a registration owes the job of its account.\<close>

definition owed :: "(int \<Rightarrow> int \<Rightarrow> bytes) \<Rightarrow> (bytes \<Rightarrow> bytes) \<Rightarrow> task \<Rightarrow> bytes list" where
  "owed ft idt t = (case tk_stage t of Announce u \<Rightarrow> [job_text ft idt u] | _ \<Rightarrow> [])"

definition pending :: "(int \<Rightarrow> int \<Rightarrow> bytes) \<Rightarrow> (bytes \<Rightarrow> bytes) \<Rightarrow> task list \<Rightarrow> bytes multiset" where
  "pending ft idt ts = (\<Sum>t\<leftarrow>ts. mset (owed ft idt t))"

definition covered :: "bool \<Rightarrow> bytes multiset \<Rightarrow> bytes list \<Rightarrow> bytes list \<Rightarrow> bool" where
  "covered complete P ps us \<longleftrightarrow>
     mset ps + P \<subseteq># mset us \<and> (complete \<longrightarrow> mset ps + P = mset us)"

interpretation covered: ledger "covered complete P" complete for complete P
proof
  show "covered complete P (ps @ [j]) (us @ [j])" if "covered complete P ps us" for ps us j
    using that by (simp add: covered_def)
  show "covered complete P ps (us @ [j])" if "\<not> complete" "covered complete P ps us" for ps us j
    using that subset_mset.order_trans [of "mset ps + P" "mset us" "mset us + {#j#}"] by (simp add: covered_def)
qed

interpretation settled: fresh_ledger "covered complete {#}" complete for complete
  by unfold_locales (simp add: covered_def)

lemma pending_update:
  assumes "i < length ts"
  shows "pending ft idt (ts[i := t]) + mset (owed ft idt (ts ! i)) = pending ft idt ts + mset (owed ft idt t)"
  using assms
proof (induction ts arbitrary: i)
  case (Cons x xs)
  then show ?case
    by (cases i) (simp_all add: pending_def add.commute add.left_commute add.assoc)
qed simp

lemma pending_snoc [simp]: "pending ft idt (ts @ [t]) = pending ft idt ts + mset (owed ft idt t)"
  by (simp add: pending_def)

section \<open>The invariant\<close>

definition task_ok :: "(int \<Rightarrow> int \<Rightarrow> bytes) \<Rightarrow> (bytes \<Rightarrow> bytes) \<Rightarrow> bool \<Rightarrow> user list \<Rightarrow> task \<Rightarrow> bool" where
  "task_ok ft idt healthy us t \<longleftrightarrow> fits ft idt healthy (tk_q t)
     \<and> (\<forall>u. tk_stage t = Announce u \<or> tk_stage t = Note u \<longrightarrow> u \<in> set us)"

definition conc_inv ::
  "(int \<Rightarrow> int \<Rightarrow> bytes) \<Rightarrow> (bytes \<Rightarrow> bytes) \<Rightarrow> (bytes \<Rightarrow> bytes) \<Rightarrow> (bytes \<Rightarrow> bytes) \<Rightarrow> bool \<Rightarrow> bool
    \<Rightarrow> sys \<times> task list \<Rightarrow> bool" where
  "conc_inv ft esyn etyp idt healthy jobs = (\<lambda>(w, ts).
     view_ok (covered (healthy \<and> jobs) (pending ft idt ts)) ft esyn etyp idt (beyond_web w)
     \<and> list_all (task_ok ft idt healthy (users (database w))) ts)"

lemma task_ok_mono: "task_ok ft idt healthy us t \<Longrightarrow> set us \<subseteq> set us' \<Longrightarrow> task_ok ft idt healthy us' t"
  by (auto simp: task_ok_def)

lemma tasks_ok_update:
  assumes "list_all (task_ok ft idt healthy us) ts" "set us \<subseteq> set us'" "task_ok ft idt healthy us' t"
  shows "list_all (task_ok ft idt healthy us') (ts[i := t])"
  using assms set_update_subset_insert [of ts i t] by (auto simp: list_all_iff intro: task_ok_mono)

lemma tasks_ok_set:
  "list_all (task_ok ft idt healthy us) ts \<Longrightarrow> task_ok ft idt healthy us t
    \<Longrightarrow> list_all (task_ok ft idt healthy us) (ts[i := t])"
  by (rule tasks_ok_update [where us = us]) simp_all

text \<open>The texts of an account's id agree.\<close>

lemma texts_agree:
  assumes "fits ft idt healthy q" "Valid (u_ID u)"
  shows "welcome_job (q_out q) \<lparr>ur_UserID = UUID_String (q_svc q) (u_ID u), ur_Email = u_Email u\<rparr> = job_text ft idt u"
    and "ap_ActorUserID (audit_payload (q_svc q) a u r) = idt (Bytes (u_ID u))"
  using assms
  by (simp_all add: welcome_job_def job_text_def user_job_def fits_def UUID_String_def audit_payload_def)

lemma covered_settle:
  assumes "covered complete P ps us" "P = add_mset j P'"
    and "ps' = (if taken then ps @ [j] else ps)" "complete \<longrightarrow> taken"
  shows "covered complete P' ps' us"
proof -
  have "X \<subseteq># Y" if "add_mset j X \<subseteq># Y" for X Y :: "bytes multiset"
    using that by (meson mset_subset_eq_insertD subset_mset.less_imp_le)
  with assms show ?thesis
    by (cases taken) (auto simp: covered_def)
qed

text \<open>The insert books the account and owes its job.\<close>

lemma insert_inv:
  assumes inv: "conc_inv ft esyn etyp idt healthy jobs (w, ts)"
    and i: "i < length ts" "tk_stage (ts ! i) = Insertion"
  shows "conc_inv ft esyn etyp idt healthy jobs
    (snd (task_insert (ts ! i) w), ts[i := (ts ! i)\<lparr>tk_stage := fst (task_insert (ts ! i) w)\<rparr>])"
proof -
  let ?t = "ts ! i" and ?c = "healthy \<and> jobs"
  let ?E = "q_svc (tk_q ?t)" and ?in = "tk_input ?t"
  have fit: "fits ft idt healthy (tk_q ?t)" and tasks: "list_all (task_ok ft idt healthy (users (database w))) ts"
    using inv i by (auto simp: conc_inv_def list_all_length task_ok_def)
  have same: "conc_inv ft esyn etyp idt healthy jobs (w, ts[i := ?t\<lparr>tk_stage := st\<rparr>])"
    if "st = Lost \<or> (\<exists>res. st = Replied res)" for st
  proof -
    have "owed ft idt (?t\<lparr>tk_stage := st\<rparr>) = []" "owed ft idt ?t = []"
      using that i(2) by (auto simp: owed_def)
    then have "pending ft idt (ts[i := ?t\<lparr>tk_stage := st\<rparr>]) = pending ft idt ts"
      using pending_update [OF i(1), of ft idt "?t\<lparr>tk_stage := st\<rparr>"] by simp
    moreover have "task_ok ft idt healthy (users (database w)) (?t\<lparr>tk_stage := st\<rparr>)"
      using that fit by (auto simp: task_ok_def)
    ultimately show ?thesis using inv tasks by (simp add: conc_inv_def tasks_ok_set)
  qed
  show ?thesis
  proof (cases "HashPassword (e_rand ?E) (e_kdf ?E) (ri_Password ?in)")
    case (Panic msg)
    then show ?thesis using same by (simp add: task_insert_def)
  next
    case (Ret h)
    show ?thesis
    proof (cases h)
      case (Inl e)
      with Ret show ?thesis using same by (simp add: task_insert_def)
    next
      case (Inr hashed)
      let ?arg = "\<lparr>FirstName = ri_FirstName ?in, LastName = ri_LastName ?in, Email = ri_Email ?in, Passwd = hashed\<rparr>"
      let ?create = "CreateUser (e_insert_fault ?E) (e_new_uuid ?E) (e_db_now ?E) ?arg (database w)"
      show ?thesis
      proof (cases "fst ?create")
        case (Inl e)
        then have "?create = (Inl e, database w)"
          by (auto simp: CreateUser_def split: option.splits sum.splits)
        with Ret Inr show ?thesis using same by (simp add: task_insert_def)
      next
        case u: (Inr u)
        then have c: "?create = (Inr u, snd ?create)" by (simp add: prod_eq_iff)
        note cu = CreateUser_Inr [OF c]
        let ?d = "(database w)\<lparr>users := users (database w) @ [u]\<rparr>" and ?t' = "?t\<lparr>tk_stage := Announce u\<rparr>"
        have step: "task_insert ?t w = (Announce u, w\<lparr>database := ?d\<rparr>)"
          using Ret Inr c cu(2) by (simp add: task_insert_def)
        have "length (e_new_uuid ?E) = 16" using fit by (simp add: fits_def)
        then have "row_ok u" using new_user_row_ok [OF cu(1)] Ret Inr by simp
        moreover have "pending ft idt (ts[i := ?t']) = add_mset (job_text ft idt u) (pending ft idt ts)"
          using pending_update [OF i(1), of ft idt ?t'] i(2) by (simp add: owed_def)
        moreover have "list_all (names_user idt (users (database w) @ [u])) (s_audit w)"
          using inv names_user_mono by (auto simp: conc_inv_def beyond_web_def list_all_iff)
        moreover have "list_all (task_ok ft idt healthy (users ?d)) (ts[i := ?t'])"
          using tasks fit by (intro tasks_ok_update [OF tasks]) (auto simp: task_ok_def)
        moreover have "db_ok ?d"
          using new_user_db_ok [OF _ cu(1)] inv by (simp add: conc_inv_def beyond_web_def)
        ultimately show ?thesis
          using inv by (simp add: step conc_inv_def beyond_web_def covered_def)
      qed
    qed
  qed
qed


lemma conc_inv_at:
  assumes "conc_inv ft esyn etyp idt healthy jobs (w, ts)" "i < length ts"
  shows "fits ft idt healthy (tk_q (ts ! i))"
    and "tk_stage (ts ! i) = Announce u \<or> tk_stage (ts ! i) = Note u \<Longrightarrow> u \<in> set (users (database w)) \<and> Valid (u_ID u)"
proof -
  have ok: "task_ok ft idt healthy (users (database w)) (ts ! i)"
    using assms by (simp add: conc_inv_def list_all_length)
  then show "fits ft idt healthy (tk_q (ts ! i))" by (simp add: task_ok_def)
  have "\<forall>u \<in> set (users (database w)). Valid (u_ID u)"
    using assms(1) by (simp add: conc_inv_def beyond_web_def db_ok_def)
  with ok show "u \<in> set (users (database w)) \<and> Valid (u_ID u)"
    if "tk_stage (ts ! i) = Announce u \<or> tk_stage (ts ! i) = Note u"
    using that by (auto simp: task_ok_def)
qed

text \<open>The registration event publishes the job that was owed, or the broker refuses it.\<close>

lemma announce_inv:
  assumes inv: "conc_inv ft esyn etyp idt healthy jobs (w, ts)"
    and i: "i < length ts" "tk_stage (ts ! i) = Announce u"
    and step: "task_step (server_bus ws jobs) (ts ! i, w) = (t, w')"
  shows "conc_inv ft esyn etyp idt healthy jobs (w', ts[i := t])"
proof -
  let ?t = "ts ! i" and ?us = "users (database w)"
  let ?q = "tk_q ?t"
  let ?p = "\<lparr>ur_UserID = UUID_String (q_svc ?q) (u_ID u), ur_Email = u_Email u\<rparr>"
  let ?taken = "jobs \<and> o_publish_fault (q_out ?q) = None"
  note at = conc_inv_at [OF inv i(1)]
  have u: "u \<in> set ?us" "Valid (u_ID u)" using at(2) i(2) by auto
  obtain w1 where w1: "emit_registered (server_emitter (q_out ?q) (server_bus ws jobs)) ?p w = Done w1"
    "database w1 = database w" "s_audit w1 = s_audit w" "hub_inv (s_hub w) \<longrightarrow> hub_inv (s_hub w1)"
    "s_broker w1 = (if ?taken then add_job (welcome_job (q_out ?q) ?p) (s_broker w) else s_broker w)"
    using emitted [of "q_out ?q" ws jobs ?p w] by blast
  have t: "t = ?t\<lparr>tk_stage := Note u\<rparr>" "w' = w1"
    using step i(2) w1(1) by (auto simp: task_step_def Let_def)
  have "pending ft idt ts = add_mset (job_text ft idt u) (pending ft idt (ts[i := t]))"
    using pending_update [OF i(1), of ft idt t] i(2) by (simp add: t owed_def)
  moreover have "published (s_broker w1)
      = (if ?taken then published (s_broker w) @ [job_text ft idt u] else published (s_broker w))"
    using w1(5) texts_agree(1) [OF at(1) u(2)] by simp
  moreover have "healthy \<and> jobs \<longrightarrow> ?taken" using at(1) by (simp add: fits_def)
  ultimately have "covered (healthy \<and> jobs) (pending ft idt (ts[i := t])) (published (s_broker w1)) (map (job_text ft idt) ?us)"
    using covered_settle [of "healthy \<and> jobs" "pending ft idt ts" "published (s_broker w)" "map (job_text ft idt) ?us"
        "job_text ft idt u" "pending ft idt (ts[i := t])" _ ?taken] inv
    by (simp add: conc_inv_def beyond_web_def)
  moreover have "job_inv (decode_job esyn etyp) WelcomeEmailHandler (s_broker w1)"
    using w1(5) inv by (simp add: job_inv_add conc_inv_def beyond_web_def)
  moreover have "list_all (task_ok ft idt healthy ?us) (ts[i := t])"
    using inv u(1) at(1) by (intro tasks_ok_set) (auto simp: conc_inv_def t task_ok_def)
  ultimately show ?thesis
    using inv w1(2-4) by (simp add: conc_inv_def beyond_web_def t(2))
qed

lemma note_inv:
  assumes inv: "conc_inv ft esyn etyp idt healthy jobs (w, ts)"
    and i: "i < length ts" "tk_stage (ts ! i) = Note u"
    and step: "task_step (server_bus ws jobs) (ts ! i, w) = (t, w')"
  shows "conc_inv ft esyn etyp idt healthy jobs (w', ts[i := t])"
proof -
  let ?t = "ts ! i" and ?us = "users (database w)"
  let ?p = "audit_payload (q_svc (tk_q ?t)) ''register'' u (tk_req ?t)"
  note at = conc_inv_at [OF inv i(1)]
  have u: "u \<in> set ?us" "Valid (u_ID u)" using at(2) i(2) by auto
  obtain res where t: "t = ?t\<lparr>tk_stage := Replied res\<rparr>" "w' = w\<lparr>s_audit := s_audit w @ [?p]\<rparr>"
    using step i(2) by (auto simp: task_step_def Let_def server_emit_audit)
  have "pending ft idt (ts[i := t]) = pending ft idt ts"
    using pending_update [OF i(1), of ft idt t] i(2) by (simp add: t owed_def)
  moreover have "names_user idt ?us ?p"
    using texts_agree(2) [OF at(1) u(2)] u(1) by (auto simp: names_user_def)
  moreover have "list_all (task_ok ft idt healthy ?us) (ts[i := t])"
    using inv at(1) by (intro tasks_ok_set) (auto simp: conc_inv_def t task_ok_def)
  ultimately show ?thesis
    using inv by (simp add: conc_inv_def beyond_web_def t(2))
qed

lemma move_inv:
  assumes inv: "conc_inv ft esyn etyp idt healthy jobs (w, ts)" and i: "i < length ts"
    and step: "task_step (server_bus ws jobs) (ts ! i, w) = (t, w')"
  shows "conc_inv ft esyn etyp idt healthy jobs (w', ts[i := t])"
proof (cases "tk_stage (ts ! i)")
  case Lookup
  let ?st = "tk_stage t"
  have t: "t = (ts ! i)\<lparr>tk_stage := ?st\<rparr>" "w' = w" "?st = Insertion \<or> (\<exists>res. ?st = Replied res)"
    using step Lookup by (auto simp: task_step_simps)
  then have "owed ft idt t = []" "owed ft idt (ts ! i) = []" "task_ok ft idt healthy (users (database w)) t"
    using Lookup conc_inv_at(1) [OF inv i] by (auto simp: owed_def task_ok_def)
  then show ?thesis
    using inv pending_update [OF i, of ft idt t] t(2) by (simp add: conc_inv_def tasks_ok_set)
next
  case Insertion
  with step have "t = (ts ! i)\<lparr>tk_stage := fst (task_insert (ts ! i) w)\<rparr>" "w' = snd (task_insert (ts ! i) w)"
    by (simp_all add: task_step_simps)
  with insert_inv [OF inv i Insertion] show ?thesis by simp
next
  case (Announce u)
  with announce_inv [OF inv i] step show ?thesis by blast
next
  case (Note u)
  with note_inv [OF inv i] step show ?thesis by blast
next
  case (Replied res)
  with step have "t = ts ! i" "w' = w" by (simp_all add: task_step_simps)
  with inv show ?thesis by simp
next
  case Lost
  with step have "t = ts ! i" "w' = w" by (simp_all add: task_step_simps)
  with inv show ?thesis by simp
qed

lemma system_step_users:
  assumes "system_step m miss srv ft esyn etyp idt healthy w w'" "event_bus srv = Some (server_bus ws jobs)"
    "tables_ok (database w)"
  shows "set (users (database w)) \<subseteq> set (users (database w'))"
  using assms(1)
proof cases
  case (request q r)
  have "db_grows (database w) (database w')"
    using serve_database(1) [of srv "(w, new_response)" q m miss r] server_bus_ok request(1) assms(2)
    by simp
  then show ?thesis by (auto simp: db_grows_def)
next
  case (audit_write k out)
  with write_audit_log_tables [of "w\<lparr>s_audit := take k (s_audit w) @ drop (Suc k) (s_audit w)\<rparr>" out] assms(3)
  show ?thesis by simp
qed simp_all

lemma conc_step_inv:
  assumes "conc_step m miss srv (server_bus ws jobs) ft esyn etyp idt healthy s s'"
    "event_bus srv = Some (server_bus ws jobs)" "conc_inv ft esyn etyp idt healthy jobs s"
  shows "conc_inv ft esyn etyp idt healthy jobs s'"
  using assms(1)
proof cases
  case (arrives q w ts input r)
  then show ?thesis
    using assms(3) by (simp add: conc_inv_def owed_def task_ok_def)
next
  case (moves i ts w t w')
  with move_inv assms(3) show ?thesis by blast
next
  case (elsewhere w w' ts)
  let ?c = "healthy \<and> jobs"
  have view: "view_ok (covered ?c (pending ft idt ts)) ft esyn etyp idt (beyond_web w)"
    using assms(3) elsewhere(1) by (simp add: conc_inv_def)
  then have "tables_ok (database w)"
    by (simp add: beyond_web_def tables_ok_def list_all_iff row_ok_def)
  from system_step_users [OF elsewhere(3) assms(2) this]
  have "list_all (task_ok ft idt healthy (users (database w'))) ts"
    using assms(3) elsewhere(1) by (auto simp: conc_inv_def list_all_iff intro: task_ok_mono)
  moreover have "view_ok (covered ?c (pending ft idt ts)) ft esyn etyp idt (beyond_web w')"
    by (rule covered.system_step_view [OF elsewhere(3) assms(2) view]) simp
  ultimately show ?thesis using elsewhere(2) by (simp add: conc_inv_def)
next
  case (middlewares w' w ts)
  moreover have "database w' = database w" using middlewares(3) by (simp add: beyond_web_def)
  ultimately show ?thesis using assms(3) by (simp add: conc_inv_def)
qed

lemma reachable_conc:
  assumes "(conc_step m miss srv (server_bus ws jobs) ft esyn etyp idt healthy)\<^sup>*\<^sup>* (w0, []) s"
    "fresh_system w0" "event_bus srv = Some (server_bus ws jobs)"
  shows "conc_inv ft esyn etyp idt healthy jobs s"
proof -
  have "conc_inv ft esyn etyp idt healthy jobs (w0, [])"
    using settled.view_ok_fresh [OF assms(2)] by (simp add: conc_inv_def pending_def)
  with assms(1) show ?thesis
    by (induction rule: rtranclp_induct) (auto intro: conc_step_inv assms(3))
qed

section \<open>What the server promises\<close>

definition announcing :: "task \<Rightarrow> bool" where
  "announcing t \<longleftrightarrow> (case tk_stage t of Announce u \<Rightarrow> True | _ \<Rightarrow> False)"

lemma pending_quiet: "list_all (\<lambda>t. \<not> announcing t) ts \<Longrightarrow> pending ft idt ts = {#}"
  by (induction ts) (auto simp: pending_def announcing_def owed_def split: stage.splits)

lemma covered_published: "covered complete P ps us \<Longrightarrow> mset ps \<subseteq># mset us"
  unfolding covered_def by (meson mset_subset_eq_add_left subset_mset.order_trans)

lemma covered_quiet:
  "covered complete (pending ft idt ts) ps us \<Longrightarrow> list_all (\<lambda>t. \<not> announcing t) ts \<Longrightarrow> complete
    \<Longrightarrow> mset ps = mset us"
  using pending_quiet [of ts ft idt] by (simp add: covered_def)

text \<open>Two registrations of one email at a time.\<close>

lemma task_runs:
  assumes "(task_step bus ^^ n) (ts ! i, w) = (t, w')" "i < length ts"
  shows "(conc_step m miss srv bus ft esyn etyp idt healthy)\<^sup>*\<^sup>* (w, ts) (w', ts[i := t])"
  using assms
proof (induction n arbitrary: t w')
  case (Suc n)
  obtain t1 w1 where 1: "(task_step bus ^^ n) (ts ! i, w) = (t1, w1)" by fastforce
  have "conc_step m miss srv bus ft esyn etyp idt healthy (w1, ts[i := t1]) (w', (ts[i := t1])[i := t])"
    using Suc.prems 1 by (intro conc_step.moves) simp_all
  with Suc.IH [OF 1 Suc.prems(2)] show ?case by simp
qed simp

definition sample_task :: task where
  "sample_task = \<lparr>tk_q = sample_visit, tk_input = sample_input, tk_req = sample_request [], tk_stage = Lookup\<rparr>"

abbreviation sample_conc :: "sys \<times> task list \<Rightarrow> sys \<times> task list \<Rightarrow> bool" where
  "sample_conc \<equiv> conc_step sample_mux (\<lambda>r w. w) sample_server (server_bus True True) (\<lambda>_ _. []) id id
     (e_uuid_text sample_env) True"

text \<open>Both pass the lookup; the first is then answered with 201, the second has its insert before it.\<close>

lemma sample_overlap:
  obtains w res where "sample_conc\<^sup>*\<^sup>* (sample_start, [])
      (w, [sample_task\<lparr>tk_stage := Replied res\<rparr>, sample_task\<lparr>tk_stage := Insertion\<rparr>])"
    "length (users (database w)) = 1" "chan (s_broker w) = NoConsumer"
proof -
  let ?t = "sample_task" and ?t' = "sample_task\<lparr>tk_stage := Insertion\<rparr>"
  have q: "q_svc sample_visit = sample_env" "o_publish_fault (q_out sample_visit) = None"
    by (simp_all add: sample_visit_def sample_per_request_def sample_outside_def)
  have db: "database sample_start = empty_db" by (simp add: sample_start_def sample_sys_def)
  have "fits (\<lambda>_ _. []) (e_uuid_text sample_env) True sample_visit"
    by (simp add: fits_def sample_visit_def sample_per_request_def sample_env_def sample_outside_def runs_aside_id)
  from conc_step.arrives [OF this]
  have new: "sample_conc (sample_start, ts) (sample_start, ts @ [?t])" for ts
    by (simp add: sample_task_def)
  have "\<not> Register_taken sample_env sample_input empty_db"
    by (simp add: Register_taken_def sample_env_def GetUserByEmail_def empty_db_def scan_one_def and_then_def
        pg_text_def split: sum.splits)
  then have "(task_step (server_bus True True) ^^ 1) ([?t, ?t] ! 1, sample_start) = (?t', sample_start)"
    by (simp add: task_step_simps sample_task_def q db)
  from task_runs [OF this] have look: "sample_conc\<^sup>*\<^sup>* (sample_start, [?t, ?t]) (sample_start, [?t, ?t'])"
    by simp
  obtain w u where reg: "Register sample_env (Some (server_emitter (q_out sample_visit) (server_bus True True)))
       sample_input (sample_request []) sample_start
     = Returned (ApiSuccess ''user registered successfully'' (Some (JObj [(''user'', SafeUser sample_env u)])) 201) w"
    "users (database w) = [u]" "chan (s_broker w) = chan (s_broker sample_start)"
    by (rule sample_registers [OF q(2) db])
  let ?res = "ApiSuccess ''user registered successfully'' (Some (JObj [(''user'', SafeUser sample_env u)])) 201"
  let ?t1 = "?t\<lparr>tk_stage := Replied ?res\<rparr>"
  have t: "tk_q ?t = sample_visit" "tk_input ?t = sample_input" "tk_req ?t = sample_request []"
    "?t\<lparr>tk_stage := Lookup\<rparr> = ?t"
    by (simp_all add: sample_task_def)
  have "(task_step (server_bus True True) ^^ 4) (?t, sample_start) = (?t1, w)"
    using task_steps [of "server_bus True True" ?t sample_start]
    by (simp only: t q reg(1) call.case)
  then have "(task_step (server_bus True True) ^^ 4) ([?t, ?t'] ! 0, sample_start) = (?t1, w)"
    by (simp only: nth_Cons_0)
  from task_runs [OF this] have first: "sample_conc\<^sup>*\<^sup>* (sample_start, [?t, ?t']) (w, [?t1, ?t'])"
    by (simp only: list.size list_update.simps nat.case One_nat_def add_Suc_right add_0_right zero_less_Suc)
  have "sample_conc\<^sup>*\<^sup>* (sample_start, []) (sample_start, [?t] @ [?t])"
    using new [of "[]", unfolded append_Nil] new [of "[?t]"] by (rule converse_rtranclp_into_rtranclp [OF _ r_into_rtranclp])
  moreover have "sample_conc\<^sup>*\<^sup>* (sample_start, [?t] @ [?t]) (sample_start, [?t, ?t'])"
    unfolding append.simps by (rule look)
  ultimately have "sample_conc\<^sup>*\<^sup>* (sample_start, []) (w, [?t1, ?t'])"
    using first by (blast intro: rtranclp_trans)
  moreover have "length (users (database w)) = 1" by (simp add: reg(2))
  moreover have "chan (s_broker w) = NoConsumer"
    by (simp add: reg(3) sample_start_def sample_sys_def new_broker_def)
  ultimately show ?thesis by (rule that)
qed

lemma sample_quiet: "list_all (\<lambda>t. \<not> announcing t) [sample_task\<lparr>tk_stage := Replied res\<rparr>, sample_task\<lparr>tk_stage := Insertion\<rparr>]"
  by (simp add: announcing_def)

text \<open>
  C1. The whole server, from an empty database: however registrations under way, requests of all
  kinds, audit writes, connections, the broker and the workers interleave, the tables keep their
  constraints, every password in them is a hash, the hub has not panicked, the published jobs are
  welcome jobs of accounts, one at most for each, and every pending audit write names an account.
  Where the broker refuses nothing, each account has its job as soon as no registration is between
  its insert and its event.
\<close>
theorem concurrent_server:
  assumes "(conc_step m miss srv (server_bus ws jobs) ft esyn etyp idt healthy)\<^sup>*\<^sup>* (w0, []) (w, ts)"
    and "fresh_system w0" "event_bus srv = Some (server_bus ws jobs)"
  shows "db_ok (database w)
    \<and> list_all hashed_password (users (database w))
    \<and> \<not> panicked (s_hub w)
    \<and> mset (published (s_broker w)) \<subseteq># mset (map (job_text ft idt) (users (database w)))
    \<and> (healthy \<and> jobs \<and> list_all (\<lambda>t. \<not> announcing t) ts
         \<longrightarrow> mset (published (s_broker w)) = mset (map (job_text ft idt) (users (database w))))
    \<and> list_all (names_user idt (users (database w))) (s_audit w)"
proof -
  have view: "view_ok (covered (healthy \<and> jobs) (pending ft idt ts)) ft esyn etyp idt (beyond_web w)"
    using reachable_conc [OF assms] by (simp add: conc_inv_def)
  then have ledger: "covered (healthy \<and> jobs) (pending ft idt ts) (published (s_broker w))
      (map (job_text ft idt) (users (database w)))"
    by (simp add: beyond_web_def)
  from covered_quiet [OF this]
  have "healthy \<and> jobs \<and> list_all (\<lambda>t. \<not> announcing t) ts
      \<longrightarrow> mset (published (s_broker w)) = mset (map (job_text ft idt) (users (database w)))"
    by blast
  moreover have "db_ok (database w)" "list_all hashed_password (users (database w))" "\<not> panicked (s_hub w)"
    "list_all (names_user idt (users (database w))) (s_audit w)"
    using view by (auto simp: beyond_web_def hub_inv_def row_ok_def list_all_iff)
  ultimately show ?thesis using covered_published [OF ledger] by blast
qed

theorem concurrent_server_witness:
  "\<exists>w ts. sample_conc\<^sup>*\<^sup>* (sample_start, []) (w, ts) \<and> ts \<noteq> [] \<and> length (users (database w)) = 1
     \<and> mset (published (s_broker w))
        = mset (map (job_text (\<lambda>_ _. []) (e_uuid_text sample_env)) (users (database w)))"
proof -
  obtain w res where run: "sample_conc\<^sup>*\<^sup>* (sample_start, [])
      (w, [sample_task\<lparr>tk_stage := Replied res\<rparr>, sample_task\<lparr>tk_stage := Insertion\<rparr>])"
    and one: "length (users (database w)) = 1"
    by (rule sample_overlap) blast
  from concurrent_server [OF run sample_fresh] sample_quiet [of res]
  have "mset (published (s_broker w))
      = mset (map (job_text (\<lambda>_ _. []) (e_uuid_text sample_env)) (users (database w)))" by blast
  with run one show ?thesis by blast
qed

lemma mset_subset_distinct: "mset xs \<subseteq># mset ys \<Longrightarrow> distinct ys \<Longrightarrow> distinct xs"
proof -
  assume "mset xs \<subseteq># mset ys" "distinct ys"
  moreover from this(1) obtain zs where "mset ys = mset (xs @ zs)"
    by (metis ex_mset mset_append subset_mset.add_diff_inverse)
  ultimately show "distinct xs" using mset_eq_imp_distinct_iff [of ys "xs @ zs"] by simp
qed

lemma welcomed:
  assumes "(conc_step m miss srv (server_bus ws jobs) ft esyn etyp idt healthy)\<^sup>*\<^sup>* (w0, []) (w, ts)" "fresh_system w0"
    and "event_bus srv = Some (server_bus ws jobs)"
    and "inj_on idt {b. length b = 16}" "\<And>b. length b = 16 \<Longrightarrow> ascii (idt b)"
  shows "dropped (s_broker w) = [] \<and> distinct (acked (s_broker w))
    \<and> (\<forall>body \<in> set (acked (s_broker w)). \<exists>u \<in> set (users (database w)).
         decode_job esyn etyp body = Inr \<lparr>wj_UserID = idt (Bytes (u_ID u)), wj_Email = u_Email u\<rparr>)
    \<and> (healthy \<and> jobs \<and> list_all (\<lambda>t. \<not> announcing t) ts \<and> ready (s_broker w) = [] \<and> unacked (s_broker w) = []
         \<longrightarrow> set (acked (s_broker w)) = job_text ft idt ` set (users (database w)))"
proof -
  let ?b = "s_broker w" and ?us = "users (database w)" and ?job = "job_text ft idt"
  have inv: "db_ok (database w)" "list_all row_ok ?us" "job_inv (decode_job esyn etyp) WelcomeEmailHandler ?b"
      "covered (healthy \<and> jobs) (pending ft idt ts) (published ?b) (map ?job ?us)"
    using reachable_conc [OF assms(1-3)] by (simp_all add: conc_inv_def beyond_web_def)
  have decode: "decode_job esyn etyp (?job u) = Inr (user_job idt u)" if "u \<in> set ?us" for u
  proof -
    have "length (Bytes (u_ID u)) = 16" "utf8_chars (u_Email u) \<noteq> None"
      using that inv by (auto simp: list_all_iff row_ok_def)
    moreover have "utf8_chars (idt (Bytes (u_ID u))) \<noteq> None"
      using utf8_chars_ascii [OF assms(5) [OF calculation(1)]] by simp
    ultimately show ?thesis
      using decode_job_text by (simp add: job_text_def job_gov_def user_job_def)
  qed
  have split: "mset (published ?b)
      = mset (ready ?b) + mset (map snd (unacked ?b)) + mset (acked ?b) + mset (dropped ?b)"
    and dropped: "\<forall>body \<in> set (dropped ?b). is_err (decode_job esyn etyp body)"
    using inv by (simp_all add: job_inv_def conserved_def)
  have pub: "set (published ?b) \<subseteq> ?job ` set ?us"
    using set_mset_mono [OF covered_published [OF inv(4)]] by simp
  have sub: "set (acked ?b) \<subseteq> set (published ?b)" "set (dropped ?b) \<subseteq> set (published ?b)"
    using arg_cong [OF split, of set_mset] by auto
  have "inj_on ?job (set ?us)"
  proof (rule inj_onI)
    fix u v assume uv: "u \<in> set ?us" "v \<in> set ?us" "?job u = ?job v"
    then have "idt (Bytes (u_ID u)) = idt (Bytes (u_ID v))"
      using decode [OF uv(1)] decode [OF uv(2)] by (simp add: user_job_def)
    moreover have "length (Bytes (u_ID u)) = 16" "length (Bytes (u_ID v)) = 16"
      using uv inv by (auto simp: list_all_iff row_ok_def)
    ultimately have "Bytes (u_ID u) = Bytes (u_ID v)" using assms(4) by (auto dest: inj_onD)
    moreover have "distinct (map (Bytes \<circ> u_ID) ?us)" using inv by (simp add: db_ok_def)
    ultimately show "u = v" using uv(1,2) by (simp add: distinct_map inj_on_def)
  qed
  moreover have "distinct ?us" using inv by (auto simp: db_ok_def distinct_map)
  ultimately have "distinct (map ?job ?us)" by (simp add: distinct_map)
  then have "distinct (published ?b)"
    by (rule mset_subset_distinct [OF covered_published [OF inv(4)]])
  then have "distinct (acked ?b)"
    using split mset_eq_imp_distinct_iff [of "published ?b" "ready ?b @ map snd (unacked ?b) @ acked ?b @ dropped ?b"]
    by (simp add: union_assoc)
  moreover have "dropped ?b = []"
  proof (rule ccontr)
    assume "dropped ?b \<noteq> []"
    then obtain body where "body \<in> set (dropped ?b)" by (cases "dropped ?b") auto
    with dropped sub(2) pub decode show False by fastforce
  qed
  moreover have "\<forall>body \<in> set (acked ?b). \<exists>u \<in> set ?us.
      decode_job esyn etyp body = Inr \<lparr>wj_UserID = idt (Bytes (u_ID u)), wj_Email = u_Email u\<rparr>"
    using sub(1) pub decode by (fastforce simp: user_job_def)
  moreover have "set (acked ?b) = ?job ` set ?us"
    if "healthy \<and> jobs \<and> list_all (\<lambda>t. \<not> announcing t) ts \<and> ready ?b = [] \<and> unacked ?b = []"
  proof -
    have "mset (published ?b) = mset (map ?job ?us)"
      using that by (intro covered_quiet [OF inv(4)]) auto
    from arg_cong [OF this, of set_mset] have "set (published ?b) = ?job ` set ?us" by simp
    then show ?thesis using that arg_cong [OF split, of set_mset] \<open>dropped ?b = []\<close> by simp
  qed
  ultimately show ?thesis by blast
qed

text \<open>
  C2. Welcomed once: if ids have distinct ASCII texts, the workers drop no job, no job is acknowledged
  twice, and each acknowledged job carries the id and the email of an account, however registrations,
  workers and connection losses interleave.  Once no registration is before its event, nothing is
  waiting and nothing is at a worker, and the broker refused nothing, exactly the accounts have been
  welcomed.
\<close>
theorem welcomed_once:
  assumes "(conc_step m miss srv (server_bus ws jobs) ft esyn etyp idt healthy)\<^sup>*\<^sup>* (w0, []) (w, ts)" "fresh_system w0"
    and "event_bus srv = Some (server_bus ws jobs)"
    and "inj_on idt {b. length b = 16}" "\<And>b. length b = 16 \<Longrightarrow> ascii (idt b)"
  shows "dropped (s_broker w) = [] \<and> distinct (acked (s_broker w))
    \<and> (\<forall>body \<in> set (acked (s_broker w)). \<exists>u \<in> set (users (database w)).
         decode_job esyn etyp body = Inr \<lparr>wj_UserID = idt (Bytes (u_ID u)), wj_Email = u_Email u\<rparr>)
    \<and> (healthy \<and> jobs \<and> list_all (\<lambda>t. \<not> announcing t) ts \<and> ready (s_broker w) = [] \<and> unacked (s_broker w) = []
         \<longrightarrow> set (acked (s_broker w)) = job_text ft idt ` set (users (database w)))"
  using assms by (rule welcomed)

theorem welcomed_once_witness:
  "\<exists>w ts. sample_conc\<^sup>*\<^sup>* (sample_start, []) (w, ts) \<and> length (users (database w)) = 1
     \<and> dropped (s_broker w) = [] \<and> distinct (acked (s_broker w))"
proof -
  obtain w res where run: "sample_conc\<^sup>*\<^sup>* (sample_start, [])
      (w, [sample_task\<lparr>tk_stage := Replied res\<rparr>, sample_task\<lparr>tk_stage := Insertion\<rparr>])"
    and one: "length (users (database w)) = 1"
    by (rule sample_overlap) blast
  have "inj b64_encode" by (rule inj_on_inverseI [where g = "the \<circ> b64_decode"]) (simp add: b64_decode_encode)
  then have "inj_on (e_uuid_text sample_env) {b. length b = 16}"
    by (simp add: sample_env_def inj_on_subset [of _ UNIV])
  moreover have "ascii (e_uuid_text sample_env b)" for b
    by (simp add: sample_env_def ascii_b64_encode)
  ultimately have "dropped (s_broker w) = [] \<and> distinct (acked (s_broker w))"
    using welcomed_once [OF run sample_fresh] by blast
  with run one show ?thesis by blast
qed

end
