(* ===== verification/Timeout.thy ===== *)
theory Timeout
  imports Handlers Logger
begin

text \<open>
  \<open>server/internal/middlewares/timeout_middleware.go\<close>, which the server does not mount.  The wrapped
  handler runs in a goroutine of its own on the same response writer, so this is the one middleware
  whose behaviour is a set of interleavings: the state holds what the handler still does to the
  writer, the context, and where the middleware's own goroutine is.
\<close>

section \<open>Operations on the writer\<close>

text \<open>\<open>OpError\<close> is the last write of \<open>HttpWriter.Error\<close>, which reads the request id when it runs.\<close>

datatype writer_op = OpHeader bytes bytes | OpStatus int | OpWrite chunk | OpError bytes | OpPanic

fun do_op :: "writer_op \<Rightarrow> response \<Rightarrow> response" where
  "do_op (OpHeader k v) w = set_header k v w"
| "do_op (OpStatus code) w = WriteHeader code w"
| "do_op (OpWrite c) w = Write c w"
| "do_op (OpError err) w = Write (Text (err @ '';RequestId='' @ hget (rsp_header w) ''X-Request-ID'')) w"
| "do_op OpPanic w = w"

definition timeout_ops :: "writer_op list" where
  "timeout_ops = [OpHeader ''Content-Type'' ''text/plain; charset=utf-8'', OpStatus 408,
     OpError ''context deadline exceeded'']"

text \<open>Run without a break, they are the call of \<open>HttpWriter.Error\<close>.\<close>

lemma timeout_ops_Error:
  "fold do_op timeout_ops w = hw_W (hw_Error ''context deadline exceeded'' (Some 408) (NewHttpWriter w r))"
  by (simp add: timeout_ops_def hw_Error_def NewHttpWriter_def Let_def)

section \<open>The middleware\<close>

text \<open>A text that is no duration counts as ten seconds, with a warning where a logger can be had.\<close>

definition timeout_setup :: "int fallible \<Rightarrow> Logger option \<Rightarrow> int \<times> (level \<times> bytes) list" where
  "timeout_setup parsed logger =
     (case parsed of
        Inr duration \<Rightarrow> (duration, [])
      | Inl err \<Rightarrow>
          (10 * 1000000000,
           if logger \<noteq> None then [(Warn, ''Invalid timeout string, falling back to 10s'')] else []))"

datatype context_state = Live | DeadlineExceeded | Canceled

datatype select_pc = Selecting | Answering "writer_op list" | Left

record timed =
  todo :: "writer_op list"
  finished :: bool
  crashed :: bool
  ctx :: context_state
  pc :: select_pc
  wr :: response
  late :: "writer_op list"

definition timed_start :: "writer_op list \<Rightarrow> response \<Rightarrow> timed" where
  "timed_start ops w = \<lparr>todo = ops, finished = False, crashed = False, ctx = Live, pc = Selecting, wr = w,
     late = []\<rparr>"

text \<open>
  What the handler does once the middleware has returned is kept in \<open>late\<close> and not followed into the
  response: the server discards it when the outermost handler has returned, and what is written in
  the short time before that is left out.  A panic in the goroutine is not recovered by anyone and ends the process.
\<close>

inductive timed_step :: "timed \<Rightarrow> timed \<Rightarrow> bool" where
  handler: "\<not> crashed s \<Longrightarrow> todo s = op # ops \<Longrightarrow> op \<noteq> OpPanic \<Longrightarrow>
    timed_step s (if pc s = Left then s\<lparr>todo := ops, late := late s @ [op]\<rparr>
                  else s\<lparr>todo := ops, wr := do_op op (wr s)\<rparr>)"
| handler_panics: "\<not> crashed s \<Longrightarrow> todo s = OpPanic # ops \<Longrightarrow> timed_step s (s\<lparr>crashed := True\<rparr>)"
| handler_returns: "\<not> crashed s \<Longrightarrow> todo s = [] \<Longrightarrow> \<not> finished s \<Longrightarrow> timed_step s (s\<lparr>finished := True\<rparr>)"
| deadline: "\<not> crashed s \<Longrightarrow> ctx s = Live \<Longrightarrow> timed_step s (s\<lparr>ctx := DeadlineExceeded\<rparr>)"
| client_gone: "\<not> crashed s \<Longrightarrow> ctx s = Live \<Longrightarrow> timed_step s (s\<lparr>ctx := Canceled\<rparr>)"
| select_deadline: "\<not> crashed s \<Longrightarrow> pc s = Selecting \<Longrightarrow> ctx s = DeadlineExceeded \<Longrightarrow>
    timed_step s (s\<lparr>pc := Answering timeout_ops\<rparr>)"
| select_canceled: "\<not> crashed s \<Longrightarrow> pc s = Selecting \<Longrightarrow> ctx s = Canceled \<Longrightarrow> timed_step s (s\<lparr>pc := Left\<rparr>)"
| select_done: "\<not> crashed s \<Longrightarrow> pc s = Selecting \<Longrightarrow> finished s \<Longrightarrow> timed_step s (s\<lparr>pc := Left\<rparr>)"
| answer: "\<not> crashed s \<Longrightarrow> pc s = Answering (op # ops) \<Longrightarrow>
    timed_step s (s\<lparr>pc := Answering ops, wr := do_op op (wr s)\<rparr>)"
| answered: "\<not> crashed s \<Longrightarrow> pc s = Answering [] \<Longrightarrow> timed_step s (s\<lparr>pc := Left\<rparr>)"

section \<open>What a client can get\<close>

lemma shuffles_snoc_left: "zs \<in> shuffles xs ys \<Longrightarrow> zs @ [x] \<in> shuffles (xs @ [x]) ys"
proof (induction xs ys arbitrary: zs rule: shuffles.induct)
  case (1 ys)
  then show ?case
  proof (induction ys arbitrary: zs)
    case (Cons y ys)
    then show ?case by (auto intro: Cons_in_shuffles_rightI)
  qed simp
next
  case (3 a xs b ys)
  then show ?case by auto
qed auto

lemma shuffles_snoc_right: "zs \<in> shuffles xs ys \<Longrightarrow> zs @ [y] \<in> shuffles xs (ys @ [y])"
  using shuffles_snoc_left [of zs ys xs y] shuffles_commutes by blast

text \<open>
  The handler's operations so far, those of the middleware, and an interleaving of the two that made
  the response; by where the middleware is.
\<close>

definition timed_inv :: "writer_op list \<Rightarrow> response \<Rightarrow> timed \<Rightarrow> bool" where
  "timed_inv ops w0 s \<longleftrightarrow>
     (\<exists>hs es zs. ops = hs @ late s @ todo s \<and> zs \<in> shuffles hs es \<and> wr s = fold do_op zs w0
        \<and> OpPanic \<notin> set hs \<and> (finished s \<longrightarrow> todo s = [])
        \<and> (case pc s of
             Selecting \<Rightarrow> es = [] \<and> late s = []
           | Answering rest \<Rightarrow> es @ rest = timeout_ops \<and> late s = [] \<and> ctx s = DeadlineExceeded
           | Left \<Rightarrow> (es = timeout_ops \<and> ctx s = DeadlineExceeded) \<or> (es = [] \<and> ctx s = Canceled)
               \<or> (es = [] \<and> hs = ops)))"

lemma timed_invI:
  assumes "ops = hs @ late s @ todo s" "zs \<in> shuffles hs es" "wr s = fold do_op zs w0"
    "OpPanic \<notin> set hs" "finished s \<longrightarrow> todo s = []"
    "case pc s of
       Selecting \<Rightarrow> es = [] \<and> late s = []
     | Answering rest \<Rightarrow> es @ rest = timeout_ops \<and> late s = [] \<and> ctx s = DeadlineExceeded
     | Left \<Rightarrow> (es = timeout_ops \<and> ctx s = DeadlineExceeded) \<or> (es = [] \<and> ctx s = Canceled) \<or> (es = [] \<and> hs = ops)"
  shows "timed_inv ops w0 s"
  unfolding timed_inv_def using assms by blast

lemma timed_step_inv:
  assumes "timed_step s s'" "timed_inv ops w0 s"
  shows "timed_inv ops w0 s'"
proof -
  obtain hs es zs where inv: "ops = hs @ late s @ todo s" "zs \<in> shuffles hs es" "wr s = fold do_op zs w0"
    "OpPanic \<notin> set hs" "finished s \<longrightarrow> todo s = []"
    "case pc s of
       Selecting \<Rightarrow> es = [] \<and> late s = []
     | Answering rest \<Rightarrow> es @ rest = timeout_ops \<and> late s = [] \<and> ctx s = DeadlineExceeded
     | Left \<Rightarrow> (es = timeout_ops \<and> ctx s = DeadlineExceeded) \<or> (es = [] \<and> ctx s = Canceled) \<or> (es = [] \<and> hs = ops)"
    using assms(2) unfolding timed_inv_def by blast
  from assms(1) show ?thesis
  proof cases
    case (handler op rest)
    show ?thesis
    proof (cases "pc s = Left")
      case True
      with handler inv show ?thesis by (intro timed_invI [of _ hs _ zs es]) auto
    next
      case False
      with inv have "late s = []" by (cases "pc s") simp_all
      with False handler inv show ?thesis
        by (intro timed_invI [of _ "hs @ [op]" _ "zs @ [op]" es]) (auto simp: shuffles_snoc_left split: select_pc.splits)
    qed
  next
    case (answer op rest)
    with inv show ?thesis
      by (intro timed_invI [of _ hs _ "zs @ [op]" "es @ [op]"]) (auto simp: shuffles_snoc_right)
  next
    case select_deadline
    with inv show ?thesis by (intro timed_invI [of _ hs _ zs es]) simp_all
  next
    case select_done
    with inv show ?thesis by (intro timed_invI [of _ hs _ zs es]) simp_all
  next
    case answered
    with inv show ?thesis by (intro timed_invI [of _ hs _ zs es]) simp_all
  qed (use inv in \<open>intro timed_invI [of _ hs _ zs es]; auto split: select_pc.splits\<close>)+
qed

lemma timed_start_inv: "timed_inv ops w0 (timed_start ops w0)"
  by (rule timed_invI [of _ "[]" _ "[]" "[]"]) (simp_all add: timed_start_def)

text \<open>
  C39. What the timeout middleware can answer: when it has returned, the response was made by an
  interleaving of what the handler had done by then with, where the deadline passed, the three steps
  of a 408; without a deadline or a lost client it is the handler's answer alone.  What the handler
  does later (\<open>late\<close>) is not followed into the response.
\<close>
theorem timeout_outcomes:
  assumes "timed_step\<^sup>*\<^sup>* (timed_start ops w0) s" "pc s = Left"
  shows "\<exists>hs es zs. ops = hs @ late s @ todo s \<and> zs \<in> shuffles hs es \<and> wr s = fold do_op zs w0
    \<and> (ctx s = Live \<longrightarrow> es = [] \<and> hs = ops)
    \<and> (es = [] \<or> es = timeout_ops \<and> ctx s = DeadlineExceeded)"
proof -
  have "timed_inv ops w0 s"
    using assms(1) by (induction rule: rtranclp_induct) (auto intro: timed_start_inv timed_step_inv)
  with assms(2) show ?thesis unfolding timed_inv_def by fastforce
qed

text \<open>The handler's body under the handler's status, with the text of the timeout behind it.\<close>

lemma mixed_run:
  obtains s where "timed_step\<^sup>*\<^sup>* (timed_start [OpStatus 200, OpWrite (Text ''ok'')] new_response) s" "pc s = Left"
    "status (wr s) = Some 200" "rsp_body (wr s) = [Text ''ok'', Text ''context deadline exceeded;RequestId='']"
proof -
  let ?s0 = "timed_start [OpStatus 200, OpWrite (Text ''ok'')] new_response"
  let ?s1 = "?s0\<lparr>ctx := DeadlineExceeded\<rparr>"
  let ?s2 = "?s1\<lparr>pc := Answering timeout_ops\<rparr>"
  let ?s3 = "?s2\<lparr>todo := [OpWrite (Text ''ok'')], wr := do_op (OpStatus 200) (wr ?s2)\<rparr>"
  let ?s4 = "?s3\<lparr>todo := [], wr := do_op (OpWrite (Text ''ok'')) (wr ?s3)\<rparr>"
  let ?s5 = "?s4\<lparr>pc := Answering (drop 1 timeout_ops), wr := do_op (timeout_ops ! 0) (wr ?s4)\<rparr>"
  let ?s6 = "?s5\<lparr>pc := Answering (drop 2 timeout_ops), wr := do_op (timeout_ops ! 1) (wr ?s5)\<rparr>"
  let ?s7 = "?s6\<lparr>pc := Answering [], wr := do_op (timeout_ops ! 2) (wr ?s6)\<rparr>"
  let ?s8 = "?s7\<lparr>pc := Left\<rparr>"
  have s1: "timed_step ?s0 ?s1" by (rule timed_step.deadline) (simp_all add: timed_start_def)
  have s2: "timed_step ?s1 ?s2" by (rule timed_step.select_deadline) (simp_all add: timed_start_def)
  have s3: "timed_step ?s2 ?s3"
    using timed_step.handler [of ?s2 "OpStatus 200" "[OpWrite (Text ''ok'')]"] by (simp add: timed_start_def)
  have s4: "timed_step ?s3 ?s4"
    using timed_step.handler [of ?s3 "OpWrite (Text ''ok'')" "[]"] by (simp add: timed_start_def)
  have s5: "timed_step ?s4 ?s5"
    by (rule timed_step.answer) (simp_all add: timed_start_def timeout_ops_def)
  have s6: "timed_step ?s5 ?s6"
    by (rule timed_step.answer) (simp_all add: timed_start_def timeout_ops_def)
  have s7: "timed_step ?s6 ?s7"
    by (rule timed_step.answer) (simp_all add: timed_start_def timeout_ops_def)
  have s8: "timed_step ?s7 ?s8" by (rule timed_step.answered) (simp_all add: timed_start_def)
  note into = rtranclp.rtrancl_into_rtrancl [where r = timed_step]
  have run: "timed_step\<^sup>*\<^sup>* ?s0 ?s8"
    by (rule into [OF into [OF into [OF into [OF into [OF into [OF into [OF r_into_rtranclp [where r = timed_step, OF s1] s2] s3] s4] s5] s6] s7] s8])
  have keys: "canon_key ''Content-Type'' \<noteq> canon_key ''X-Request-ID''" by code_simp
  have "status (wr ?s8) = Some 200 \<and> rsp_body (wr ?s8) = [Text ''ok'', Text ''context deadline exceeded;RequestId='']"
    by (simp add: timeout_ops_def timed_start_def new_response_def status_def Write_def WriteHeader_def
        send_status_def set_header_def hget_hset keys)
  with that [OF run] show ?thesis by simp
qed

theorem timeout_outcomes_witness:
  "\<exists>(s :: timed) hs es zs. status (wr s) = Some 200
     \<and> rsp_body (wr s) = [Text ''ok'', Text ''context deadline exceeded;RequestId='']
     \<and> [OpStatus 200, OpWrite (Text ''ok'')] = hs @ late s @ todo s \<and> zs \<in> shuffles hs es
     \<and> wr s = fold do_op zs new_response"
proof -
  obtain s where "timed_step\<^sup>*\<^sup>* (timed_start [OpStatus 200, OpWrite (Text ''ok'')] new_response) s" "pc s = Left"
    "status (wr s) = Some 200" "rsp_body (wr s) = [Text ''ok'', Text ''context deadline exceeded;RequestId='']"
    by (rule mixed_run)
  with timeout_outcomes [of "[OpStatus 200, OpWrite (Text ''ok'')]" new_response s] show ?thesis by blast
qed

end
