(* ===== verification/Web_Dev.thy ===== *)
theory Web_Dev
  imports Web
begin

text \<open>
  The frontend handler of the development build, \<open>WebFS\<close> of \<open>fs_dev.go\<close>, which reads \<open>web/dist\<close> from the
  disk on every request, with what it uses of \<open>http.FileServer\<close> over \<open>http.Dir\<close> and of \<open>http.ServeFile\<close>,
  and its agreement with the production handler.
\<close>

section \<open>The disk\<close>

text \<open>
  The directory as a map from the paths below it.  \<open>os.Stat\<close> refuses a NUL byte; \<open>http.Dir\<close> refuses
  what is no valid path in the sense of \<open>io/fs\<close> as well, and that is an internal error.
\<close>

definition below :: "bytes \<Rightarrow> bytes" where
  "below p = (let q = tl (clean_rooted p) in if q = [] then ''.'' else q)"

definition os_stat :: "(bytes \<rightharpoonup> fs_entry) \<Rightarrow> bytes \<Rightarrow> fs_entry option" where
  "os_stat disk p = (if CHR 0x00 \<in> set (below p) then None else disk (below p))"

definition dir_open :: "(bytes \<rightharpoonup> fs_entry) \<Rightarrow> bytes \<Rightarrow> int + fs_entry" where
  "dir_open disk name =
     (if \<not> valid_path (below name) \<or> CHR 0x00 \<in> set (below name) then Inl 500
      else case disk (below name) of None \<Rightarrow> Inl 404 | Some e \<Rightarrow> Inr e)"

definition http_failure :: "int \<Rightarrow> response \<Rightarrow> response" where
  "http_failure code w =
     http_Error (if code = 404 then ''404 page not found'' else ''500 Internal Server Error'') code w"

definition local_redirect :: "bytes \<Rightarrow> 'b request \<Rightarrow> response \<Rightarrow> response" where
  "local_redirect to r w =
     WriteHeader 301 (set_header ''Location''
       (to @ (if req_query r = [] then [] else CHR ''?'' # req_query r)) w)"

text \<open>
  \<open>serveFile\<close>: \<open>redirect\<close> asks for the canonical form of the address; \<open>listing\<close> is the answer for a
  directory.
\<close>

definition serve_file ::
  "(bytes \<Rightarrow> bytes) \<Rightarrow> (response \<Rightarrow> response) \<Rightarrow> (bytes \<rightharpoonup> fs_entry) \<Rightarrow> bytes \<Rightarrow> bool \<Rightarrow> 'b request \<Rightarrow> response \<Rightarrow> response" where
  "serve_file mime listing disk name redirect r w =
     (if suffix ''/index.html'' (req_path r) then local_redirect ''./'' r w
      else case dir_open disk name of
          Inl code \<Rightarrow> http_failure code w
        | Inr FsDir \<Rightarrow> listing w
        | Inr (FsFile content) \<Rightarrow>
            if redirect \<and> req_path r \<noteq> [] \<and> last (req_path r) = CHR ''/''
            then local_redirect (''../'' @ last (split_byte (CHR ''/'') (clean_rooted (req_path r)))) r w
            else (let w = WriteHeader 200 (set_header ''Content-Type'' (mime name) w)
                  in if req_method r = ''HEAD'' then w else Write (Text content) w))"

definition ServeFile ::
  "(bytes \<Rightarrow> bytes) \<Rightarrow> (response \<Rightarrow> response) \<Rightarrow> (bytes \<rightharpoonup> fs_entry) \<Rightarrow> bytes \<Rightarrow> 'b request \<Rightarrow> response \<Rightarrow> response" where
  "ServeFile mime listing disk name r w =
     (if ''..'' \<in> set (split_byte (CHR ''/'') (req_path r)) then http_Error ''invalid URL path'' 400 w
      else serve_file mime listing disk name False r w)"

section \<open>The handler\<close>

definition WebFS_dev ::
  "(bytes \<Rightarrow> bytes) \<Rightarrow> (response \<Rightarrow> response) \<Rightarrow> (bytes \<rightharpoonup> fs_entry) \<Rightarrow> ('b, 'w) handler" where
  "WebFS_dev mime listing disk r s =
     (case os_stat disk (req_path r) of
        Some (FsFile _) \<Rightarrow> Done (fst s, serve_file mime listing disk (req_path r) True r (snd s))
      | _ \<Rightarrow> Done (fst s, ServeFile mime listing disk ''/index.html'' r (snd s)))"

section \<open>Agreement with production\<close>

lemma below_valid: "valid_path p \<Longrightarrow> p \<noteq> ''.'' \<Longrightarrow> below (CHR ''/'' # p) = p"
  by (cases p) (simp_all add: below_def clean_valid)

lemma below_root [simp]: "below ''/'' = ''.''"
  by code_simp

lemma split_byte_snoc: "split_byte c (q @ [c]) = split_byte c q @ [[]]"
  by (induction q) (auto split: list.splits)

lemma last_valid:
  assumes "valid_path p" "p \<noteq> ''.''"
  shows "last (CHR ''/'' # p) \<noteq> CHR ''/''"
proof
  assume "last (CHR ''/'' # p) = CHR ''/''"
  moreover have "p \<noteq> []" using assms(1) by (cases p) simp_all
  ultimately obtain q where p: "p = q @ ''/''" by (metis append_butlast_last_id last_ConsR)
  have "[] \<in> set (split_byte (CHR ''/'') p)" unfolding p by (simp add: split_byte_snoc)
  with assms show False unfolding valid_path_def by blast
qed

lemma no_dotdot:
  assumes "valid_path p" "p \<noteq> ''.''"
  shows "''..'' \<notin> set (split_byte (CHR ''/'') (CHR ''/'' # p))"
  using assms by (auto simp: valid_path_def)

text \<open>
  In what both models keep of an answer (status, body, \<open>Content-Type\<close> and \<open>Location\<close>; for a request
  without range and conditional headers), the development build serves what the production build
  serves: for the root and for every clean path that does not end in \<open>/index.html\<close>, the two handlers
  give the same answer over the same directory, whether the path names a file, a directory or
  nothing.  The headers that the library adds, \<open>Last-Modified\<close>, \<open>Accept-Ranges\<close> and \<open>Content-Length\<close>,
  are in neither model, and there the builds do differ: a file on the disk has a modification time,
  an embedded one has none.
\<close>
theorem dev_agrees_with_prod:
  assumes "req_path r = CHR ''/'' # p" "p = [] \<or> valid_path p \<and> p \<noteq> ''.'' \<and> CHR 0x00 \<notin> set p"
    and "\<not> suffix ''/index.html'' (req_path r)" "req_method r \<noteq> ''HEAD''"
    and "dir ''.'' = Some FsDir" "dir ''index.html'' = Some (FsFile page)"
    and "mime ''/index.html'' = ''text/html; charset=utf-8''"
  shows "WebFS_dev mime listing dir r s = WebFS mime dir r s"
proof -
  have index: "valid_path ''index.html''" by code_simp
  then have "below ''/index.html'' = ''index.html''" using below_valid [OF index] by simp
  then have start: "dir_open dir ''/index.html'' = Inr (FsFile page)" "fs_open dir ''index.html'' = Some (FsFile page)"
    using index assms(6) by (simp_all add: dir_open_def fs_open_def)
  show ?thesis
  proof (cases "p = []")
    case True
    have "http_fs_open dir [] = None" by (simp add: http_fs_open_def fs_open_def trim_prefix_def)
    with True assms start show ?thesis
      by (simp add: WebFS_dev_def os_stat_def WebFS_def trim_prefix_def ServeFile_def serve_file_def Let_def)
  next
    case False
    with assms(2) have p: "valid_path p" "p \<noteq> ''.''" "CHR 0x00 \<notin> set p" by auto
    have "hd p \<noteq> CHR ''/''"
    proof
      assume "hd p = CHR ''/''"
      with False have "split_byte (CHR ''/'') p = [] # split_byte (CHR ''/'') (tl p)"
        by (cases p) simp_all
      with p show False by (simp add: valid_path_def)
    qed
    then have open_p: "http_fs_open dir p = dir p"
      using p False by (cases p) (simp_all add: http_fs_open_def fs_open_def trim_prefix_def)
    have stat: "os_stat dir (CHR ''/'' # p) = dir p"
      using p by (simp add: os_stat_def below_valid)
    show ?thesis
    proof (cases "\<exists>content. dir p = Some (FsFile content)")
      case True
      then obtain content where c: "dir p = Some (FsFile content)" by blast
      then have "dir_open dir (CHR ''/'' # p) = Inr (FsFile content)"
        using p by (simp add: dir_open_def below_valid)
      moreover have "http_fs_open dir (clean_rooted (CHR ''/'' # p)) = Some (FsFile content)"
        using http_fs_open_clean [of dir p] open_p c by simp
      ultimately show ?thesis
        using assms(1,3,4) c stat open_p last_valid [OF p(1,2)]
        by (simp add: WebFS_dev_def WebFS_def trim_prefix_def serve_file_def file_server_def)
    next
      case no_file: False
      then have "dir p = None \<or> dir p = Some FsDir"
        by (cases "dir p"; cases "the (dir p)") auto
      then show ?thesis
        using assms(1,3,4,7) start stat open_p no_dotdot [OF p(1,2)]
        by (elim disjE) (simp_all add: WebFS_dev_def WebFS_def trim_prefix_def ServeFile_def serve_file_def Let_def)
    qed
  qed
qed

definition sample_get :: "bytes \<Rightarrow> unit request" where
  "sample_get p = \<lparr>req_method = ''GET'', req_path = p, req_query = [], req_header = Map.empty,
     req_cookies = [], req_body = None, req_remote = [], req_vars = Map.empty, ctx_uid = None, ctx_body = None\<rparr>"

definition sample_dist :: "bytes \<rightharpoonup> fs_entry" where
  "sample_dist = [''.'' \<mapsto> FsDir, ''index.html'' \<mapsto> FsFile ''<html>'', ''app.js'' \<mapsto> FsFile ''js'']"

theorem dev_agrees_with_prod_witness:
  "WebFS_dev (\<lambda>_. ''text/html; charset=utf-8'') id sample_dist (sample_get ''/about/team'') ((), new_response)
   = WebFS (\<lambda>_. ''text/html; charset=utf-8'') sample_dist (sample_get ''/about/team'') ((), new_response)"
proof -
  have "valid_path ''about/team'' \<and> ''about/team'' \<noteq> ''.'' \<and> CHR 0x00 \<notin> set ''about/team''" by code_simp
  moreover have "\<not> suffix ''/index.html'' ''/about/team''" by code_simp
  ultimately show ?thesis
    by (intro dev_agrees_with_prod [where p = "''about/team''" and page = "''<html>''"])
      (simp_all add: sample_get_def sample_dist_def)
qed

text \<open>Off these paths the two differ: a page that does not exist is redirected, not replaced.\<close>

lemma dev_differs:
  "map_option status (case WebFS_dev (\<lambda>_. ''text/html; charset=utf-8'') id sample_dist
      (sample_get ''/about/index.html'') ((), new_response) of Done s \<Rightarrow> Some (snd s) | Panicked s \<Rightarrow> None)
     = Some (Some 301)"
  "map_option status (case WebFS (\<lambda>_. ''text/html; charset=utf-8'') sample_dist
      (sample_get ''/about/index.html'') ((), new_response) of Done s \<Rightarrow> Some (snd s) | Panicked s \<Rightarrow> None)
     = Some (Some 200)"
  by code_simp+

end
