(* ===== verification/Cookies.thy ===== *)
theory Cookies
  imports Http
begin

text \<open>
  \<open>SetCookie\<close> of \<open>server/internal/utils/http.go\<close> with the encoding of \<open>net/http\<close> behind it: names that
  are no token yield no cookie, bytes that are not allowed in a value or a path are dropped, a domain
  that is neither a host name nor an IPv4 address is left out.
\<close>

section \<open>Parameters\<close>

record CookieParams =
  ck_Name :: bytes
  ck_Value :: bytes
  ck_MaxAge :: int
  ck_Path :: bytes
  ck_Domain :: bytes
  ck_Secure :: bool
  ck_HTTPOnly :: bool
  ck_SameSite :: int

section \<open>Sanitizing\<close>

definition value_byte :: "char \<Rightarrow> bool" where
  "value_byte c \<longleftrightarrow> 32 \<le> byte c \<and> byte c < 127 \<and> c \<noteq> CHR 0x22 \<and> c \<noteq> CHR '';'' \<and> c \<noteq> CHR 0x5C"

definition path_byte :: "char \<Rightarrow> bool" where
  "path_byte c \<longleftrightarrow> 32 \<le> byte c \<and> byte c < 127 \<and> c \<noteq> CHR '';''"

definition sanitize_value :: "bytes \<Rightarrow> bytes" where
  "sanitize_value v =
     (let v = filter value_byte v
      in if CHR '' '' \<in> set v \<or> CHR '','' \<in> set v then CHR 0x22 # v @ [CHR 0x22] else v)"

definition sanitize_path :: "bytes \<Rightarrow> bytes" where
  "sanitize_path v = filter path_byte v"

text \<open>
  \<open>isCookieDomainName\<close>, byte by byte: the last byte, whether there was a letter, and the length of
  the label so far.
\<close>

fun domain_scan :: "char \<Rightarrow> bool \<Rightarrow> nat \<Rightarrow> bytes \<Rightarrow> bool" where
  "domain_scan last_c ok n [] \<longleftrightarrow> last_c \<noteq> CHR ''-'' \<and> n \<le> 63 \<and> ok"
| "domain_scan last_c ok n (c # cs) \<longleftrightarrow>
     (if 97 \<le> byte c \<and> byte c \<le> 122 \<or> 65 \<le> byte c \<and> byte c \<le> 90 then domain_scan c True (n + 1) cs
      else if is_digit c then domain_scan c ok (n + 1) cs
      else if c = CHR ''-'' then last_c \<noteq> CHR ''.'' \<and> domain_scan c ok (n + 1) cs
      else if c = CHR ''.'' then
        last_c \<noteq> CHR ''.'' \<and> last_c \<noteq> CHR ''-'' \<and> n \<le> 63 \<and> n \<noteq> 0 \<and> domain_scan c ok 0 cs
      else False)"

definition domain_name :: "bytes \<Rightarrow> bool" where
  "domain_name s \<longleftrightarrow> s \<noteq> [] \<and> length s \<le> 255
     \<and> domain_scan (CHR ''.'') False 0 (if hd s = CHR ''.'' then tl s else s)"

definition ipv4_part :: "bytes \<Rightarrow> bool" where
  "ipv4_part p \<longleftrightarrow> p \<noteq> [] \<and> list_all is_digit p \<and> length p \<le> 3 \<and> read_digits p \<le> 255
     \<and> (hd p = CHR ''0'' \<longrightarrow> length p = 1)"

definition ipv4 :: "bytes \<Rightarrow> bool" where
  "ipv4 s \<longleftrightarrow> length (split_byte (CHR ''.'') s) = 4 \<and> list_all ipv4_part (split_byte (CHR ''.'') s)"

definition valid_domain :: "bytes \<Rightarrow> bool" where
  "valid_domain v \<longleftrightarrow> domain_name v \<or> ipv4 v"

section \<open>The header\<close>

text \<open>The attributes of a cookie, in the order they are written; the expiry date is never set.\<close>

definition cookie_attributes :: "CookieParams \<Rightarrow> bytes list" where
  "cookie_attributes p =
     (if ck_Path p \<noteq> [] then [''Path='' @ sanitize_path (ck_Path p)] else [])
     @ (if ck_Domain p \<noteq> [] \<and> valid_domain (ck_Domain p)
        then [''Domain='' @ (if hd (ck_Domain p) = CHR ''.'' then tl (ck_Domain p) else ck_Domain p)] else [])
     @ (if ck_MaxAge p > 0 then [''Max-Age='' @ show_int (ck_MaxAge p)]
        else if ck_MaxAge p < 0 then [''Max-Age=0''] else [])
     @ (if ck_HTTPOnly p then [''HttpOnly''] else [])
     @ (if ck_Secure p then [''Secure''] else [])
     @ (if ck_SameSite p = 4 then [''SameSite=None'']
        else if ck_SameSite p = 2 then [''SameSite=Lax'']
        else if ck_SameSite p = 3 then [''SameSite=Strict''] else [])"

definition cookie_string :: "CookieParams \<Rightarrow> bytes" where
  "cookie_string p =
     (if ck_Name p = [] \<or> \<not> list_all token_byte (ck_Name p) then []
      else ck_Name p @ CHR ''='' # sanitize_value (ck_Value p)
        @ concat (map (\<lambda>a. CHR '';'' # CHR '' '' # a) (cookie_attributes p)))"

definition hw_SetCookie :: "CookieParams \<Rightarrow> 'b HttpWriter \<Rightarrow> 'b HttpWriter" where
  "hw_SetCookie p hw =
     (let v = cookie_string p
      in if v = [] then hw
         else hw\<lparr>hw_W := (hw_W hw)\<lparr>rsp_header := hadd (rsp_header (hw_W hw)) ''Set-Cookie'' v\<rparr>\<rparr>)"

section \<open>No attribute is forged\<close>

text \<open>Bytes that may stand in a header value and end no attribute.\<close>

definition attr_byte :: "char \<Rightarrow> bool" where
  "attr_byte c \<longleftrightarrow> 32 \<le> byte c \<and> byte c < 127 \<and> c \<noteq> CHR '';''"

lemma attr_byte_value: "value_byte c \<Longrightarrow> attr_byte c"
  by (simp add: value_byte_def attr_byte_def)

lemma attr_byte_digit: "is_digit c \<Longrightarrow> attr_byte c"
  by (auto simp: is_digit_def attr_byte_def)

lemma attr_byte_token:
  assumes "token_byte c"
  shows "attr_byte c"
proof -
  have "list_all attr_byte ''!#$%&*+-.^_|~''" by code_simp
  moreover have "c \<noteq> CHR '';''" if "byte c \<noteq> (59 :: nat)" using that by auto
  ultimately show ?thesis
    using assms by (auto simp only: token_byte_def attr_byte_digit list_all_iff) (auto simp: attr_byte_def)
qed

lemma domain_scan_bytes: "domain_scan l ok n cs \<Longrightarrow> list_all attr_byte cs"
proof (induction l ok n cs rule: domain_scan.induct)
  case (2 l ok n c cs)
  then show ?case
    by (auto simp: attr_byte_digit split: if_splits) (auto simp: attr_byte_def)
qed simp

lemma read_part_bytes: "ipv4_part p \<Longrightarrow> list_all attr_byte p"
  by (auto simp: ipv4_part_def list_all_iff attr_byte_digit)

lemma attr_byte_dot: "attr_byte (CHR ''.'')"
  by code_simp

lemma list_all_join: "list_all (list_all P) ps \<Longrightarrow> P c \<Longrightarrow> list_all P (join_byte c ps)"
  by (induction c ps rule: join_byte.induct) auto

lemma domain_bytes:
  assumes "valid_domain v"
  shows "list_all attr_byte v"
proof (cases "domain_name v")
  case True
  then have "list_all attr_byte (if hd v = CHR ''.'' then tl v else v)" "v \<noteq> []"
    using domain_scan_bytes by (auto simp: domain_name_def)
  then show ?thesis using attr_byte_dot by (cases v) (auto split: if_splits)
next
  case False
  with assms have "list_all (list_all attr_byte) (split_byte (CHR ''.'') v)"
    by (auto simp: valid_domain_def ipv4_def list_all_iff dest!: read_part_bytes)
  then have "list_all attr_byte (join_byte (CHR ''.'') (split_byte (CHR ''.'') v))"
    by (rule list_all_join) (rule attr_byte_dot)
  then show ?thesis by (simp add: join_split_byte)
qed

lemma show_positive_bytes: "0 < i \<Longrightarrow> list_all attr_byte (show_int i)"
  using show_nat_digits [of "nat i"] by (auto simp: show_int_def list_all_iff attr_byte_digit)

lemma tl_bytes: "list_all attr_byte v \<Longrightarrow> list_all attr_byte (tl v)"
  by (cases v) auto

lemma path_bytes: "list_all attr_byte (sanitize_path v)"
  by (auto simp: sanitize_path_def list_all_iff path_byte_def attr_byte_def)

lemma attributes_bytes: "list_all (list_all attr_byte) (cookie_attributes p)"
  unfolding cookie_attributes_def list_all_append
  by (intro conjI; simp add: attr_byte_def path_bytes domain_bytes tl_bytes show_positive_bytes)

lemma split_attributes:
  assumes "CHR '';'' \<notin> set x" "\<forall>a \<in> set as. CHR '';'' \<notin> set a"
  shows "split_byte (CHR '';'') (x @ concat (map (\<lambda>a. CHR '';'' # CHR '' '' # a) as)) = x # map (\<lambda>a. CHR '' '' # a) as"
  using assms
proof (induction as arbitrary: x)
  case (Cons a as)
  from Cons.IH [of "CHR '' '' # a"] Cons.prems show ?case by simp
qed simp

lemma no_semicolon: "list_all attr_byte a \<Longrightarrow> CHR '';'' \<notin> set a"
  by (auto simp: list_all_iff attr_byte_def)

lemma sanitize_value_bytes: "CHR '';'' \<notin> set (sanitize_value v)" "\<forall>c \<in> set (sanitize_value v). 32 \<le> byte c \<and> byte c < 127"
  by (auto simp: sanitize_value_def value_byte_def Let_def)

text \<open>
  A cookie parameter cannot smuggle anything into the header: whatever bytes the value, the path
  and the domain hold, the header is printable ASCII, so it ends no line, and splits at its semicolons
  into the name with the sanitized value and exactly the attributes the parameters ask for; it
  says \<open>HttpOnly\<close> or \<open>Secure\<close> exactly if that was asked.
\<close>
theorem cookie_attributes_faithful:
  assumes "ck_Name p \<noteq> []" "list_all token_byte (ck_Name p)"
  shows "(\<forall>c \<in> set (cookie_string p). 32 \<le> byte c \<and> byte c < 127)
    \<and> split_byte (CHR '';'') (cookie_string p)
      = (ck_Name p @ CHR ''='' # sanitize_value (ck_Value p)) # map (\<lambda>a. CHR '' '' # a) (cookie_attributes p)
    \<and> ('' HttpOnly'' \<in> set (tl (split_byte (CHR '';'') (cookie_string p))) \<longleftrightarrow> ck_HTTPOnly p)
    \<and> ('' Secure'' \<in> set (tl (split_byte (CHR '';'') (cookie_string p))) \<longleftrightarrow> ck_Secure p)"
proof -
  have name: "list_all attr_byte (ck_Name p)" using assms(2) attr_byte_token by (auto simp: list_all_iff)
  have s: "cookie_string p = (ck_Name p @ CHR ''='' # sanitize_value (ck_Value p))
      @ concat (map (\<lambda>a. CHR '';'' # CHR '' '' # a) (cookie_attributes p))"
    using assms unfolding cookie_string_def by simp
  have split: "split_byte (CHR '';'') (cookie_string p)
      = (ck_Name p @ CHR ''='' # sanitize_value (ck_Value p)) # map (\<lambda>a. CHR '' '' # a) (cookie_attributes p)"
    unfolding s using name attributes_bytes [of p]
    by (intro split_attributes) (auto simp: sanitize_value_bytes list_all_iff dest!: no_semicolon [unfolded list_all_iff])
  have "\<forall>c \<in> set (cookie_string p). 32 \<le> byte c \<and> byte c < 127"
    unfolding s using name attributes_bytes [of p] sanitize_value_bytes(2) [of "ck_Value p"]
    by (auto simp: list_all_iff attr_byte_def)
  moreover have "''HttpOnly'' \<in> set (cookie_attributes p) \<longleftrightarrow> ck_HTTPOnly p"
    "''Secure'' \<in> set (cookie_attributes p) \<longleftrightarrow> ck_Secure p"
    by (simp_all add: cookie_attributes_def)
  ultimately show ?thesis using split by (simp add: image_iff)
qed

definition sample_cookie :: CookieParams where
  "sample_cookie = \<lparr>ck_Name = ''sid'', ck_Value = ''x; HttpOnly'' @ [CHR 0x0D, CHR 0x0A], ck_MaxAge = 60,
     ck_Path = ''/'', ck_Domain = ''a;b'', ck_Secure = True, ck_HTTPOnly = False, ck_SameSite = 2\<rparr>"

theorem cookie_attributes_faithful_witness:
  "split_byte (CHR '';'') (cookie_string sample_cookie)
     = [''sid='' @ [CHR 0x22] @ ''x HttpOnly'' @ [CHR 0x22], '' Path=/'', '' Max-Age=60'', '' Secure'', '' SameSite=Lax'']
   \<and> '' HttpOnly'' \<notin> set (tl (split_byte (CHR '';'') (cookie_string sample_cookie)))"
proof -
  have name: "ck_Name sample_cookie \<noteq> []" "list_all token_byte (ck_Name sample_cookie)"
    "\<not> ck_HTTPOnly sample_cookie"
    by code_simp+
  have "(ck_Name sample_cookie @ CHR ''='' # sanitize_value (ck_Value sample_cookie))
      # map (\<lambda>a. CHR '' '' # a) (cookie_attributes sample_cookie)
    = [''sid='' @ [CHR 0x22] @ ''x HttpOnly'' @ [CHR 0x22], '' Path=/'', '' Max-Age=60'', '' Secure'', '' SameSite=Lax'']"
    by code_simp
  with cookie_attributes_faithful [OF name(1,2)] name(3) show ?thesis by simp
qed

end
