(* ===== verification/Api_Types.thy ===== *)
theory Api_Types
  imports Front_Door Auth_Security
begin

text \<open>
  The documented API, the TypeSpec files of \<open>docs/\<close>: the models as types of JSON values, the result
  types of the operations, and a type discipline for handlers that shows the server to answer within
  them.  A handler has a type where each of its answers is one JSON value of that type.
\<close>

section \<open>Types of JSON values\<close>

text \<open>
  A model lists its fields: name, whether it is required, type.  As in the schemas that TypeSpec
  emits, a value may have fields that are not listed.
\<close>

datatype jty =
  Unknown | BooleanT | TrueT | FalseT | Int32T | Float64T | StringT
| Model "(bytes \<times> bool \<times> jty) list"
| Either jty jty

fun conforms :: "jty \<Rightarrow> gov \<Rightarrow> bool" where
  "conforms Unknown v \<longleftrightarrow> True"
| "conforms BooleanT v \<longleftrightarrow> (case v of JBool b \<Rightarrow> True | _ \<Rightarrow> False)"
| "conforms TrueT v \<longleftrightarrow> v = JBool True"
| "conforms FalseT v \<longleftrightarrow> v = JBool False"
| "conforms Int32T v \<longleftrightarrow> (case v of JInt i \<Rightarrow> - (2 ^ 31) \<le> i \<and> i < 2 ^ 31 | _ \<Rightarrow> False)"
| "conforms Float64T v \<longleftrightarrow> (case v of JInt i \<Rightarrow> True | JFloat m e \<Rightarrow> True | _ \<Rightarrow> False)"
| "conforms StringT v \<longleftrightarrow> (case v of JStr s \<Rightarrow> True | _ \<Rightarrow> False)"
| "conforms (Model fs) v \<longleftrightarrow>
     (case v of
        JObj kvs \<Rightarrow> distinct (map fst kvs)
          \<and> list_all (\<lambda>(k, req, t). case map_of kvs k of None \<Rightarrow> \<not> req | Some u \<Rightarrow> conforms t u) fs
      | _ \<Rightarrow> False)"
| "conforms (Either s t) v \<longleftrightarrow> conforms s v \<or> conforms t v"

abbreviation field :: "bytes \<Rightarrow> jty \<Rightarrow> bytes \<times> bool \<times> jty" where
  "field k t \<equiv> (k, True, t)"

abbreviation optional :: "bytes \<Rightarrow> jty \<Rightarrow> bytes \<times> bool \<times> jty" where
  "optional k t \<equiv> (k, False, t)"

section \<open>The models\<close>

text \<open>\<open>docs/modules/common.tsp\<close>\<close>

definition ApiSuccess_model :: "jty \<Rightarrow> jty" where
  "ApiSuccess_model T = Model
     [field ''success'' TrueT, field ''message'' StringT, field ''data'' T,
      field ''status_code'' Int32T, field ''request_id'' StringT]"

definition ApiError_model :: jty where
  "ApiError_model = Model
     [field ''success'' FalseT, field ''message'' StringT, optional ''errors'' Unknown,
      field ''status_code'' Int32T, field ''request_id'' StringT]"

text \<open>\<open>docs/modules/auth/auth.model.tsp\<close>\<close>

definition SafeUser_model :: jty where
  "SafeUser_model = Model
     [field ''id'' StringT, field ''first_name'' StringT, field ''last_name'' StringT,
      field ''email'' StringT, field ''verified'' BooleanT, field ''created_at'' StringT]"

definition RegisterData :: jty where
  "RegisterData = Model [field ''user'' SafeUser_model]"

definition LoginData :: jty where
  "LoginData = Model
     [field ''user'' SafeUser_model, field ''access_token'' StringT, field ''refresh_token'' StringT]"

definition MeData :: jty where
  "MeData = Model [field ''user'' SafeUser_model]"

definition RefreshData :: jty where
  "RefreshData = Model [field ''access_token'' StringT]"

text \<open>\<open>docs/modules/health/health.model.tsp\<close>\<close>

definition DatabaseStatus :: jty where
  "DatabaseStatus = Model
     [field ''status'' StringT, field ''open_conns'' Int32T, field ''idle_conns'' Int32T]"

definition RedisStatus :: jty where
  "RedisStatus = Model [field ''status'' StringT]"

definition MemoryStats :: jty where
  "MemoryStats = Model
     [field ''alloc_mb'' Float64T, field ''total_alloc_mb'' Float64T, field ''sys_mb'' Float64T,
      field ''num_gc'' Int32T]"

definition ServicesStatus :: jty where
  "ServicesStatus = Model [field ''database'' DatabaseStatus, field ''redis'' RedisStatus]"

definition HealthData :: jty where
  "HealthData = Model
     [field ''success'' BooleanT, field ''status'' StringT, field ''uptime'' StringT,
      field ''services'' ServicesStatus, field ''memory'' MemoryStats]"

text \<open>The result types of \<open>auth.route.tsp\<close> and \<open>health.route.tsp\<close>.\<close>

definition api_result :: "jty \<Rightarrow> jty" where
  "api_result T = Either (ApiSuccess_model T) ApiError_model"

definition auth_operations :: "(endpoint \<times> jty) list" where
  "auth_operations =
     [(MeEP, api_result MeData), (RegisterEP, api_result RegisterData),
      (LoginEP, api_result LoginData), (RefreshEP, api_result RefreshData)]"

definition health_operations :: "(endpoint \<times> jty) list" where
  "health_operations = [(HealthEP, HealthData)]"

definition documented :: "endpoint \<Rightarrow> jty option" where
  "documented = map_of (auth_operations @ health_operations)"

lemmas models = ApiSuccess_model_def ApiError_model_def SafeUser_model_def RegisterData_def
  LoginData_def MeData_def RefreshData_def DatabaseStatus_def RedisStatus_def MemoryStats_def
  ServicesStatus_def HealthData_def api_result_def

lemma documented_simps [simp]:
  "documented RegisterEP = Some (api_result RegisterData)" "documented LoginEP = Some (api_result LoginData)"
  "documented RefreshEP = Some (api_result RefreshData)" "documented MeEP = Some (api_result MeData)"
  "documented HealthEP = Some HealthData" "documented WebSocketEP = None" "documented WebEP = None"
  "documented OpenAPIEP = None" "documented DocsEP = None"
  by (simp_all add: documented_def auth_operations_def health_operations_def)

section \<open>Typed answers\<close>

text \<open>
  What no model describes: the bare object with which the middlewares refuse a request.  An answer
  of type \<open>T\<close> is one JSON value of it, or such a refusal with one of the given status codes; the
  \<open>status_code\<close> in the body, where there is one, is the status sent, and \<open>success\<close> tells a status
  below 400.
\<close>

definition refusal :: jty where
  "refusal = Model [field ''success'' FalseT, field ''message'' StringT, field ''request_id'' StringT]"

definition answered :: "jty \<Rightarrow> int set \<Rightarrow> response \<Rightarrow> bool" where
  "answered T codes rsp \<longleftrightarrow>
     (\<exists>code h g. rsp_sent rsp = Some (code, h) \<and> hget h ''Content-Type'' = ''application/json''
        \<and> rsp_body rsp = [Json g] \<and> (conforms T g \<or> conforms refusal g \<and> code \<in> codes)
        \<and> (\<forall>v. gov_field ''status_code'' g = Some v \<longrightarrow> v = JInt code)
        \<and> gov_field ''success'' g = Some (JBool (code < 400)))"

definition fresh_response :: "response \<Rightarrow> bool" where
  "fresh_response rsp \<longleftrightarrow> rsp_sent rsp = None \<and> rsp_body rsp = []
     \<and> hget (rsp_header rsp) ''X-Request-ID'' \<noteq> []"

text \<open>The typing of handlers, over consistent tables and for requests that are no preflight.\<close>

definition well_typed :: "jty \<Rightarrow> int set \<Rightarrow> (body, 'a app_scheme) handler \<Rightarrow> bool" where
  "well_typed T codes h \<longleftrightarrow>
     (\<forall>r w rsp w' rsp'. req_method r \<noteq> ''OPTIONS'' \<and> db_ok (database w) \<and> fresh_response rsp
        \<and> h r (w, rsp) = Done (w', rsp') \<longrightarrow> answered T codes rsp')"

lemma well_typedI:
  assumes "\<And>r w rsp w' rsp'. req_method r \<noteq> ''OPTIONS'' \<Longrightarrow> db_ok (database w) \<Longrightarrow> fresh_response rsp
    \<Longrightarrow> h r (w, rsp) = Done (w', rsp') \<Longrightarrow> answered T codes rsp'"
  shows "well_typed T codes h"
  using assms by (auto simp: well_typed_def)

lemma well_typedD:
  "well_typed T codes h \<Longrightarrow> h r (w, rsp) = Done (w', rsp') \<Longrightarrow> req_method r \<noteq> ''OPTIONS''
    \<Longrightarrow> db_ok (database w) \<Longrightarrow> fresh_response rsp \<Longrightarrow> answered T codes rsp'"
  by (auto simp: well_typed_def)

lemma well_typed_mono: "well_typed T codes h \<Longrightarrow> codes \<subseteq> codes' \<Longrightarrow> well_typed T codes' h"
  unfolding well_typed_def answered_def by blast

text \<open>The header names are different keys.\<close>

lemma header_keys [simp]:
  "canon_key ''Content-Type'' \<noteq> canon_key ''X-Request-ID''"
  "canon_key ''Access-Control-Allow-Origin'' \<noteq> canon_key ''X-Request-ID''"
  "canon_key ''Access-Control-Allow-Methods'' \<noteq> canon_key ''X-Request-ID''"
  "canon_key ''Access-Control-Allow-Headers'' \<noteq> canon_key ''X-Request-ID''"
  "canon_key ''Access-Control-Allow-Credentials'' \<noteq> canon_key ''X-Request-ID''"
  "canon_key ''Access-Control-Expose-Headers'' \<noteq> canon_key ''X-Request-ID''"
  by code_simp+

section \<open>Envelopes\<close>

text \<open>An envelope whose parts have the types of its model.\<close>

definition envelope_typed :: "jty \<Rightarrow> ApiResponse \<Rightarrow> bool" where
  "envelope_typed T r \<longleftrightarrow>
     0 \<le> StatusCode r \<and> StatusCode r < 600
     \<and> (if Success r
        then StatusCode r < 400 \<and> Errors r = None \<and> (\<exists>d. Data r = Some d \<and> marshalable d \<and> conforms T d)
        else 400 \<le> StatusCode r \<and> Data r = None \<and> (\<forall>e. Errors r = Some e \<longrightarrow> marshalable e))"

lemma envelope_error [simp]:
  "envelope_typed T (ApiError m None code) \<longleftrightarrow> 400 \<le> code \<and> code < 600"
  "envelope_typed T (ApiError m (Some (JStr e)) code) \<longleftrightarrow> 400 \<le> code \<and> code < 600"
  by (auto simp: envelope_typed_def ApiError_def)

lemma envelope_success [simp]:
  "envelope_typed T (ApiSuccess m (Some d) code) \<longleftrightarrow>
     0 \<le> code \<and> code < 400 \<and> marshalable d \<and> conforms T d"
  by (auto simp: envelope_typed_def ApiSuccess_def)

lemma answered_SendResponse:
  assumes "envelope_typed T r" "fresh_response rsp"
  shows "answered (api_result T) codes (SendResponse rsp r)"
proof -
  let ?r = "r\<lparr>RequestID := hget (rsp_header rsp) ''X-Request-ID''\<rparr>"
  let ?h = "hset (rsp_header rsp) ''Content-Type'' ''application/json''"
  have rid: "hget (rsp_header rsp) ''X-Request-ID'' \<noteq> []"
    using assms(2) by (simp add: fresh_response_def)
  have gov: "marshalable (api_gov ?r) \<and> conforms (api_result T) (api_gov ?r)
      \<and> gov_field ''status_code'' (api_gov ?r) = Some (JInt (StatusCode r))
      \<and> gov_field ''success'' (api_gov ?r) = Some (JBool (StatusCode r < 400))"
  proof (cases "Success r")
    case True
    with assms(1) rid show ?thesis
      by (auto simp: envelope_typed_def api_gov_def models)
  next
    case False
    with assms(1) rid show ?thesis
      by (auto simp: envelope_typed_def api_gov_def models split: option.splits)
  qed
  have "SendResponse rsp r = rsp\<lparr>rsp_header := ?h, rsp_sent := Some (StatusCode r, ?h),
      rsp_capture := map_option (\<lambda>_. StatusCode r) (rsp_capture rsp), rsp_body := [Json (api_gov ?r)]\<rparr>"
    using assms(2) gov
    by (simp add: SendResponse_def Let_def set_header_def WriteHeader_def Write_def send_status_def
        fresh_response_def split: option.splits)
  with gov show ?thesis
    by (auto simp: answered_def hget_hset)
qed

lemma answered_hw_JSON:
  assumes "fresh_response rsp" "marshalable (JObj data)" "map_of data ''request_id'' = None"
    "map_of data ''status_code'' = None" "map_of data ''success'' = Some (JBool (code < 400))"
    "\<And>rid. conforms T (JObj (data @ [(''request_id'', JStr rid)]))
       \<or> conforms refusal (JObj (data @ [(''request_id'', JStr rid)])) \<and> code \<in> codes"
  shows "answered T codes (hw_JSON data (hw_Status code (NewHttpWriter rsp r)))"
proof -
  let ?h = "hset (rsp_header rsp) ''Content-Type'' ''application/json''"
  obtain rid where rid: "hget (rsp_header rsp) ''X-Request-ID'' = rid" "rid \<noteq> []"
    using assms(1) by (simp add: fresh_response_def)
  have upd: "AList.update k v xs = xs @ [(k, v)]" if "map_of xs k = None" for k v and xs :: "(bytes \<times> gov) list"
    using that by (induction xs) (auto split: if_splits)
  have "hw_JSON data (hw_Status code (NewHttpWriter rsp r))
      = rsp\<lparr>rsp_header := ?h, rsp_sent := Some (code, ?h),
          rsp_capture := map_option (\<lambda>_. code) (rsp_capture rsp),
          rsp_body := [Json (JObj (data @ [(''request_id'', JStr rid)]))]\<rparr>"
    using assms(1,2) rid upd [OF assms(3)]
    by (simp add: hw_JSON_def hw_Status_def NewHttpWriter_def Let_def set_header_def WriteHeader_def
        Write_def send_status_def fresh_response_def split: option.splits)
  with assms(4-6) show ?thesis
    by (auto simp: answered_def hget_hset map_add_def)
qed

section \<open>The service\<close>

lemma SafeUser_conforms:
  "Valid (u_ID u) \<Longrightarrow> marshalable (SafeUser E u) \<and> conforms SafeUser_model (SafeUser E u)"
  by (simp add: SafeUser_def SafeUser_model_def uuid_gov_def)

lemma Register_typed:
  assumes "Register E bus input r w = Returned res w'"
  shows "envelope_typed RegisterData res"
proof (cases "Register_taken E input (database w)")
  case True
  with assms show ?thesis by (auto simp: Register_def)
next
  case False
  then have "Register_insert E bus input r w = Returned res w'"
    using assms by (simp add: Register_def)
  then consider (err) m e where "res = ApiError m (Some (JStr e)) 500"
    | (ok) u where "Valid (u_ID u)" "res = ApiSuccess ''user registered successfully'' (Some (JObj [(''user'', SafeUser E u)])) 201"
  proof (cases "HashPassword (e_rand E) (e_kdf E) (ri_Password input)")
    case (Ret h)
    with \<open>Register_insert E bus input r w = Returned res w'\<close> err show ?thesis
    proof (cases h)
      case (Inr hashed)
      obtain c d where c: "CreateUser (e_insert_fault E) (e_new_uuid E) (e_db_now E)
         \<lparr>FirstName = ri_FirstName input, LastName = ri_LastName input,
          Email = ri_Email input, Passwd = hashed\<rparr> (database w) = (c, d)" by fastforce
      show ?thesis
      proof (cases c)
        case u: (Inr u)
        with c have "Valid (u_ID u)" using new_user_Inr(2) CreateUser_Inr(1) by blast
        moreover have "res = ApiSuccess ''user registered successfully'' (Some (JObj [(''user'', SafeUser E u)])) 201"
          using \<open>Register_insert E bus input r w = Returned res w'\<close> Ret Inr c u
          by (auto simp: Register_insert_def Let_def call_bind_Returned split: option.splits)
        ultimately show ?thesis by (rule ok)
      qed (use \<open>Register_insert E bus input r w = Returned res w'\<close> Ret Inr c err in
          \<open>auto simp: Register_insert_def\<close>)
    qed (auto simp: Register_insert_def)
  qed (simp add: Register_insert_def)
  then show ?thesis
    by cases (simp_all add: RegisterData_def SafeUser_conforms)
qed

lemma found_valid:
  "GetUserByEmail fault m d = Inr u \<Longrightarrow> db_ok d \<Longrightarrow> Valid (u_ID u)"
  "GetUserByID fault i d = Inr u \<Longrightarrow> db_ok d \<Longrightarrow> Valid (u_ID u)"
  by (auto simp: GetUserByEmail_Inr GetUserByID_Inr db_ok_def dest: find_Some_in_set)

lemma Login_typed:
  assumes "Login E bus input r w = Returned res w'" "db_ok (database w)"
  shows "envelope_typed LoginData res"
proof (cases "GetUserByEmail (e_lookup_fault E) (li_Email input) (database w)")
  case (Inr u)
  note valid = found_valid(1) [OF Inr assms(2)]
  show ?thesis
    using assms(1) Inr valid
    by (cases "ComparePassword (e_kdf E) (u_Password u) (li_Password input)";
        cases "Sign (e_jwt E) (NewTokenSigner (access_key E))
          (StandardClaims (e_now E) (UUID_String E (u_ID u)) access_ttl)";
        cases "Sign (e_jwt E) (NewTokenSigner (refresh_key E))
          (StandardClaims (e_now2 E) (UUID_String E (u_ID u)) refresh_ttl)")
      (auto simp: Login_def Let_def LoginData_def SafeUser_conforms call_bind_Returned split: option.splits)
qed (use assms(1) in \<open>auto simp: Login_def\<close>)

lemma Me_typed: "db_ok (database w) \<Longrightarrow> envelope_typed MeData (Me E uid w)"
  by (auto simp: Me_def MeData_def SafeUser_conforms found_valid split: sum.splits)

lemma RefreshToken_typed: "envelope_typed RefreshData (RefreshToken E input)"
  by (auto simp: RefreshToken_def RefreshData_def split: sum.splits option.splits)

section \<open>Typing rules\<close>

lemma respond_typed:
  assumes "\<And>w res w'. db_ok (database w) \<Longrightarrow> f w = Returned res w' \<Longrightarrow> envelope_typed T res"
  shows "respond (f w) rsp = Done (w', rsp') \<Longrightarrow> db_ok (database w) \<Longrightarrow> fresh_response rsp
    \<Longrightarrow> answered (api_result T) codes rsp'"
  using assms answered_SendResponse by (auto simp: respond_def split: call.splits)

lemma register_typed: "well_typed (api_result RegisterData) codes (register E bus)"
  by (rule well_typedI)
    (auto simp: register_def Let_def intro: respond_typed Register_typed)

lemma login_typed: "well_typed (api_result LoginData) codes (login E bus)"
  by (rule well_typedI) (auto simp: login_def Let_def intro: respond_typed Login_typed)

lemma refresh_typed: "well_typed (api_result RefreshData) codes (refresh E)"
  by (rule well_typedI)
    (auto simp: refresh_def Let_def intro: answered_SendResponse RefreshToken_typed)

lemma me_typed: "well_typed (api_result MeData) codes (me E)"
  by (rule well_typedI) (auto simp: me_def Let_def intro: answered_SendResponse Me_typed)

lemma Validate_typed:
  assumes "well_typed (api_result T) codes h"
  shows "well_typed (api_result T) codes (Validate decode validate wrap h)"
proof (rule well_typedI)
  fix r w rsp w' rsp'
  assume pre: "req_method r \<noteq> ''OPTIONS''" "db_ok (database w)" "fresh_response rsp"
    and run: "Validate decode validate wrap h r (w, rsp) = Done (w', rsp')"
  consider m code where "400 \<le> code" "code < 600" "rsp' = SendResponse rsp (ApiError m None code)"
    | i where "h (r\<lparr>ctx_body := Some (wrap i)\<rparr>) (w, rsp) = Done (w', rsp')"
  proof (cases "ParseBody decode r")
    case (Inl e)
    with run have "rsp' = SendResponse rsp (ApiError e None 400)" by (simp add: Validate_def)
    then show ?thesis by (intro that(1)) simp_all
  next
    case (Inr i)
    obtain e j where v: "validate i = (e, j)" by fastforce
    show ?thesis
    proof (cases e)
      case None
      with run Inr v show ?thesis by (intro that(2)) (simp add: Validate_def)
    next
      case (Some m)
      with run Inr v have "rsp' = SendResponse rsp (ApiError m None 422)" by (simp add: Validate_def)
      then show ?thesis by (intro that(1)) simp_all
    qed
  qed
  then show "answered (api_result T) codes rsp'"
    by cases (use pre assms in \<open>auto intro: answered_SendResponse well_typedD\<close>)
qed

lemma refusal_answered:
  assumes "fresh_response rsp" "code \<in> codes" "400 \<le> code"
  shows "answered T codes (hw_JSON [(''success'', JBool False), (''message'', JStr m)]
    (hw_Status code (NewHttpWriter rsp r)))"
  using assms by (intro answered_hw_JSON) (simp_all add: refusal_def)

lemma Guard_typed:
  assumes "well_typed T codes h" "401 \<in> codes"
  shows "well_typed T codes (Guard lib env now h)"
proof (rule well_typedI)
  fix r w rsp w' rsp'
  assume pre: "req_method r \<noteq> ''OPTIONS''" "db_ok (database w)" "fresh_response rsp"
    and run: "Guard lib env now h r (w, rsp) = Done (w', rsp')"
  show "answered T codes rsp'"
  proof (cases rule: Guard_cases [of lib env now r "(w, rsp)"])
    case (refused m)
    with run have "rsp' = unauthorized r m rsp" by simp
    with pre(3) assms(2) show ?thesis by (auto simp: unauthorized_def intro: refusal_answered)
  next
    case (admitted c uid)
    with run have "h (r\<lparr>ctx_uid := Some uid\<rparr>) (w, rsp) = Done (w', rsp')" by simp
    with pre show ?thesis by (auto intro: well_typedD [OF assms(1)])
  qed
qed

lemma RateLimit_typed:
  assumes "well_typed T codes h" "429 \<in> codes"
  shows "well_typed T codes (RateLimitMiddleware now h)"
proof (rule well_typedI)
  fix r w rsp w' rsp'
  assume pre: "req_method r \<noteq> ''OPTIONS''" "db_ok (database w)" "fresh_response rsp"
    and run: "RateLimitMiddleware now h r (w, rsp) = Done (w', rsp')"
  obtain ok rl where a: "allow (GetIP r) now (limiter w) = (ok, rl)" by fastforce
  show "answered T codes rsp'"
  proof (cases ok)
    case True
    with a run have "h r (w\<lparr>limiter := rl\<rparr>, rsp) = Done (w', rsp')"
      by (simp add: RateLimitMiddleware_def)
    then show ?thesis using pre by (auto intro: well_typedD [OF assms(1)])
  next
    case False
    with a run have "rsp' = rate_limited r rsp" by (simp add: RateLimitMiddleware_def)
    with pre assms(2) show ?thesis by (auto simp: rate_limited_def intro: refusal_answered)
  qed
qed

lemma CORS_typed:
  assumes "well_typed T codes (h :: (body, 'a app_scheme) handler)"
  shows "well_typed T codes (CORSMiddleware env h)"
proof (rule well_typedI)
  fix r :: "body request" and w :: "'a app_scheme" and rsp w' rsp'
  let ?w = "cors_headers (GetEnv env ''CORS_ORIGINS'' ''http://localhost:3000,http://localhost:5173'') (request_origin r) rsp"
  assume pre: "req_method r \<noteq> ''OPTIONS''" "db_ok (database w)" "fresh_response rsp"
    and "CORSMiddleware env h r (w, rsp) = Done (w', rsp')"
  then have "h r (w, ?w) = Done (w', rsp')" by (simp add: CORSMiddleware_def Let_def)
  moreover have "fresh_response ?w"
    using pre(3) by (simp add: fresh_response_def cors_headers_def Let_def set_header_def hget_hset)
  ultimately show "answered T codes rsp'" using pre by (auto intro: well_typedD [OF assms])
qed

lemma Logger_typed:
  assumes "well_typed T codes (h :: (body, 'a app_scheme) handler)"
  shows "well_typed T codes (LoggerMiddleware env file_ok start finish h)"
proof (rule well_typedI)
  fix r and w :: "'a app_scheme" and rsp w' rsp'
  assume pre: "req_method r \<noteq> ''OPTIONS''" "db_ok (database w)" "fresh_response rsp"
    and run: "LoggerMiddleware env file_ok start finish h r (w, rsp) = Done (w', rsp')"
  let ?rsp = "rsp\<lparr>rsp_capture := Some 200\<rparr>"
  obtain w1 rsp1 where h: "h r (w, ?rsp) = Done (w1, rsp1)" and rsp': "rsp' = rsp1\<lparr>rsp_capture := None\<rparr>"
    using run by (cases "h r (w, ?rsp)") (auto simp: LoggerMiddleware_def Let_def)
  have "answered T codes rsp1"
    using pre by (intro well_typedD [OF assms h]) (simp_all add: fresh_response_def)
  then show "answered T codes rsp'" by (simp add: rsp' answered_def)
qed

text \<open>Go counts collections in 32 bits without a sign, the model in 32 bits with one.\<close>

lemma health_typed:
  assumes "uint (NumGC (mem p)) < 2 ^ 31"
  shows "well_typed HealthData codes (healthHandler p)"
proof (rule well_typedI)
  fix r :: "body request" and w :: "'a app_scheme" and rsp w' rsp'
  assume "fresh_response rsp" "healthHandler p r (w, rsp) = Done (w', rsp')"
  moreover have "- (2 ^ 31) \<le> sint (c :: 32 word)" "sint c < 2 ^ 31" for c
    using sint_range_size [of c] by (simp_all add: word_size)
  moreover have "- (2 ^ 31) \<le> uint (NumGC (mem p))"
    by (rule order_trans [OF _ uint_ge_0]) simp
  ultimately show "answered HealthData codes rsp'"
    using assms
    by (auto simp: healthHandler_def Let_def toMB_def models intro!: answered_hw_JSON)
qed

lemma endpoint_typed:
  assumes "documented ep = Some T" "ep = HealthEP \<longrightarrow> uint (NumGC (mem (q_probe q))) < 2 ^ 31"
  shows "well_typed T {code. code = 429 \<or> code = 401 \<and> ep = MeEP} (endpoint_handler q srv ep)"
  using assms
  by (cases ep)
    (auto simp: endpoint_handler_def Let_def health_typed
      intro!: Validate_typed Guard_typed register_typed login_typed refresh_typed me_typed)

lemma use_mw_typed:
  "well_typed T codes h \<Longrightarrow> 429 \<in> codes \<Longrightarrow> u \<noteq> UseRequestID \<Longrightarrow> well_typed T codes (use_mw q u h)"
  by (cases u) (simp_all add: CORS_typed RateLimit_typed Logger_typed)

lemma use_chain_typed:
  assumes "well_typed T codes h" "429 \<in> codes" "UseRequestID \<notin> set ms"
  shows "well_typed T codes (use_chain q ms h)"
  using assms by (induction ms) (auto simp: use_chain_def intro: use_mw_typed)

text \<open>
  C11. Where the request-id middleware is on and has drawn an id, every documented operation answers
  within its documented type: from tables that keep their constraints, whatever the request (other
  than a preflight), its body and its credentials, and whatever else the libraries and the database
  do, an answer of register, login, refresh, me or health is one JSON value of the result type of the
  operation, with the header that says so, the status repeated in \<open>status_code\<close> and \<open>success\<close> telling a
  status below 400; for health, as long as the garbage collector has run fewer than \<open>2 ^ 31\<close> times,
  as \<open>num_gc\<close> is documented to have 32 bits with a sign and has none.  Without an id the answers lack the
  required field \<open>request_id\<close>.  The only answers outside are the bare refusals of the rate limiter (429)
  and of the guard (401), which no documented type admits.
\<close>
theorem answers_typed:
  assumes "Setup x env (server_New c web) = (None, srv)" "rid_Enabled (mw_RequestID (c_Middlewares c))"
    and "q_uuid q = Inr rid" "rid \<noteq> []"
    and "m (routes srv) (req_method r) (req_path r) = Some ep" "documented ep = Some T"
    and "ep = HealthEP \<longrightarrow> uint (NumGC (mem (q_probe q))) < 2 ^ 31"
    and "req_method r \<noteq> ''OPTIONS''" "db_ok (database w)"
    and "serve q m miss srv r (w, new_response) = Done (w', rsp)"
  shows "(\<exists>code h g. rsp_sent rsp = Some (code, h) \<and> hget h ''Content-Type'' = ''application/json''
      \<and> rsp_body rsp = [Json g]
      \<and> (conforms T g \<or> conforms refusal g \<and> (code = 429 \<or> code = 401 \<and> ep = MeEP))
      \<and> (\<forall>v. gov_field ''status_code'' g = Some v \<longrightarrow> v = JInt code)
      \<and> gov_field ''success'' g = Some (JBool (code < 400)))
    \<and> (\<forall>msg i. \<not> conforms T (JObj [(''success'', JBool False), (''message'', msg), (''request_id'', i)]))"
proof -
  let ?codes = "{code. code = 429 \<or> code = 401 \<and> ep = MeEP}" and ?h = "endpoint_handler q srv ep"
  obtain ms where chain: "chain srv = UseRequestID # ms" "UseRequestID \<notin> set ms"
    using assms(2) Setup_routes(2) [OF assms(1)] by (auto simp: mw_chain_def)
  have typed: "well_typed T ?codes (use_chain q ms ?h)"
    using endpoint_typed [OF assms(6,7)] chain(2) by (intro use_chain_typed) simp_all
  have "RequestIDMiddleware (q_logger_ok q) (q_uuid q) (use_chain q ms ?h) r (w, new_response) = Done (w', rsp)"
    using assms(5,10) chain(1) by (simp add: serve_def use_chain_def)
  then have run: "use_chain q ms ?h r
      (log_incoming (incoming (Inr rid) r) w, set_header ''X-Request-ID'' rid new_response) = Done (w', rsp)"
    using assms(3) by (simp add: RequestIDMiddleware_def Let_def split: if_splits)
  have "fresh_response (set_header ''X-Request-ID'' rid new_response)"
    using assms(4) by (simp add: fresh_response_def set_header_def new_response_def hget_hset)
  from well_typedD [OF typed run assms(8) _ this] assms(9) have "answered T ?codes rsp" by simp
  moreover have "\<not> conforms T (JObj [(''success'', JBool False), (''message'', msg), (''request_id'', i)])" for msg i
    using assms(6) by (cases ep) (auto simp: models)
  ultimately show ?thesis by (simp add: answered_def)
qed

theorem answers_typed_witness:
  "\<exists>srv w' rsp g. Setup calm_startup Map.empty (server_New (applyDefaults sample_config) True) = (None, srv)
     \<and> serve sample_per_request sample_mux (\<lambda>r w. w) srv ((sample_request [])\<lparr>req_path := ''/api/v1/auth/me''\<rparr>)
         (sample_sys, new_response) = Done (w', rsp)
     \<and> rsp_body rsp = [Json g] \<and> conforms (Either (api_result MeData) refusal) g"
proof -
  let ?c = "applyDefaults sample_config"
  let ?r = "(sample_request [])\<lparr>req_path := ''/api/v1/auth/me''\<rparr>"
  obtain srv where s: "Setup calm_startup Map.empty (server_New ?c True) = (None, srv)"
    by (rule sample_setup)
  have on: "rid_Enabled (mw_RequestID (c_Middlewares ?c))" "srv_APIPrefix (c_Server ?c) = ''/api/v1''"
    "ws_Path (c_WebSocket ?c) = ''/ws''"
    by (simp_all add: applyDefaults_def sample_config_def dflt_def)
  have req: "req_method ?r = ''GET''" "req_path ?r = ''/api/v1/auth/me''"
    by (simp_all add: sample_request_def)
  have m: "sample_mux (routes srv) (req_method ?r) (req_path ?r) = Some MeEP"
    unfolding req using routes_table [OF sample_mux_ok s sample_paths(1,3)] on by (simp add: routing_table_def Let_def)
  have "cors_Enabled (sec_CORS (c_Security ?c))" "rate_Enabled (sec_RateLimit (c_Security ?c))"
    "mw_Logger (c_Middlewares ?c)"
    by (simp_all add: applyDefaults_def sample_config_def dflt_def)
  then obtain n d where chain: "chain srv = [UseRequestID, UseCORS, UseRateLimit n d, UseLogger (srv_Environment (c_Server ?c))]"
    using mw_chain_full [OF on(1)] Setup_routes(2) [OF s] by auto
  obtain rid where rid: "q_uuid sample_per_request = Inr rid" "rid \<noteq> []"
    by (simp add: sample_per_request_def)
  obtain w' rsp where run: "serve sample_per_request sample_mux (\<lambda>r w. w) srv ?r (sample_sys, new_response) = Done (w', rsp)"
  proof -
    have "serve sample_per_request sample_mux (\<lambda>r w. w) srv ?r (sample_sys, new_response)
        = use_chain sample_per_request (chain srv) (endpoint_handler sample_per_request srv MeEP) ?r
            (sample_sys, new_response)"
      unfolding serve_def m by simp
    moreover have "\<exists>w' rsp. use_chain sample_per_request (chain srv) (endpoint_handler sample_per_request srv MeEP) ?r
            (sample_sys, new_response) = Done (w', rsp)"
      unfolding chain
      by (cases "allow (GetIP ?r) 0 (limiter sample_sys)")
        (simp add: use_chain_def RequestIDMiddleware_def CORSMiddleware_def RateLimitMiddleware_def
          LoggerMiddleware_def endpoint_handler_def Guard_def extractToken_def sample_per_request_def Let_def
          sample_request_def)
    ultimately show ?thesis using that by metis
  qed
  have "db_ok (database sample_sys)" by (simp add: sample_sys_def)
  from answers_typed [OF s on(1) rid m documented_simps(4) _ _ this run] req(1) s run show ?thesis
    by auto
qed

end
