(* ===== verification/Schema.thy ===== *)
theory Schema
  imports Repository
begin

text \<open>
  The migrations of \<open>server/internal/db/migrations\<close> as lists of statements, with the part of the
  database's catalogue they change: extensions, tables with the types and constraints of their
  columns, and indexes.
\<close>

section \<open>Columns\<close>

datatype col_type = UuidC | VarcharC nat | TextC | BoolC | TimeC | JsonbC

datatype col_default = NoDefault | DefaultUuid | DefaultFalse | DefaultNow

text \<open>\<open>col_refs\<close> is the table and the column of a foreign key with \<open>ON DELETE SET NULL\<close>.\<close>

record column =
  col_name :: bytes
  col_type :: col_type
  not_null :: bool
  primary_key :: bool
  unique_col :: bool
  col_default :: col_default
  col_refs :: "(bytes \<times> bytes) option"

definition plain :: "bytes \<Rightarrow> col_type \<Rightarrow> column" where
  "plain n ty = \<lparr>col_name = n, col_type = ty, not_null = False, primary_key = False, unique_col = False,
     col_default = NoDefault, col_refs = None\<rparr>"

definition required :: "bytes \<Rightarrow> col_type \<Rightarrow> column" where
  "required n ty = (plain n ty)\<lparr>not_null := True\<rparr>"

definition id_column :: column where
  "id_column = (required ''id'' UuidC)\<lparr>primary_key := True, col_default := DefaultUuid\<rparr>"

definition users_columns :: "column list" where
  "users_columns =
     [id_column,
      required ''first_name'' (VarcharC 50),
      required ''last_name'' (VarcharC 50),
      (required ''email'' (VarcharC 100))\<lparr>unique_col := True\<rparr>,
      required ''password'' (VarcharC 255),
      (required ''verified'' BoolC)\<lparr>col_default := DefaultFalse\<rparr>,
      (required ''created_at'' TimeC)\<lparr>col_default := DefaultNow\<rparr>,
      (required ''updated_at'' TimeC)\<lparr>col_default := DefaultNow\<rparr>]"

definition audit_logs_columns :: "column list" where
  "audit_logs_columns =
     [id_column,
      (plain ''actor_user_id'' UuidC)\<lparr>col_refs := Some (''users'', ''id'')\<rparr>,
      required ''action'' TextC,
      required ''entity'' TextC,
      plain ''metadata'' JsonbC,
      plain ''ip'' TextC,
      plain ''user_agent'' TextC,
      (required ''created_at'' TimeC)\<lparr>col_default := DefaultNow\<rparr>]"

section \<open>The catalogue\<close>

record catalogue =
  extensions :: "bytes list"
  tables :: "(bytes \<times> column list) list"
  indexes :: "(bytes \<times> bytes \<times> bytes) list"

datatype ddl =
  CreateExtension bytes | CreateTable bytes "column list" | CreateIndex bytes bytes bytes
| DropIndex bytes | DropTable bytes | DropExtension bytes

definition references :: "bytes \<Rightarrow> column list \<Rightarrow> bool" where
  "references t cols \<longleftrightarrow> (\<exists>c \<in> set cols. \<exists>k. col_refs c = Some (t, k))"

definition needs_uuid :: "column list \<Rightarrow> bool" where
  "needs_uuid cols \<longleftrightarrow> (\<exists>c \<in> set cols. col_default c = DefaultUuid)"

definition dangling :: "bytes \<Rightarrow> column list \<Rightarrow> bytes set \<Rightarrow> bool" where
  "dangling t cols known \<longleftrightarrow>
     (\<exists>c \<in> set cols. case col_refs c of None \<Rightarrow> False | Some (r, k) \<Rightarrow> r \<noteq> t \<and> r \<notin> known)"

text \<open>
  \<open>IF NOT EXISTS\<close> and \<open>IF EXISTS\<close> make a statement do nothing.  A default that calls
  \<open>uuid_generate_v4\<close> needs the extension, a foreign key its table; what others depend on is not
  dropped.
\<close>

definition exec_ddl :: "ddl \<Rightarrow> catalogue \<Rightarrow> catalogue fallible" where
  "exec_ddl s c =
     (case s of
        CreateExtension x \<Rightarrow>
          Inr (if x \<in> set (extensions c) then c else c\<lparr>extensions := extensions c @ [x]\<rparr>)
      | CreateTable t cols \<Rightarrow>
          if t \<in> fst ` set (tables c) then Inr c
          else if needs_uuid cols \<and> ''uuid-ossp'' \<notin> set (extensions c)
          then Inl ''function uuid_generate_v4() does not exist''
          else if dangling t cols (fst ` set (tables c))
          then Inl ''relation does not exist''
          else Inr (c\<lparr>tables := tables c @ [(t, cols)]\<rparr>)
      | CreateIndex i t k \<Rightarrow>
          if i \<in> fst ` set (indexes c) then Inr c
          else if t \<notin> fst ` set (tables c) then Inl ''relation does not exist''
          else Inr (c\<lparr>indexes := indexes c @ [(i, t, k)]\<rparr>)
      | DropIndex i \<Rightarrow> Inr (c\<lparr>indexes := filter (\<lambda>x. fst x \<noteq> i) (indexes c)\<rparr>)
      | DropTable t \<Rightarrow>
          if t \<notin> fst ` set (tables c) then Inr c
          else if \<exists>(u, cols) \<in> set (tables c). u \<noteq> t \<and> references t cols
          then Inl ''other objects depend on it''
          else Inr (c\<lparr>tables := filter (\<lambda>x. fst x \<noteq> t) (tables c),
                      indexes := filter (\<lambda>(_, u, _). u \<noteq> t) (indexes c)\<rparr>)
      | DropExtension x \<Rightarrow>
          if x \<notin> set (extensions c) then Inr c
          else if x = ''uuid-ossp'' \<and> (\<exists>(u, cols) \<in> set (tables c). needs_uuid cols)
          then Inl ''other objects depend on it''
          else Inr (c\<lparr>extensions := filter (\<lambda>y. y \<noteq> x) (extensions c)\<rparr>))"

fun migrate :: "ddl list \<Rightarrow> catalogue \<Rightarrow> catalogue fallible" where
  "migrate [] c = Inr c"
| "migrate (s # ss) c = and_then (exec_ddl s c) (migrate ss)"

definition init_auth_up :: "ddl list" where
  "init_auth_up =
     [CreateExtension ''uuid-ossp'',
      CreateTable ''users'' users_columns,
      CreateIndex ''idx_users_email'' ''users'' ''email'',
      CreateTable ''audit_logs'' audit_logs_columns,
      CreateIndex ''idx_audit_logs_actor'' ''audit_logs'' ''actor_user_id'',
      CreateIndex ''idx_audit_logs_created_at'' ''audit_logs'' ''created_at'']"

definition init_auth_down :: "ddl list" where
  "init_auth_down =
     [DropIndex ''idx_audit_logs_created_at'', DropIndex ''idx_audit_logs_actor'',
      DropTable ''audit_logs'',
      DropIndex ''idx_users_email'',
      DropTable ''users'',
      DropExtension ''uuid-ossp'']"

section \<open>Up and down\<close>

lemma column_simps [simp]:
  "needs_uuid users_columns" "needs_uuid audit_logs_columns" "references t users_columns \<longleftrightarrow> False"
  "references t audit_logs_columns \<longleftrightarrow> t = ''users''"
  "dangling t users_columns known \<longleftrightarrow> False"
  "dangling t audit_logs_columns known \<longleftrightarrow> t \<noteq> ''users'' \<and> ''users'' \<notin> known"
  by (auto simp: needs_uuid_def references_def dangling_def users_columns_def audit_logs_columns_def id_column_def
      required_def plain_def)

definition auth_free :: "catalogue \<Rightarrow> bool" where
  "auth_free c \<longleftrightarrow> ''uuid-ossp'' \<notin> set (extensions c)
     \<and> {''users'', ''audit_logs''} \<inter> fst ` set (tables c) = {}
     \<and> {''idx_users_email'', ''idx_audit_logs_actor'', ''idx_audit_logs_created_at''} \<inter> fst ` set (indexes c) = {}
     \<and> (\<forall>(_, cols) \<in> set (tables c). \<not> needs_uuid cols \<and> \<not> references ''users'' cols \<and> \<not> references ''audit_logs'' cols)
     \<and> (\<forall>(_, t, _) \<in> set (indexes c). t \<noteq> ''users'' \<and> t \<noteq> ''audit_logs'')"

definition with_auth :: "catalogue \<Rightarrow> catalogue" where
  "with_auth c = c\<lparr>extensions := extensions c @ [''uuid-ossp''],
     tables := tables c @ [(''users'', users_columns), (''audit_logs'', audit_logs_columns)],
     indexes := indexes c @ [(''idx_users_email'', ''users'', ''email''),
       (''idx_audit_logs_actor'', ''audit_logs'', ''actor_user_id''),
       (''idx_audit_logs_created_at'', ''audit_logs'', ''created_at'')]\<rparr>"

lemma migrate_up: "auth_free c \<Longrightarrow> migrate init_auth_up c = Inr (with_auth c)"
  by (simp add: init_auth_up_def exec_ddl_def auth_free_def with_auth_def)

lemma migrate_up_again: "migrate init_auth_up (with_auth c) = Inr (with_auth c)"
  by (simp add: init_auth_up_def exec_ddl_def with_auth_def)

lemma filter_other: "x \<in> A \<Longrightarrow> A \<inter> f ` set xs = {} \<Longrightarrow> filter (\<lambda>y. f y \<noteq> x) xs = xs"
  by (auto simp: filter_id_conv)

lemma migrate_down:
  assumes "auth_free c"
  shows "migrate init_auth_down (with_auth c) = Inr c"
proof -
  let ?is = "indexes c" and ?ts = "tables c"
  have i: "filter (\<lambda>x. fst x \<noteq> n) ?is = ?is"
    if "n \<in> {''idx_users_email'', ''idx_audit_logs_actor'', ''idx_audit_logs_created_at''}" for n
    by (rule filter_other [OF that]) (use assms in \<open>simp only: auth_free_def\<close>)
  have t: "filter (\<lambda>x. fst x \<noteq> n) ?ts = ?ts" "filter (\<lambda>(_, u, _). u \<noteq> n) ?is = ?is"
    if "n \<in> {''users'', ''audit_logs''}" for n
  proof -
    show "filter (\<lambda>x. fst x \<noteq> n) ?ts = ?ts"
      by (rule filter_other [OF that]) (use assms in \<open>simp only: auth_free_def\<close>)
    show "filter (\<lambda>(_, u, _). u \<noteq> n) ?is = ?is"
      using that assms by (auto simp: auth_free_def filter_id_conv)
  qed
  have x: "filter (\<lambda>y. y \<noteq> ''uuid-ossp'') (extensions c) = extensions c"
    using assms by (auto simp: auth_free_def filter_id_conv)
  have free: "\<And>u cols. (u, cols) \<in> set ?ts \<Longrightarrow> \<not> references n cols \<and> \<not> needs_uuid cols"
    if "n \<in> {''users'', ''audit_logs''}" for n
    using that assms by (auto simp: auth_free_def)
  let ?u = "(''users'', users_columns)" and ?a = "(''audit_logs'', audit_logs_columns)"
    and ?e = "(''idx_users_email'', ''users'', ''email'')"
    and ?i = "(''idx_audit_logs_actor'', ''audit_logs'', ''actor_user_id'')"
  let ?c = "\<lambda>x ts is. c\<lparr>extensions := extensions c @ x, tables := ?ts @ ts, indexes := ?is @ is\<rparr>"
  have "exec_ddl (DropIndex ''idx_audit_logs_created_at'') (with_auth c) = Inr (?c [''uuid-ossp''] [?u, ?a] [?e, ?i])"
    by (simp add: exec_ddl_def with_auth_def i)
  moreover have "exec_ddl (DropIndex ''idx_audit_logs_actor'') (?c [''uuid-ossp''] [?u, ?a] [?e, ?i])
      = Inr (?c [''uuid-ossp''] [?u, ?a] [?e])"
    by (simp add: exec_ddl_def i)
  moreover have "exec_ddl (DropTable ''audit_logs'') (?c [''uuid-ossp''] [?u, ?a] [?e]) = Inr (?c [''uuid-ossp''] [?u] [?e])"
    using free [of "''audit_logs''"] by (auto simp: exec_ddl_def t)
  moreover have "exec_ddl (DropIndex ''idx_users_email'') (?c [''uuid-ossp''] [?u] [?e]) = Inr (?c [''uuid-ossp''] [?u] [])"
    by (simp add: exec_ddl_def i)
  moreover have "exec_ddl (DropTable ''users'') (?c [''uuid-ossp''] [?u] []) = Inr (?c [''uuid-ossp''] [] [])"
    using free [of "''users''"] by (auto simp: exec_ddl_def t)
  moreover have "exec_ddl (DropExtension ''uuid-ossp'') (?c [''uuid-ossp''] [] []) = Inr c"
    using free [of "''users''"] by (auto simp: exec_ddl_def x)
  ultimately show ?thesis by (simp add: init_auth_down_def)
qed

text \<open>
  C20. The migration undoes: on any catalogue that has none of its objects, applying it succeeds, with
  the extension before the defaults that call it and the referenced table before the reference;
  applying it once more changes nothing; and the way back drops everything in an order that no
  dependency forbids and leaves the catalogue exactly as it was.
\<close>
theorem migration_roundtrip:
  assumes "auth_free c"
  shows "\<exists>c'. migrate init_auth_up c = Inr c' \<and> migrate init_auth_up c' = Inr c'
    \<and> map_of (tables c') ''users'' = Some users_columns
    \<and> map_of (tables c') ''audit_logs'' = Some audit_logs_columns
    \<and> migrate init_auth_down c' = Inr c"
proof -
  have "map_of (tables c) ''users'' = None" "map_of (tables c) ''audit_logs'' = None"
    using assms by (auto simp: auth_free_def map_of_eq_None_iff)
  then have "map_of (tables (with_auth c)) ''users'' = Some users_columns"
    "map_of (tables (with_auth c)) ''audit_logs'' = Some audit_logs_columns"
    by (simp_all add: with_auth_def map_add_def)
  then show ?thesis
    using migrate_up [OF assms] migrate_up_again migrate_down [OF assms] by blast
qed

theorem migration_roundtrip_witness:
  "\<exists>c'. migrate init_auth_up \<lparr>extensions = [''plpgsql''], tables = [], indexes = []\<rparr> = Inr c'
     \<and> migrate init_auth_down c' = Inr \<lparr>extensions = [''plpgsql''], tables = [], indexes = []\<rparr>"
  using migration_roundtrip [of "\<lparr>extensions = [''plpgsql''], tables = [], indexes = []\<rparr>"]
  by (auto simp: auth_free_def)

end
