(* ===== verification/Sql.thy ===== *)
theory Sql
  imports Schema
begin

text \<open>
  The SQL of the data layer: an interpreter for the kinds of statements \<open>sqlc\<close> put into
  \<open>server/internal/db/repository\<close>, over any schema of \<open>Schema\<close>, the eight statements themselves, and
  the proof that the methods of \<open>Repository\<close> do what these statements do on the tables of the
  migration.
\<close>

section \<open>Values and rows\<close>

datatype sval = SNull | SUuid bytes | SText bytes | SBool bool | STime int | SInt int

text \<open>A row lists its values in the order of the columns.\<close>

type_synonym srow = "sval list"
type_synonym schema = "(bytes \<times> column list) list"
type_synonym content = "bytes \<Rightarrow> srow list"

record engine =
  gen_uuid :: bytes
  current_time :: int
  jsonb_in :: "bytes \<Rightarrow> bytes fallible"

definition columns_of :: "schema \<Rightarrow> bytes \<Rightarrow> column list" where
  "columns_of sch t = (case map_of sch t of None \<Rightarrow> [] | Some cols \<Rightarrow> cols)"

fun cell :: "column list \<Rightarrow> bytes \<Rightarrow> srow \<Rightarrow> sval" where
  "cell (c # cs) k (v # vs) = (if col_name c = k then v else cell cs k vs)"
| "cell _ k _ = SNull"

fun set_cell :: "column list \<Rightarrow> bytes \<Rightarrow> sval \<Rightarrow> srow \<Rightarrow> srow" where
  "set_cell (c # cs) k x (v # vs) = (if col_name c = k then x # vs else v # set_cell cs k x vs)"
| "set_cell _ k x vs = vs"

section \<open>Types, defaults, constraints\<close>

fun coerce :: "engine \<Rightarrow> col_type \<Rightarrow> sval \<Rightarrow> sval fallible" where
  "coerce e ty SNull = Inr SNull"
| "coerce e ty (SUuid b) = (if ty = UuidC then Inr (SUuid b) else Inl ''type mismatch'')"
| "coerce e ty (SText s) =
     (case ty of
        VarcharC n \<Rightarrow> and_then (varchar n s) (\<lambda>s. Inr (SText s))
      | TextC \<Rightarrow> and_then (pg_text s) (\<lambda>s. Inr (SText s))
      | JsonbC \<Rightarrow> and_then (jsonb_in e s) (\<lambda>s. Inr (SText s))
      | _ \<Rightarrow> Inl ''type mismatch'')"
| "coerce e ty (SBool b) = (if ty = BoolC then Inr (SBool b) else Inl ''type mismatch'')"
| "coerce e ty (STime t) = (if ty = TimeC then Inr (STime t) else Inl ''type mismatch'')"
| "coerce e ty (SInt i) = Inl ''type mismatch''"

fun coerce_row :: "engine \<Rightarrow> column list \<Rightarrow> srow \<Rightarrow> srow fallible" where
  "coerce_row e (c # cs) (v # vs) =
     and_then (coerce e (col_type c) v) (\<lambda>v. and_then (coerce_row e cs vs) (\<lambda>vs. Inr (v # vs)))"
| "coerce_row e _ _ = Inr []"

definition default_value :: "engine \<Rightarrow> col_default \<Rightarrow> sval" where
  "default_value e d =
     (case d of
        NoDefault \<Rightarrow> SNull
      | DefaultUuid \<Rightarrow> SUuid (gen_uuid e)
      | DefaultFalse \<Rightarrow> SBool False
      | DefaultNow \<Rightarrow> STime (current_time e))"

definition first_error :: "(column \<Rightarrow> sval \<Rightarrow> bool) \<Rightarrow> (column \<Rightarrow> bytes) \<Rightarrow> column list \<Rightarrow> srow \<Rightarrow> bytes option" where
  "first_error bad text cols row =
     map_option (\<lambda>(c, _). text c) (find (\<lambda>(c, v). bad c v) (zip cols row))"

definition null_error :: "column list \<Rightarrow> srow \<Rightarrow> bytes option" where
  "null_error cols =
     first_error (\<lambda>c v. not_null c \<and> v = SNull) (\<lambda>c. ''null value in column '' @ col_name c) cols"

definition unique_error :: "bytes \<Rightarrow> column list \<Rightarrow> srow list \<Rightarrow> srow \<Rightarrow> bytes option" where
  "unique_error t cols rows =
     first_error
       (\<lambda>c v. (primary_key c \<or> unique_col c) \<and> v \<noteq> SNull \<and> v \<in> cell cols (col_name c) ` set rows)
       (\<lambda>c. ''duplicate key '' @ t @ (if primary_key c then ''_pkey'' else ''_'' @ col_name c @ ''_key'')) cols"

definition reference_error :: "schema \<Rightarrow> content \<Rightarrow> bytes \<Rightarrow> column list \<Rightarrow> srow \<Rightarrow> bytes option" where
  "reference_error sch T t cols =
     first_error
       (\<lambda>c v. case col_refs c of
                None \<Rightarrow> False
              | Some (r, k) \<Rightarrow> v \<noteq> SNull \<and> v \<notin> cell (columns_of sch r) k ` set (T r))
       (\<lambda>c. ''foreign key '' @ t @ ''_'' @ col_name c @ ''_fkey'') cols"

section \<open>Statements\<close>

text \<open>\<open>$n\<close>, \<open>TRUE\<close> and \<open>CURRENT_TIMESTAMP\<close> on the right of an assignment.\<close>

datatype expr = Param nat | TrueE | NowE

text \<open>
  The conditions are all \<open>column = $1\<close>; a page is \<open>ORDER BY column DESC LIMIT $2 OFFSET $3\<close>; all
  but the deletion return whole rows.
\<close>

datatype sql =
  InsertInto bytes "bytes list"
| SelectWhere bytes bytes "nat option"
| SelectPage bytes bytes bytes
| UpdateWhere bytes "(bytes \<times> expr) list" bytes
| DeleteWhere bytes bytes

definition param :: "sval list \<Rightarrow> nat \<Rightarrow> sval" where
  "param ps n = (case drop (n - 1) ps of [] \<Rightarrow> SNull | v # _ \<Rightarrow> v)"

definition column_of :: "column list \<Rightarrow> bytes \<Rightarrow> column" where
  "column_of cols k = (case find (\<lambda>c. col_name c = k) cols of Some c \<Rightarrow> c | None \<Rightarrow> plain k TextC)"

text \<open>A comparison with a \<open>VARCHAR\<close> column takes any text; one with NULL holds for no row.\<close>

definition key_param :: "engine \<Rightarrow> column list \<Rightarrow> bytes \<Rightarrow> sval \<Rightarrow> sval fallible" where
  "key_param e cols k v =
     coerce e (case col_type (column_of cols k) of VarcharC _ \<Rightarrow> TextC | ty \<Rightarrow> ty) v"

definition hits :: "column list \<Rightarrow> bytes \<Rightarrow> sval \<Rightarrow> srow \<Rightarrow> bool" where
  "hits cols k v row \<longleftrightarrow> v \<noteq> SNull \<and> cell cols k row = v"

definition eval_expr :: "engine \<Rightarrow> sval list \<Rightarrow> expr \<Rightarrow> sval" where
  "eval_expr e ps x = (case x of Param n \<Rightarrow> param ps n | TrueE \<Rightarrow> SBool True | NowE \<Rightarrow> STime (current_time e))"

fun assignments :: "engine \<Rightarrow> sval list \<Rightarrow> column list \<Rightarrow> (bytes \<times> expr) list \<Rightarrow> (bytes \<times> sval) list fallible" where
  "assignments e ps cols [] = Inr []"
| "assignments e ps cols ((k, x) # as) =
     (let c = column_of cols k
      in if primary_key c \<or> unique_col c \<or> col_refs c \<noteq> None then Inl ''assignment to a key''
         else and_then (coerce e (col_type c) (eval_expr e ps x)) (\<lambda>v.
           if not_null c \<and> v = SNull then Inl (''null value in column '' @ k)
           else and_then (assignments e ps cols as) (\<lambda>vs. Inr ((k, v) # vs))))"

definition assign :: "column list \<Rightarrow> (bytes \<times> sval) list \<Rightarrow> srow \<Rightarrow> srow" where
  "assign cols vs row = fold (\<lambda>(k, v). set_cell cols k v) vs row"

text \<open>\<open>ON DELETE SET NULL\<close>, for the rows \<open>gone\<close> of table \<open>t\<close>.\<close>

definition cut_refs :: "schema \<Rightarrow> bytes \<Rightarrow> srow list \<Rightarrow> column list \<Rightarrow> srow \<Rightarrow> srow" where
  "cut_refs sch t gone cols row =
     map2 (\<lambda>c v. case col_refs c of
                   None \<Rightarrow> v
                 | Some (r, k) \<Rightarrow> if r = t \<and> v \<in> cell (columns_of sch t) k ` set gone then SNull else v) cols row"

definition int_param :: "sval \<Rightarrow> int" where
  "int_param v = (case v of SInt i \<Rightarrow> i | _ \<Rightarrow> 0)"

definition time_of :: "sval \<Rightarrow> int" where
  "time_of v = (case v of STime t \<Rightarrow> t | _ \<Rightarrow> 0)"

definition exec :: "schema \<Rightarrow> engine \<Rightarrow> sql \<Rightarrow> sval list \<Rightarrow> content \<Rightarrow> srow list fallible \<times> content" where
  "exec sch e s ps T =
     (case s of
        InsertInto t names \<Rightarrow>
          let cols = columns_of sch t; given = zip names ps;
              vals = map (\<lambda>c. case map_of given (col_name c) of
                                Some v \<Rightarrow> v | None \<Rightarrow> default_value e (col_default c)) cols
          in (case coerce_row e cols vals of
                Inl err \<Rightarrow> (Inl err, T)
              | Inr row \<Rightarrow>
                  (case null_error cols row of
                     Some err \<Rightarrow> (Inl err, T)
                   | None \<Rightarrow>
                       (case unique_error t cols (T t) row of
                          Some err \<Rightarrow> (Inl err, T)
                        | None \<Rightarrow>
                            (case reference_error sch T t cols row of
                               Some err \<Rightarrow> (Inl err, T)
                             | None \<Rightarrow> (Inr [row], T(t := T t @ [row]))))))
      | SelectWhere t k limit \<Rightarrow>
          let cols = columns_of sch t
          in (and_then (key_param e cols k (param ps 1)) (\<lambda>v.
                let rows = filter (hits cols k v) (T t)
                in Inr (case limit of None \<Rightarrow> rows | Some n \<Rightarrow> take n rows)), T)
      | SelectPage t k order \<Rightarrow>
          let cols = columns_of sch t; limit = int_param (param ps 2); offset = int_param (param ps 3)
          in (and_then (key_param e cols k (param ps 1)) (\<lambda>v.
                if limit < 0 then Inl ''LIMIT must not be negative''
                else if offset < 0 then Inl ''OFFSET must not be negative''
                else Inr (take (nat limit) (drop (nat offset)
                       (sort_key (\<lambda>r. - time_of (cell cols order r)) (filter (hits cols k v) (T t)))))), T)
      | UpdateWhere t as k \<Rightarrow>
          let cols = columns_of sch t
          in (case and_then (key_param e cols k (param ps 1)) (\<lambda>v.
                     and_then (assignments e ps cols as) (\<lambda>vs. Inr (v, vs))) of
                Inl err \<Rightarrow> (Inl err, T)
              | Inr (v, vs) \<Rightarrow>
                  (Inr (map (assign cols vs) (filter (hits cols k v) (T t))),
                   T(t := map (\<lambda>r. if hits cols k v r then assign cols vs r else r) (T t))))
      | DeleteWhere t k \<Rightarrow>
          let cols = columns_of sch t
          in (case key_param e cols k (param ps 1) of
                Inl err \<Rightarrow> (Inl err, T)
              | Inr v \<Rightarrow>
                  let gone = filter (hits cols k v) (T t); T = T(t := filter (\<lambda>r. \<not> hits cols k v r) (T t))
                  in (Inr [], \<lambda>u. map (cut_refs sch t gone (columns_of sch u)) (T u))))"

section \<open>The eight statements\<close>

definition createUser :: sql where
  "createUser = InsertInto ''users'' [''first_name'', ''last_name'', ''email'', ''password'']"

definition getUserByEmail :: sql where
  "getUserByEmail = SelectWhere ''users'' ''email'' (Some 1)"

definition getUserByID :: sql where
  "getUserByID = SelectWhere ''users'' ''id'' (Some 1)"

definition verifyUser :: sql where
  "verifyUser = UpdateWhere ''users'' [(''verified'', TrueE), (''updated_at'', NowE)] ''id''"

definition updateUserPassword :: sql where
  "updateUserPassword = UpdateWhere ''users'' [(''password'', Param 2), (''updated_at'', NowE)] ''id''"

definition deleteUser :: sql where
  "deleteUser = DeleteWhere ''users'' ''id''"

definition createAuditLog :: sql where
  "createAuditLog = InsertInto ''audit_logs''
     [''actor_user_id'', ''action'', ''entity'', ''metadata'', ''ip'', ''user_agent'']"

definition getAuditLogsByUser :: sql where
  "getAuditLogsByUser = SelectPage ''audit_logs'' ''actor_user_id'' ''created_at''"

end
