(* ===== verification/Sql_Refinement.thy ===== *)
theory Sql_Refinement
  imports Sql
begin

text \<open>
  The methods of \<open>Repository\<close> against the SQL they send: on the tables the migration creates, each
  does what the interpreter of \<open>Sql\<close> does with the statement.
\<close>

section \<open>Rows as the database has them\<close>

definition auth_tables :: schema where
  "auth_tables = tables (with_auth \<lparr>extensions = [], tables = [], indexes = []\<rparr>)"

definition uuid_val :: "pg_uuid \<Rightarrow> sval" where
  "uuid_val u = (if Valid u then SUuid (Bytes u) else SNull)"

definition text_val :: "bytes option \<Rightarrow> sval" where
  "text_val v = (case v of None \<Rightarrow> SNull | Some s \<Rightarrow> SText s)"

definition user_row :: "user \<Rightarrow> srow" where
  "user_row u =
     [uuid_val (u_ID u), SText (u_FirstName u), SText (u_LastName u), SText (u_Email u), SText (u_Password u),
      SBool (u_Verified u), STime (u_CreatedAt u), STime (u_UpdatedAt u)]"

definition audit_row :: "audit_log \<Rightarrow> srow" where
  "audit_row a =
     [uuid_val (a_ID a), uuid_val (a_ActorUserID a), SText (a_Action a), SText (a_Entity a),
      text_val (a_Metadata a), text_val (a_Ip a), text_val (a_UserAgent a), STime (a_CreatedAt a)]"

definition content_of :: "db \<Rightarrow> content" where
  "content_of d t =
     (if t = ''users'' then map user_row (users d)
      else if t = ''audit_logs'' then map audit_row (audit_logs d) else [])"

text \<open>\<open>QueryRow\<close> with \<open>Scan\<close> looks at the first row.\<close>

definition query_row :: "srow list fallible \<Rightarrow> srow fallible" where
  "query_row r = and_then r (\<lambda>rows. scan_one (case rows of [] \<Rightarrow> None | x # _ \<Rightarrow> Some x))"

text \<open>The key of every row is there.\<close>

definition keys_valid :: "db \<Rightarrow> bool" where
  "keys_valid d \<longleftrightarrow> (\<forall>u \<in> set (users d). Valid (u_ID u)) \<and> (\<forall>a \<in> set (audit_logs d). Valid (a_ID a))"

section \<open>The schema at work\<close>

lemma columns_auth [simp]:
  "columns_of auth_tables ''users'' = users_columns" "columns_of auth_tables ''audit_logs'' = audit_logs_columns"
  by (simp_all add: columns_of_def auth_tables_def with_auth_def)

lemmas column_defs = users_columns_def audit_logs_columns_def id_column_def required_def plain_def

lemma cells [simp]:
  "cell users_columns ''id'' (user_row u) = uuid_val (u_ID u)"
  "cell users_columns ''email'' (user_row u) = SText (u_Email u)"
  "cell audit_logs_columns ''id'' (audit_row a) = uuid_val (a_ID a)"
  "cell audit_logs_columns ''actor_user_id'' (audit_row a) = uuid_val (a_ActorUserID a)"
  "cell audit_logs_columns ''created_at'' (audit_row a) = STime (a_CreatedAt a)"
  by (simp_all add: column_defs user_row_def audit_row_def)

lemma contents [simp]:
  "content_of d ''users'' = map user_row (users d)" "content_of d ''audit_logs'' = map audit_row (audit_logs d)"
  by (simp_all add: content_of_def)

lemma uuid_val_simps [simp]:
  "uuid_val \<lparr>Bytes = b, Valid = True\<rparr> = SUuid b" "uuid_val u = SNull \<longleftrightarrow> \<not> Valid u"
  "uuid_val u = SUuid b \<longleftrightarrow> Valid u \<and> Bytes u = b" "SUuid b = uuid_val u \<longleftrightarrow> Valid u \<and> Bytes u = b"
  "uuid_val null_uuid = SNull"
  by (auto simp: uuid_val_def null_uuid_def)

lemma uuid_val_null [simp]: "\<not> Valid u \<Longrightarrow> uuid_val u = SNull"
  by (simp add: uuid_val_def)

lemma coerce_uuid [simp]: "coerce e UuidC (uuid_val u) = Inr (uuid_val u)"
  by (simp add: uuid_val_def)

lemma content_users_upd:
  "content_of (d\<lparr>users := us\<rparr>) = (content_of d)(''users'' := map user_row us)"
  "content_of (d\<lparr>audit_logs := ls\<rparr>) = (content_of d)(''audit_logs'' := map audit_row ls)"
  by (auto simp: content_of_def fun_eq_iff)

lemma key_in_table:
  assumes "keys_valid d"
  shows "SUuid b \<in> cell users_columns ''id'' ` user_row ` set (users d) \<longleftrightarrow> b \<in> Bytes ` u_ID ` set (users d)"
    and "SText s \<in> cell users_columns ''email'' ` user_row ` set (users d) \<longleftrightarrow> s \<in> u_Email ` set (users d)"
    and "SUuid b \<in> cell audit_logs_columns ''id'' ` audit_row ` set (audit_logs d)
           \<longleftrightarrow> b \<in> Bytes ` a_ID ` set (audit_logs d)"
  using assms by (force simp: keys_valid_def image_image image_iff)+

section \<open>Inserts\<close>

lemma createUser_refines:
  assumes "keys_valid d"
  shows "exec auth_tables \<lparr>gen_uuid = uuid, current_time = now, jsonb_in = jsonb\<rparr> createUser
       [SText (FirstName arg), SText (LastName arg), SText (Email arg), SText (Passwd arg)] (content_of d)
     = (case CreateUser None uuid now arg d of
          (Inl err, d') \<Rightarrow> (Inl err, content_of d') | (Inr u, d') \<Rightarrow> (Inr [user_row u], content_of d'))"
proof -
  let ?e = "\<lparr>gen_uuid = uuid, current_time = now, jsonb_in = jsonb\<rparr>"
  let ?vals = "[SUuid uuid, SText (FirstName arg), SText (LastName arg), SText (Email arg), SText (Passwd arg),
     SBool False, STime now, STime now]"
  have vals: "map (\<lambda>c. case map_of (zip [''first_name'', ''last_name'', ''email'', ''password'']
        [SText (FirstName arg), SText (LastName arg), SText (Email arg), SText (Passwd arg)]) (col_name c) of
      Some v \<Rightarrow> v | None \<Rightarrow> default_value ?e (col_default c)) users_columns = ?vals"
    by (simp add: column_defs default_value_def)
  have row: "coerce_row ?e users_columns ?vals
    = and_then (varchar 50 (FirstName arg)) (\<lambda>f. and_then (varchar 50 (LastName arg)) (\<lambda>l.
      and_then (varchar 100 (Email arg)) (\<lambda>m. and_then (varchar 255 (Passwd arg)) (\<lambda>p.
        Inr [SUuid uuid, SText f, SText l, SText m, SText p, SBool False, STime now, STime now]))))"
    by (simp add: column_defs and_then_def split: sum.split)
  have checks: "null_error users_columns r = None"
      "unique_error ''users'' users_columns (map user_row (users d)) r =
        (if uuid \<in> Bytes ` u_ID ` set (users d) then Some ''duplicate key users_pkey''
         else if m \<in> u_Email ` set (users d) then Some ''duplicate key users_email_key'' else None)"
      "reference_error auth_tables T ''users'' users_columns r = None"
    if "r = [SUuid uuid, SText f, SText l, SText m, SText p, SBool False, STime now, STime now]" for r f l m p T
  proof -
    show "null_error users_columns r = None"
      by (simp add: that null_error_def first_error_def column_defs)
    have "unique_error ''users'' users_columns (map user_row (users d)) r =
        (if SUuid uuid \<in> cell users_columns ''id'' ` user_row ` set (users d) then Some ''duplicate key users_pkey''
         else if SText m \<in> cell users_columns ''email'' ` user_row ` set (users d)
         then Some ''duplicate key users_email_key'' else None)"
      unfolding unique_error_def first_error_def that
      by (subst (2) users_columns_def) (simp add: id_column_def required_def plain_def)
    then show "unique_error ''users'' users_columns (map user_row (users d)) r =
        (if uuid \<in> Bytes ` u_ID ` set (users d) then Some ''duplicate key users_pkey''
         else if m \<in> u_Email ` set (users d) then Some ''duplicate key users_email_key'' else None)"
      by (simp only: key_in_table [OF assms])
    show "reference_error auth_tables T ''users'' users_columns r = None"
      by (simp add: that reference_error_def first_error_def column_defs)
  qed
  show ?thesis
    unfolding createUser_def exec_def sql.case Let_def columns_auth vals row CreateUser_def new_user_def option.case
    by (cases "varchar 50 (FirstName arg)"; cases "varchar 50 (LastName arg)";
        cases "varchar 100 (Email arg)"; cases "varchar 255 (Passwd arg)")
      (simp_all add: checks content_users_upd user_row_def)
qed

definition audit_params :: "CreateAuditLogParams \<Rightarrow> sval list" where
  "audit_params arg =
     [uuid_val (ca_ActorUserID arg), SText (ca_Action arg), SText (ca_Entity arg),
      text_val (ca_Metadata arg), text_val (ca_Ip arg), text_val (ca_UserAgent arg)]"

lemma coerce_text_val [simp]:
  "coerce e TextC (text_val v) = and_then (opt_col pg_text v) (\<lambda>v. Inr (text_val v))"
  "coerce e JsonbC (text_val v) = and_then (opt_col (jsonb_in e) v) (\<lambda>v. Inr (text_val v))"
  by (simp_all add: text_val_def opt_col_def and_then_def split: option.splits sum.splits)

lemma createAuditLog_refines:
  assumes "keys_valid d"
  shows "exec auth_tables \<lparr>gen_uuid = uuid, current_time = now, jsonb_in = jsonb\<rparr> createAuditLog
       (audit_params arg) (content_of d)
     = (case CreateAuditLog None jsonb uuid now arg d of
          (Inl err, d') \<Rightarrow> (Inl err, content_of d') | (Inr a, d') \<Rightarrow> (Inr [audit_row a], content_of d'))"
proof -
  let ?e = "\<lparr>gen_uuid = uuid, current_time = now, jsonb_in = jsonb\<rparr>"
  let ?actor = "uuid_val (ca_ActorUserID arg)"
  let ?vals = "[SUuid uuid, ?actor, SText (ca_Action arg), SText (ca_Entity arg),
      text_val (ca_Metadata arg), text_val (ca_Ip arg), text_val (ca_UserAgent arg), STime now]"
  have vals: "map (\<lambda>c. case map_of (zip [''actor_user_id'', ''action'', ''entity'', ''metadata'', ''ip'', ''user_agent'']
        (audit_params arg)) (col_name c) of
      Some v \<Rightarrow> v | None \<Rightarrow> default_value ?e (col_default c)) audit_logs_columns = ?vals"
    by (simp add: column_defs default_value_def audit_params_def)
  have row: "coerce_row ?e audit_logs_columns ?vals
    = and_then (pg_text (ca_Action arg)) (\<lambda>action. and_then (pg_text (ca_Entity arg)) (\<lambda>entity.
      and_then (opt_col jsonb (ca_Metadata arg)) (\<lambda>metadata. and_then (opt_col pg_text (ca_Ip arg)) (\<lambda>ip.
      and_then (opt_col pg_text (ca_UserAgent arg)) (\<lambda>ua.
        Inr [SUuid uuid, ?actor, SText action, SText entity, text_val metadata, text_val ip, text_val ua, STime now])))))"
    by (simp add: column_defs and_then_def split: sum.split)
  have checks: "null_error audit_logs_columns r = None"
      "unique_error ''audit_logs'' audit_logs_columns (map audit_row (audit_logs d)) r =
        (if uuid \<in> Bytes ` a_ID ` set (audit_logs d) then Some ''duplicate key audit_logs_pkey'' else None)"
      "reference_error auth_tables (content_of d) ''audit_logs'' audit_logs_columns r =
        (if Valid (ca_ActorUserID arg) \<and> Bytes (ca_ActorUserID arg) \<notin> Bytes ` u_ID ` set (users d)
         then Some ''foreign key audit_logs_actor_user_id_fkey'' else None)"
    if "r = [SUuid uuid, ?actor, SText action, SText entity, text_val metadata, text_val ip, text_val ua, STime now]"
    for r action entity metadata ip ua
  proof -
    show "null_error audit_logs_columns r = None"
      by (simp add: that null_error_def first_error_def column_defs)
    have "unique_error ''audit_logs'' audit_logs_columns (map audit_row (audit_logs d)) r =
        (if SUuid uuid \<in> cell audit_logs_columns ''id'' ` audit_row ` set (audit_logs d)
         then Some ''duplicate key audit_logs_pkey'' else None)"
      unfolding unique_error_def first_error_def that
      by (subst (2) audit_logs_columns_def) (simp add: id_column_def required_def plain_def)
    then show "unique_error ''audit_logs'' audit_logs_columns (map audit_row (audit_logs d)) r =
        (if uuid \<in> Bytes ` a_ID ` set (audit_logs d) then Some ''duplicate key audit_logs_pkey'' else None)"
      by (simp only: key_in_table [OF assms])
    have "reference_error auth_tables (content_of d) ''audit_logs'' audit_logs_columns r =
        (if ?actor \<noteq> SNull \<and> ?actor \<notin> cell users_columns ''id'' ` user_row ` set (users d)
         then Some ''foreign key audit_logs_actor_user_id_fkey'' else None)"
      unfolding reference_error_def first_error_def that
      by (subst audit_logs_columns_def) (simp add: id_column_def required_def plain_def)
    moreover have "?actor = SUuid (Bytes (ca_ActorUserID arg))" if "Valid (ca_ActorUserID arg)"
      using that by (simp add: uuid_val_def)
    ultimately show "reference_error auth_tables (content_of d) ''audit_logs'' audit_logs_columns r =
        (if Valid (ca_ActorUserID arg) \<and> Bytes (ca_ActorUserID arg) \<notin> Bytes ` u_ID ` set (users d)
         then Some ''foreign key audit_logs_actor_user_id_fkey'' else None)"
      by (cases "Valid (ca_ActorUserID arg)") (simp_all only: key_in_table [OF assms] uuid_val_simps not_True_eq_False
          not_False_eq_True sval.distinct HOL.simp_thms)
  qed
  show ?thesis
    unfolding createAuditLog_def exec_def sql.case Let_def columns_auth vals row CreateAuditLog_def new_audit_log_def
      option.case
    by (cases "pg_text (ca_Action arg)"; cases "pg_text (ca_Entity arg)"; cases "opt_col jsonb (ca_Metadata arg)";
        cases "opt_col pg_text (ca_Ip arg)"; cases "opt_col pg_text (ca_UserAgent arg)")
      (simp_all add: checks content_users_upd audit_row_def)
qed

section \<open>Lookups\<close>

lemma key_columns [simp]:
  "col_type (column_of users_columns ''id'') = UuidC"
  "col_type (column_of users_columns ''email'') = VarcharC 100"
  "col_type (column_of audit_logs_columns ''actor_user_id'') = UuidC"
  by (simp_all add: column_of_def column_defs)

lemma hits_rows [simp]:
  "hits users_columns ''id'' (uuid_val i) (user_row u) \<longleftrightarrow> Valid i \<and> Valid (u_ID u) \<and> Bytes (u_ID u) = Bytes i"
  "hits users_columns ''email'' (SText s) (user_row u) \<longleftrightarrow> u_Email u = s"
  "hits audit_logs_columns ''actor_user_id'' (uuid_val i) (audit_row a)
     \<longleftrightarrow> Valid i \<and> Valid (a_ActorUserID a) \<and> Bytes (a_ActorUserID a) = Bytes i"
  by (auto simp: hits_def uuid_val_def)

lemma find_filter: "find P xs = (case filter P xs of [] \<Rightarrow> None | x # _ \<Rightarrow> Some x)"
  by (induction xs) auto

lemma first_row:
  "query_row (Inr (take 1 (map f xs))) = scan_one (map_option f (case xs of [] \<Rightarrow> None | x # _ \<Rightarrow> Some x))"
  "query_row (Inr (map f xs)) = scan_one (map_option f (case xs of [] \<Rightarrow> None | x # _ \<Rightarrow> Some x))"
  by (cases xs; simp add: query_row_def)+

lemma scan_one_map: "scan_one (map_option f r) = map_sum id f (scan_one r)"
  by (cases r) (simp_all add: scan_one_def)

lemma getUserByEmail_refines:
  "map_sum id user_row (GetUserByEmail None m d) = query_row (fst (exec auth_tables e getUserByEmail [SText m] (content_of d)))
   \<and> snd (exec auth_tables e getUserByEmail [SText m] (content_of d)) = content_of d"
proof (cases "pg_text m")
  case (Inl err)
  then show ?thesis
    by (simp add: GetUserByEmail_def getUserByEmail_def exec_def param_def key_param_def query_row_def)
next
  case (Inr s)
  have "fst (exec auth_tables e getUserByEmail [SText m] (content_of d))
      = Inr (take 1 (map user_row (filter (\<lambda>u. u_Email u = s) (users d))))"
    by (simp add: getUserByEmail_def exec_def param_def key_param_def Inr filter_map o_def)
  moreover have "snd (exec auth_tables e getUserByEmail [SText m] (content_of d)) = content_of d"
    by (simp add: getUserByEmail_def exec_def Let_def)
  ultimately show ?thesis
    by (simp only: first_row scan_one_map find_filter [symmetric])
      (simp add: GetUserByEmail_def Inr)
qed

lemma getUserByID_refines:
  assumes "keys_valid d"
  shows "map_sum id user_row (GetUserByID None i d) = query_row (fst (exec auth_tables e getUserByID [uuid_val i] (content_of d)))
    \<and> snd (exec auth_tables e getUserByID [uuid_val i] (content_of d)) = content_of d"
proof -
  have "filter (\<lambda>u. Valid i \<and> Valid (u_ID u) \<and> Bytes (u_ID u) = Bytes i) (users d)
      = filter (\<lambda>u. Valid i \<and> Bytes (u_ID u) = Bytes i) (users d)"
    using assms by (intro filter_cong) (auto simp: keys_valid_def)
  then have "fst (exec auth_tables e getUserByID [uuid_val i] (content_of d))
      = Inr (take 1 (map user_row (filter (\<lambda>u. Valid i \<and> Bytes (u_ID u) = Bytes i) (users d))))"
    by (simp add: getUserByID_def exec_def param_def key_param_def filter_map o_def)
  moreover have "snd (exec auth_tables e getUserByID [uuid_val i] (content_of d)) = content_of d"
    by (simp add: getUserByID_def exec_def Let_def)
  ultimately show ?thesis
    by (simp only: first_row scan_one_map find_filter [symmetric]) (simp add: GetUserByID_def)
qed

lemma insort_key_map: "insort_key f (g x) (map g xs) = map g (insort_key (\<lambda>x. f (g x)) x xs)"
  by (induction xs) simp_all

lemma sort_key_map: "sort_key f (map g xs) = map g (sort_key (\<lambda>x. f (g x)) xs)"
  by (induction xs) (simp_all add: insort_key_map)

lemma getAuditLogsByUser_refines:
  "fst (exec auth_tables e getAuditLogsByUser
      [uuid_val (ga_ActorUserID arg), SInt (sint (ga_Limit arg)), SInt (sint (ga_Offset arg))] (content_of d))
     = map_sum id (map audit_row) (GetAuditLogsByUser None arg d)
   \<and> snd (exec auth_tables e getAuditLogsByUser
      [uuid_val (ga_ActorUserID arg), SInt (sint (ga_Limit arg)), SInt (sint (ga_Offset arg))] (content_of d)) = content_of d"
  by (simp add: getAuditLogsByUser_def exec_def param_def key_param_def GetAuditLogsByUser_def int_param_def
      filter_map o_def sort_key_map take_map drop_map time_of_def)

section \<open>Updates and deletions\<close>

lemma update_refines:
  assumes "keys_valid d" "param ps 1 = uuid_val i"
    and as: "assignments e ps users_columns as = Inr vs"
    and f: "\<And>u. assign users_columns vs (user_row u) = user_row (f u)"
  shows "query_row (fst (exec auth_tables e (UpdateWhere ''users'' as ''id'') ps (content_of d)))
      = map_sum id user_row (fst (update_user i f d))
    \<and> snd (exec auth_tables e (UpdateWhere ''users'' as ''id'') ps (content_of d))
      = content_of (snd (update_user i f d))"
proof -
  let ?hit = "\<lambda>u. Valid i \<and> Bytes (u_ID u) = Bytes i"
  have same: "filter (\<lambda>u. Valid i \<and> Valid (u_ID u) \<and> Bytes (u_ID u) = Bytes i) (users d) = filter ?hit (users d)"
    "map (\<lambda>u. if Valid i \<and> Valid (u_ID u) \<and> Bytes (u_ID u) = Bytes i then user_row (f u) else user_row u) (users d)
      = map (\<lambda>u. user_row (if ?hit u then f u else u)) (users d)"
    using assms(1) by (intro filter_cong map_cong; auto simp: keys_valid_def)+
  have "exec auth_tables e (UpdateWhere ''users'' as ''id'') ps (content_of d)
      = (Inr (map user_row (map f (filter ?hit (users d)))),
         (content_of d)(''users'' := map user_row (map (\<lambda>u. if ?hit u then f u else u) (users d))))"
    by (simp add: exec_def assms(2) [unfolded One_nat_def] key_param_def as filter_map o_def f same if_distrib [of "assign _ _"]
        cong: if_cong)
  moreover have "query_row (Inr (map user_row (map f xs)))
      = scan_one (map_option (\<lambda>u. user_row (f u)) (case xs of [] \<Rightarrow> None | x # _ \<Rightarrow> Some x))" for xs
    using first_row(2) [of "\<lambda>u. user_row (f u)" xs] by (simp add: o_def)
  ultimately show ?thesis
    by (simp only: fst_conv snd_conv find_filter [symmetric])
      (simp add: update_user_def Let_def content_users_upd scan_one_map [symmetric] option.map_comp o_def)
qed

lemma verifyUser_refines:
  assumes "keys_valid d" "current_time e = now"
  shows "query_row (fst (exec auth_tables e verifyUser [uuid_val i] (content_of d)))
      = map_sum id user_row (fst (VerifyUser None now i d))
    \<and> snd (exec auth_tables e verifyUser [uuid_val i] (content_of d)) = content_of (snd (VerifyUser None now i d))"
proof -
  have 1: "param [uuid_val i] 1 = uuid_val i" by (simp add: param_def)
  have 2: "assignments e [uuid_val i] users_columns [(''verified'', TrueE), (''updated_at'', NowE)]
      = Inr [(''verified'', SBool True), (''updated_at'', STime now)]"
    using assms(2) by (simp add: column_of_def column_defs eval_expr_def)
  from update_refines [OF assms(1) 1 2, of "\<lambda>u. u\<lparr>u_Verified := True, u_UpdatedAt := now\<rparr>"]
  show ?thesis
    unfolding verifyUser_def VerifyUser_def
    by (simp add: assign_def user_row_def column_defs)
qed

lemma updateUserPassword_refines:
  assumes "keys_valid d" "current_time e = now"
  shows "query_row (fst (exec auth_tables e updateUserPassword [uuid_val (up_ID arg), SText (up_Password arg)] (content_of d)))
      = map_sum id user_row (fst (UpdateUserPassword None now arg d))
    \<and> snd (exec auth_tables e updateUserPassword [uuid_val (up_ID arg), SText (up_Password arg)] (content_of d))
      = content_of (snd (UpdateUserPassword None now arg d))"
proof (cases "varchar 255 (up_Password arg)")
  case (Inl err)
  then have "assignments e [uuid_val (up_ID arg), SText (up_Password arg)] users_columns
      [(''password'', Param 2), (''updated_at'', NowE)] = Inl err"
    by (simp add: column_of_def column_defs eval_expr_def param_def)
  with Inl show ?thesis
    by (simp add: updateUserPassword_def exec_def param_def key_param_def UpdateUserPassword_def query_row_def)
next
  case (Inr pw)
  have 1: "param [uuid_val (up_ID arg), SText (up_Password arg)] 1 = uuid_val (up_ID arg)" by (simp add: param_def)
  have 2: "assignments e [uuid_val (up_ID arg), SText (up_Password arg)] users_columns
      [(''password'', Param 2), (''updated_at'', NowE)] = Inr [(''password'', SText pw), (''updated_at'', STime now)]"
    using assms(2) Inr by (simp add: column_of_def column_defs eval_expr_def param_def)
  from update_refines [OF assms(1) 1 2, of "\<lambda>u. u\<lparr>u_Password := pw, u_UpdatedAt := now\<rparr>"]
  show ?thesis
    unfolding updateUserPassword_def UpdateUserPassword_def
    by (simp add: Inr assign_def user_row_def column_defs)
qed

lemma cut_user_row [simp]: "cut_refs sch t gone users_columns (user_row u) = user_row u"
  by (simp add: cut_refs_def column_defs user_row_def)

lemma cut_audit_row:
  "cut_refs auth_tables ''users'' gone audit_logs_columns (audit_row a)
     = audit_row (if Valid (a_ActorUserID a) \<and> SUuid (Bytes (a_ActorUserID a)) \<in> cell users_columns ''id'' ` set gone
                  then a\<lparr>a_ActorUserID := null_uuid\<rparr> else a)"
proof -
  have "cut_refs auth_tables ''users'' gone audit_logs_columns (audit_row a)
      = [uuid_val (a_ID a),
         if uuid_val (a_ActorUserID a) \<in> cell users_columns ''id'' ` set gone then SNull else uuid_val (a_ActorUserID a),
         SText (a_Action a), SText (a_Entity a), text_val (a_Metadata a), text_val (a_Ip a), text_val (a_UserAgent a),
         STime (a_CreatedAt a)]"
    unfolding cut_refs_def by (subst audit_logs_columns_def) (simp add: id_column_def required_def plain_def audit_row_def)
  then show ?thesis
    by (cases "Valid (a_ActorUserID a)") (auto simp: audit_row_def uuid_val_def null_uuid_def)
qed

lemma deleteUser_refines:
  assumes "keys_valid d"
  shows "fst (exec auth_tables e deleteUser [uuid_val i] (content_of d)) = Inr []"
    and "snd (exec auth_tables e deleteUser [uuid_val i] (content_of d)) = content_of (snd (DeleteUser None i d))"
proof -
  let ?gone = "filter (hits users_columns ''id'' (uuid_val i)) (map user_row (users d))"
  have ex: "exec auth_tables e deleteUser [uuid_val i] (content_of d)
      = (Inr [], \<lambda>u. map (cut_refs auth_tables ''users'' ?gone (columns_of auth_tables u))
          (((content_of d)(''users'' := filter (\<lambda>r. \<not> hits users_columns ''id'' (uuid_val i) r) (map user_row (users d)))) u))"
    by (simp add: deleteUser_def exec_def param_def key_param_def Let_def)
  then show "fst (exec auth_tables e deleteUser [uuid_val i] (content_of d)) = Inr []" by simp
  have gone: "SUuid b \<in> cell users_columns ''id'' ` set ?gone
      \<longleftrightarrow> Valid i \<and> b = Bytes i \<and> Bytes i \<in> Bytes ` u_ID ` set (users d)" for b
    using assms by (force simp: keys_valid_def image_image image_iff)
  have "map (cut_refs auth_tables ''users'' ?gone (columns_of auth_tables u))
          (((content_of d)(''users'' := filter (\<lambda>r. \<not> hits users_columns ''id'' (uuid_val i) r) (map user_row (users d)))) u)
      = content_of (snd (DeleteUser None i d)) u" for u
  proof -
    consider "u = ''users''" | "u = ''audit_logs''" | "u \<noteq> ''users''" "u \<noteq> ''audit_logs''" by blast
    then show ?thesis
    proof cases
      case 1
      have "filter (\<lambda>u. \<not> (Valid i \<and> Valid (u_ID u) \<and> Bytes (u_ID u) = Bytes i)) (users d)
          = (if Valid i then filter (\<lambda>u. Bytes (u_ID u) \<noteq> Bytes i) (users d) else users d)"
        using assms by (auto simp: keys_valid_def intro!: filter_cong)
      with 1 show ?thesis
        by (simp add: DeleteUser_def filter_map o_def)
    next
      case 2
      have "map (cut_refs auth_tables ''users'' ?gone audit_logs_columns) (map audit_row (audit_logs d))
          = map audit_row (map (\<lambda>a. if Valid (a_ActorUserID a) \<and> Valid i \<and> Bytes (a_ActorUserID a) = Bytes i
              \<and> Bytes i \<in> Bytes ` u_ID ` set (users d) then a\<lparr>a_ActorUserID := null_uuid\<rparr> else a) (audit_logs d))"
        by (simp only: map_map o_def cut_audit_row gone)
      with 2 show ?thesis
        by (cases "Valid i") (simp_all add: DeleteUser_def)
    next
      case 3
      then show ?thesis by (simp add: content_of_def)
    qed
  qed
  with ex show "snd (exec auth_tables e deleteUser [uuid_val i] (content_of d)) = content_of (snd (DeleteUser None i d))"
    by (simp add: fun_eq_iff)
qed

section \<open>Every method does what its statement does\<close>

lemma keys_valid_update: "keys_valid d \<Longrightarrow> (\<And>u. u_ID (f u) = u_ID u) \<Longrightarrow> keys_valid (snd (update_user i f d))"
  by (auto simp: keys_valid_def update_user_def Let_def)

lemma keys_valid_stmt:
  assumes "keys_valid d"
  shows "keys_valid (exec_stmt st d)"
proof (cases st)
  case (CreateUserStmt fault uuid now arg)
  with assms show ?thesis
    by (cases rule: CreateUser_cases [of fault uuid now arg d]) (auto simp: keys_valid_def dest: new_user_Inr(2))
next
  case (VerifyUserStmt fault now uid)
  with assms show ?thesis by (cases fault) (simp_all add: VerifyUser_def keys_valid_update)
next
  case (UpdateUserPasswordStmt fault now arg)
  with assms show ?thesis
    by (cases fault; cases "varchar 255 (up_Password arg)") (simp_all add: UpdateUserPassword_def keys_valid_update)
next
  case (DeleteUserStmt fault uid)
  with assms show ?thesis by (cases fault) (auto simp: DeleteUser_def keys_valid_def)
next
  case (CreateAuditLogStmt fault jsonb uuid now arg)
  have "Valid (a_ID a)" if "new_audit_log jsonb uuid now arg d = Inr a" for a
    using that by (auto simp: new_audit_log_def and_then_eq_Inr split: if_splits)
  with CreateAuditLogStmt assms show ?thesis
    by (cases fault; cases "new_audit_log jsonb uuid now arg d") (auto simp: CreateAuditLog_def keys_valid_def)
qed

lemma keys_valid_reachable: "keys_valid (fold exec_stmt stmts empty_db)"
proof -
  have "keys_valid d \<Longrightarrow> keys_valid (fold exec_stmt stmts d)" for d
    by (induction stmts arbitrary: d) (simp_all add: keys_valid_stmt)
  moreover have "keys_valid empty_db" by (simp add: keys_valid_def empty_db_def)
  ultimately show ?thesis by blast
qed

text \<open>What a statement answers and leaves, and a method's result in the same terms.\<close>

definition run_sql :: "engine \<Rightarrow> sql \<Rightarrow> sval list \<Rightarrow> db \<Rightarrow> srow list fallible \<times> content" where
  "run_sql e s ps d = exec auth_tables e s ps (content_of d)"

definition one_row :: "srow list fallible \<times> content \<Rightarrow> srow fallible \<times> content" where
  "one_row = map_prod query_row id"

definition as_sql :: "('r \<Rightarrow> 's) \<Rightarrow> 'r fallible \<times> db \<Rightarrow> 's fallible \<times> content" where
  "as_sql f = map_prod (map_sum id f) content_of"

lemma one_row_case:
  "one_row (case x of (Inl err, d') \<Rightarrow> (Inl err, content_of d') | (Inr u, d') \<Rightarrow> (Inr [f u], content_of d'))
     = as_sql f x"
  by (cases x; cases "fst x") (auto simp: one_row_def as_sql_def query_row_def scan_one_def)

lemma statements_refine:
  fixes d uuid now jsonb
  defines "e \<equiv> \<lparr>gen_uuid = uuid, current_time = now, jsonb_in = jsonb\<rparr>"
  assumes ok: "keys_valid d"
  shows "one_row (run_sql e createUser [SText (FirstName cu), SText (LastName cu), SText (Email cu), SText (Passwd cu)] d)
      = as_sql user_row (CreateUser None uuid now cu d)
    \<and> one_row (run_sql e getUserByEmail [SText m] d) = as_sql user_row (GetUserByEmail None m d, d)
    \<and> one_row (run_sql e getUserByID [uuid_val i] d) = as_sql user_row (GetUserByID None i d, d)
    \<and> one_row (run_sql e verifyUser [uuid_val i] d) = as_sql user_row (VerifyUser None now i d)
    \<and> one_row (run_sql e updateUserPassword [uuid_val (up_ID up), SText (up_Password up)] d)
      = as_sql user_row (UpdateUserPassword None now up d)
    \<and> run_sql e deleteUser [uuid_val i] d = (Inr [], content_of (snd (DeleteUser None i d)))
    \<and> one_row (run_sql e createAuditLog (audit_params ca) d) = as_sql audit_row (CreateAuditLog None jsonb uuid now ca d)
    \<and> run_sql e getAuditLogsByUser
         [uuid_val (ga_ActorUserID ga), SInt (sint (ga_Limit ga)), SInt (sint (ga_Offset ga))] d
      = as_sql (map audit_row) (GetAuditLogsByUser None ga d, d)"
proof -
  have now: "current_time e = now" by (simp add: e_def)
  have 1: "one_row (run_sql e createUser [SText (FirstName cu), SText (LastName cu), SText (Email cu), SText (Passwd cu)] d)
      = as_sql user_row (CreateUser None uuid now cu d)"
    unfolding e_def run_sql_def createUser_refines [OF ok] by (rule one_row_case)
  have 7: "one_row (run_sql e createAuditLog (audit_params ca) d) = as_sql audit_row (CreateAuditLog None jsonb uuid now ca d)"
    unfolding e_def run_sql_def createAuditLog_refines [OF ok] by (rule one_row_case)
  have 6: "run_sql e deleteUser [uuid_val i] d = (Inr [], content_of (snd (DeleteUser None i d)))"
    using deleteUser_refines [OF ok, of e i] by (simp add: run_sql_def prod_eq_iff)
  show ?thesis
    using 1 6 7 getUserByEmail_refines [of m d e] getUserByID_refines [OF ok, of i e] verifyUser_refines [OF ok now, of i]
      updateUserPassword_refines [OF ok now, of up] getAuditLogsByUser_refines [of e ga d]
    by (simp add: run_sql_def one_row_def as_sql_def prod_eq_iff)
qed

text \<open>
  C10. The data layer is its SQL: on every state of the tables that the methods can bring about, each
  of the eight methods answers what its statement, run by the rules of the schema that the migration
  creates (types, defaults, NOT NULL, unique keys, the foreign key with ON DELETE SET NULL), answers,
  with the same error, and leaves the same rows behind.
\<close>
theorem queries_refine_sql:
  "let d = fold exec_stmt stmts empty_db; e = \<lparr>gen_uuid = uuid, current_time = now, jsonb_in = jsonb\<rparr> in
    one_row (run_sql e createUser [SText (FirstName cu), SText (LastName cu), SText (Email cu), SText (Passwd cu)] d)
      = as_sql user_row (CreateUser None uuid now cu d)
    \<and> one_row (run_sql e getUserByEmail [SText m] d) = as_sql user_row (GetUserByEmail None m d, d)
    \<and> one_row (run_sql e getUserByID [uuid_val i] d) = as_sql user_row (GetUserByID None i d, d)
    \<and> one_row (run_sql e verifyUser [uuid_val i] d) = as_sql user_row (VerifyUser None now i d)
    \<and> one_row (run_sql e updateUserPassword [uuid_val (up_ID up), SText (up_Password up)] d)
      = as_sql user_row (UpdateUserPassword None now up d)
    \<and> run_sql e deleteUser [uuid_val i] d = (Inr [], content_of (snd (DeleteUser None i d)))
    \<and> one_row (run_sql e createAuditLog (audit_params ca) d) = as_sql audit_row (CreateAuditLog None jsonb uuid now ca d)
    \<and> run_sql e getAuditLogsByUser
         [uuid_val (ga_ActorUserID ga), SInt (sint (ga_Limit ga)), SInt (sint (ga_Offset ga))] d
      = as_sql (map audit_row) (GetAuditLogsByUser None ga d, d)"
  unfolding Let_def by (rule statements_refine [OF keys_valid_reachable])

end
