(* ===== verification/Queries_Handle.thy ===== *)
theory Queries_Handle
  imports Sql_Refinement
begin

text \<open>
  \<open>server/internal/db/repository/db.go\<close>: the interface \<open>DBTX\<close> that a pool and a transaction both
  offer, the handle \<open>Queries\<close> over one, and the eight methods written over the interface, with the
  scanning of rows into structs.  What the methods of \<open>Repository\<close> say of the tables holds of them
  over any handle that keeps the contract \<open>dbtx\<close> of \<open>pgx\<close>.
\<close>

section \<open>Handles\<close>

record 'w DBTX =
  dbtx_Exec :: "sql \<Rightarrow> sval list \<Rightarrow> 'w \<Rightarrow> bytes option \<times> 'w"
  dbtx_Query :: "sql \<Rightarrow> sval list \<Rightarrow> 'w \<Rightarrow> srow list fallible \<times> 'w"
  dbtx_QueryRow :: "sql \<Rightarrow> sval list \<Rightarrow> 'w \<Rightarrow> srow fallible \<times> 'w"

record 'w Queries =
  q_db :: "'w DBTX"

definition NewQueries :: "'w DBTX \<Rightarrow> 'w Queries" where
  "NewQueries h = \<lparr>q_db = h\<rparr>"

definition WithTx :: "'v Queries \<Rightarrow> 'w DBTX \<Rightarrow> 'w Queries" where
  "WithTx q tx = \<lparr>q_db = tx\<rparr>"

definition WithPool :: "'w DBTX \<Rightarrow> 'w Queries" where
  "WithPool pool = \<lparr>q_db = pool\<rparr>"

section \<open>Scanning\<close>

definition scan_uuid :: "sval \<Rightarrow> pg_uuid fallible" where
  "scan_uuid v = (case v of SNull \<Rightarrow> Inr null_uuid | SUuid b \<Rightarrow> Inr \<lparr>Bytes = b, Valid = True\<rparr>
     | _ \<Rightarrow> Inl ''cannot scan'')"

definition scan_text :: "sval \<Rightarrow> bytes fallible" where
  "scan_text v = (case v of SText s \<Rightarrow> Inr s | _ \<Rightarrow> Inl ''cannot scan'')"

definition scan_opt :: "sval \<Rightarrow> bytes option fallible" where
  "scan_opt v = (case v of SNull \<Rightarrow> Inr None | SText s \<Rightarrow> Inr (Some s) | _ \<Rightarrow> Inl ''cannot scan'')"

definition scan_bool :: "sval \<Rightarrow> bool fallible" where
  "scan_bool v = (case v of SBool b \<Rightarrow> Inr b | _ \<Rightarrow> Inl ''cannot scan'')"

definition scan_time :: "sval \<Rightarrow> int fallible" where
  "scan_time v = (case v of STime t \<Rightarrow> Inr t | _ \<Rightarrow> Inl ''cannot scan'')"

fun scan_user :: "srow \<Rightarrow> user fallible" where
  "scan_user [i, f, l, m, p, v, c, u] =
     and_then (scan_uuid i) (\<lambda>i. and_then (scan_text f) (\<lambda>f. and_then (scan_text l) (\<lambda>l.
     and_then (scan_text m) (\<lambda>m. and_then (scan_text p) (\<lambda>p. and_then (scan_bool v) (\<lambda>v.
     and_then (scan_time c) (\<lambda>c. and_then (scan_time u) (\<lambda>u.
       Inr \<lparr>u_ID = i, u_FirstName = f, u_LastName = l, u_Email = m, u_Password = p, u_Verified = v,
           u_CreatedAt = c, u_UpdatedAt = u\<rparr>))))))))"
| "scan_user _ = Inl ''wrong number of columns''"

fun scan_audit :: "srow \<Rightarrow> audit_log fallible" where
  "scan_audit [i, u, a, n, m, p, g, c] =
     and_then (scan_uuid i) (\<lambda>i. and_then (scan_uuid u) (\<lambda>u. and_then (scan_text a) (\<lambda>a.
     and_then (scan_text n) (\<lambda>n. and_then (scan_opt m) (\<lambda>m. and_then (scan_opt p) (\<lambda>p.
     and_then (scan_opt g) (\<lambda>g. and_then (scan_time c) (\<lambda>c.
       Inr \<lparr>a_ID = i, a_ActorUserID = u, a_Action = a, a_Entity = n, a_Metadata = m, a_Ip = p,
           a_UserAgent = g, a_CreatedAt = c\<rparr>))))))))"
| "scan_audit _ = Inl ''wrong number of columns''"

definition scanned :: "('r \<Rightarrow> 's fallible) \<Rightarrow> 'r fallible \<times> 'w \<Rightarrow> 's fallible \<times> 'w" where
  "scanned scan = (\<lambda>(r, w). (and_then r scan, w))"

text \<open>The loop over \<open>rows.Next\<close>: the first row that cannot be scanned ends it.\<close>

fun scan_rows :: "(srow \<Rightarrow> 'r fallible) \<Rightarrow> srow list \<Rightarrow> 'r list fallible" where
  "scan_rows scan [] = Inr []"
| "scan_rows scan (r # rs) = and_then (scan r) (\<lambda>i. and_then (scan_rows scan rs) (\<lambda>items. Inr (i # items)))"

section \<open>The methods\<close>

definition q_CreateUser :: "'w Queries \<Rightarrow> CreateUserParams \<Rightarrow> 'w \<Rightarrow> user fallible \<times> 'w" where
  "q_CreateUser q arg w = scanned scan_user (dbtx_QueryRow (q_db q) createUser
     [SText (FirstName arg), SText (LastName arg), SText (Email arg), SText (Passwd arg)] w)"

definition q_GetUserByEmail :: "'w Queries \<Rightarrow> bytes \<Rightarrow> 'w \<Rightarrow> user fallible \<times> 'w" where
  "q_GetUserByEmail q email w = scanned scan_user (dbtx_QueryRow (q_db q) getUserByEmail [SText email] w)"

definition q_GetUserByID :: "'w Queries \<Rightarrow> pg_uuid \<Rightarrow> 'w \<Rightarrow> user fallible \<times> 'w" where
  "q_GetUserByID q i w = scanned scan_user (dbtx_QueryRow (q_db q) getUserByID [uuid_val i] w)"

definition q_VerifyUser :: "'w Queries \<Rightarrow> pg_uuid \<Rightarrow> 'w \<Rightarrow> user fallible \<times> 'w" where
  "q_VerifyUser q i w = scanned scan_user (dbtx_QueryRow (q_db q) verifyUser [uuid_val i] w)"

definition q_UpdateUserPassword :: "'w Queries \<Rightarrow> UpdateUserPasswordParams \<Rightarrow> 'w \<Rightarrow> user fallible \<times> 'w" where
  "q_UpdateUserPassword q arg w = scanned scan_user (dbtx_QueryRow (q_db q) updateUserPassword
     [uuid_val (up_ID arg), SText (up_Password arg)] w)"

definition q_DeleteUser :: "'w Queries \<Rightarrow> pg_uuid \<Rightarrow> 'w \<Rightarrow> bytes option \<times> 'w" where
  "q_DeleteUser q i w = dbtx_Exec (q_db q) deleteUser [uuid_val i] w"

definition q_CreateAuditLog :: "'w Queries \<Rightarrow> CreateAuditLogParams \<Rightarrow> 'w \<Rightarrow> audit_log fallible \<times> 'w" where
  "q_CreateAuditLog q arg w = scanned scan_audit (dbtx_QueryRow (q_db q) createAuditLog (audit_params arg) w)"

definition q_GetAuditLogsByUser ::
  "'w Queries \<Rightarrow> GetAuditLogsByUserParams \<Rightarrow> 'w \<Rightarrow> audit_log list fallible \<times> 'w" where
  "q_GetAuditLogsByUser q arg w = scanned (scan_rows scan_audit) (dbtx_Query (q_db q) getAuditLogsByUser
     [uuid_val (ga_ActorUserID arg), SInt (sint (ga_Limit arg)), SInt (sint (ga_Offset arg))] w)"

section \<open>Scanning gives the rows back\<close>

definition scannable :: "pg_uuid \<Rightarrow> bool" where
  "scannable u \<longleftrightarrow> Valid u \<or> u = null_uuid"

definition db_scannable :: "db \<Rightarrow> bool" where
  "db_scannable d \<longleftrightarrow> (\<forall>u \<in> set (users d). scannable (u_ID u))
     \<and> (\<forall>a \<in> set (audit_logs d). scannable (a_ID a) \<and> scannable (a_ActorUserID a))"

lemma scan_uuid_val: "scannable u \<Longrightarrow> scan_uuid (uuid_val u) = Inr u"
  by (auto simp: scannable_def scan_uuid_def uuid_val_def null_uuid_def)

lemma scan_opt_val: "scan_opt (text_val v) = Inr v"
  by (cases v) (simp_all add: scan_opt_def text_val_def)

lemma scan_user_row: "scannable (u_ID u) \<Longrightarrow> scan_user (user_row u) = Inr u"
  by (simp add: user_row_def scan_uuid_val scan_text_def scan_bool_def scan_time_def)

lemma scan_audit_row: "scannable (a_ID a) \<Longrightarrow> scannable (a_ActorUserID a) \<Longrightarrow> scan_audit (audit_row a) = Inr a"
  by (simp add: audit_row_def scan_uuid_val scan_text_def scan_opt_val scan_time_def)

lemma scan_rows_map: "(\<And>x. x \<in> set xs \<Longrightarrow> scan (f x) = Inr x) \<Longrightarrow> scan_rows scan (map f xs) = Inr xs"
  by (induction xs) simp_all

text \<open>What a method returns can be scanned.\<close>

lemma find_user: "find P xs = Some u \<Longrightarrow> u \<in> set xs"
  by (auto dest: find_Some_in_set)

lemma returned_scannable:
  assumes "db_scannable d"
  shows "fst (CreateUser fault uuid now cu d) = Inr u \<Longrightarrow> scannable (u_ID u)"
    and "GetUserByEmail fault m d = Inr u \<Longrightarrow> scannable (u_ID u)"
    and "GetUserByID fault i d = Inr u \<Longrightarrow> scannable (u_ID u)"
    and "fst (VerifyUser fault now i d) = Inr u \<Longrightarrow> scannable (u_ID u)"
    and "fst (UpdateUserPassword fault now up d) = Inr u \<Longrightarrow> scannable (u_ID u)"
proof -
  have *: "u \<in> set (users d) \<Longrightarrow> scannable (u_ID u)" for u using assms by (simp add: db_scannable_def)
  have upd: "fst (update_user i f d) = Inr u \<Longrightarrow> (\<And>u. u_ID (f u) = u_ID u) \<Longrightarrow> scannable (u_ID u)" for i f u
    by (auto simp: update_user_def Let_def dest!: find_user *)
  show "fst (CreateUser fault uuid now cu d) = Inr u \<Longrightarrow> scannable (u_ID u)"
    by (cases rule: CreateUser_cases [of fault uuid now cu d])
      (auto simp: scannable_def dest: new_user_Inr(2))
  show "GetUserByEmail fault m d = Inr u \<Longrightarrow> scannable (u_ID u)"
    by (auto simp: GetUserByEmail_Inr dest!: find_user *)
  show "GetUserByID fault i d = Inr u \<Longrightarrow> scannable (u_ID u)"
    by (auto simp: GetUserByID_Inr dest!: find_user *)
  show "fst (VerifyUser fault now i d) = Inr u \<Longrightarrow> scannable (u_ID u)"
    by (auto simp: VerifyUser_def split: option.splits dest!: upd)
  show "fst (UpdateUserPassword fault now up d) = Inr u \<Longrightarrow> scannable (u_ID u)"
    by (auto simp: UpdateUserPassword_def split: option.splits sum.splits dest!: upd)
qed

lemma new_audit_scannable:
  "new_audit_log jsonb uuid now ca d = Inr a \<Longrightarrow> scannable (a_ID a) \<and> scannable (a_ActorUserID a)"
  by (auto simp: new_audit_log_def and_then_eq_Inr scannable_def split: if_splits)

lemma audit_scannable:
  assumes "db_scannable d"
  shows "fst (CreateAuditLog fault jsonb uuid now ca d) = Inr a \<Longrightarrow> scannable (a_ID a) \<and> scannable (a_ActorUserID a)"
    and "GetAuditLogsByUser fault ga d = Inr as \<Longrightarrow> a \<in> set as \<Longrightarrow> scannable (a_ID a) \<and> scannable (a_ActorUserID a)"
  using assms new_audit_scannable
  by (auto simp: CreateAuditLog_def GetAuditLogsByUser_def db_scannable_def split: option.splits sum.splits if_splits
      dest!: in_set_takeD in_set_dropD)

lemma db_scannable_update:
  "db_scannable d \<Longrightarrow> (\<And>u. u_ID (f u) = u_ID u) \<Longrightarrow> db_scannable (snd (update_user i f d))"
  by (auto simp: db_scannable_def update_user_def Let_def)

lemma db_scannable_stmt:
  assumes "db_scannable d"
  shows "db_scannable (exec_stmt st d)"
proof (cases st)
  case (CreateUserStmt fault uuid now arg)
  with assms show ?thesis
    by (cases rule: CreateUser_cases [of fault uuid now arg d])
      (auto simp: db_scannable_def scannable_def dest: new_user_Inr(2))
next
  case (VerifyUserStmt fault now uid)
  with assms show ?thesis by (cases fault) (simp_all add: VerifyUser_def db_scannable_update)
next
  case (UpdateUserPasswordStmt fault now arg)
  with assms show ?thesis
    by (cases fault; cases "varchar 255 (up_Password arg)") (simp_all add: UpdateUserPassword_def db_scannable_update)
next
  case (DeleteUserStmt fault uid)
  with assms show ?thesis by (cases fault) (auto simp: DeleteUser_def db_scannable_def scannable_def)
next
  case (CreateAuditLogStmt fault jsonb uuid now arg)
  with assms new_audit_scannable [of jsonb uuid now arg d] show ?thesis
    by (cases fault; cases "new_audit_log jsonb uuid now arg d") (auto simp: CreateAuditLog_def db_scannable_def)
qed

lemma db_scannable_reachable: "db_scannable (fold exec_stmt stmts empty_db)"
proof -
  have "db_scannable d \<Longrightarrow> db_scannable (fold exec_stmt stmts d)" for d
    by (induction stmts arbitrary: d) (simp_all add: db_scannable_stmt)
  moreover have "db_scannable empty_db" by (simp add: db_scannable_def empty_db_def)
  ultimately show ?thesis by blast
qed

section \<open>The interface\<close>

text \<open>
  \<open>implements\<close>: called in the state \<open>w\<close> of a handle, where it sees the tables \<open>d\<close>, each of the eight
  methods returns what \<open>Repository\<close> has it return; a call that returns no error leaves the handle
  usable and seeing the tables as \<open>Repository\<close> has them afterwards.  What an error leaves behind is the
  handle's own affair.
\<close>

definition agrees :: "('w \<Rightarrow> bool) \<Rightarrow> ('w \<Rightarrow> content) \<Rightarrow> 'r fallible \<times> db \<Rightarrow> 'r fallible \<times> 'w \<Rightarrow> bool" where
  "agrees usable view m h \<longleftrightarrow> fst h = fst m
     \<and> (case fst m of Inl _ \<Rightarrow> True | Inr _ \<Rightarrow> usable (snd h) \<and> view (snd h) = content_of (snd m))"

definition agrees_exec :: "('w \<Rightarrow> bool) \<Rightarrow> ('w \<Rightarrow> content) \<Rightarrow> bytes option \<times> db \<Rightarrow> bytes option \<times> 'w \<Rightarrow> bool" where
  "agrees_exec usable view m h \<longleftrightarrow> fst h = fst m
     \<and> (case fst m of Some _ \<Rightarrow> True | None \<Rightarrow> usable (snd h) \<and> view (snd h) = content_of (snd m))"

definition implements :: "('w \<Rightarrow> bool) \<Rightarrow> ('w \<Rightarrow> content) \<Rightarrow> 'w Queries \<Rightarrow> engine \<Rightarrow> db \<Rightarrow> 'w \<Rightarrow> bool" where
  "implements usable view q e d w \<longleftrightarrow>
     (let uuid = gen_uuid e; now = current_time e
      in (\<forall>cu. agrees usable view (CreateUser None uuid now cu d) (q_CreateUser q cu w))
       \<and> (\<forall>m. agrees usable view (GetUserByEmail None m d, d) (q_GetUserByEmail q m w))
       \<and> (\<forall>i. agrees usable view (GetUserByID None i d, d) (q_GetUserByID q i w))
       \<and> (\<forall>i. agrees usable view (VerifyUser None now i d) (q_VerifyUser q i w))
       \<and> (\<forall>up. agrees usable view (UpdateUserPassword None now up d) (q_UpdateUserPassword q up w))
       \<and> (\<forall>i. agrees_exec usable view (DeleteUser None i d) (q_DeleteUser q i w))
       \<and> (\<forall>ca. agrees usable view (CreateAuditLog None (jsonb_in e) uuid now ca d) (q_CreateAuditLog q ca w))
       \<and> (\<forall>ga. agrees usable view (GetAuditLogsByUser None ga d, d) (q_GetAuditLogsByUser q ga w)))"

text \<open>
  What the methods need of a handle, and \<open>pgx\<close> documents for a pool, a connection and a transaction:
  while the handle is usable (connected, not closed, not in a transaction that a failed statement has
  aborted) a statement is run by the server on the tables the handle sees, and a statement that the
  server does not refuse leaves it usable.  Nothing is said of the states after a refusal.
\<close>

locale dbtx =
  fixes db :: "'w DBTX" and eng :: "'w \<Rightarrow> engine" and usable :: "'w \<Rightarrow> bool" and view :: "'w \<Rightarrow> content"
  assumes exec_law: "usable w \<Longrightarrow> exec auth_tables (eng w) s ps (view w) = (r, T) \<Longrightarrow>
      fst (dbtx_Exec db s ps w) = (case r of Inl err \<Rightarrow> Some err | Inr _ \<Rightarrow> None)
      \<and> (r = Inr rows \<longrightarrow> usable (snd (dbtx_Exec db s ps w)) \<and> view (snd (dbtx_Exec db s ps w)) = T)"
    and query_law: "usable w \<Longrightarrow> exec auth_tables (eng w) s ps (view w) = (r, T) \<Longrightarrow>
      fst (dbtx_Query db s ps w) = r
      \<and> (r = Inr rows \<longrightarrow> usable (snd (dbtx_Query db s ps w)) \<and> view (snd (dbtx_Query db s ps w)) = T)"
    and query_row_law: "usable w \<Longrightarrow> exec auth_tables (eng w) s ps (view w) = (r, T) \<Longrightarrow>
      fst (dbtx_QueryRow db s ps w) = query_row r
      \<and> (r = Inr rows \<longrightarrow> usable (snd (dbtx_QueryRow db s ps w)) \<and> view (snd (dbtx_QueryRow db s ps w)) = T)"
begin

lemma query_row_scanned:
  assumes "usable w" "view w = content_of d" "one_row (run_sql (eng w) s ps d) = as_sql f x"
    and "\<And>r. fst x = Inr r \<Longrightarrow> scan (f r) = Inr r"
  shows "agrees usable view x (scanned scan (dbtx_QueryRow db s ps w))"
proof -
  obtain r T where x: "exec auth_tables (eng w) s ps (view w) = (r, T)" by fastforce
  obtain h w' where h: "dbtx_QueryRow db s ps w = (h, w')" by fastforce
  have "query_row r = map_sum id f (fst x)" "T = content_of (snd x)"
    using assms(3) x by (simp_all add: run_sql_def one_row_def as_sql_def assms(2) prod_eq_iff)
  moreover have "query_row r = Inr row \<Longrightarrow> \<exists>rows. r = Inr rows" for row
    by (cases r) (simp_all add: query_row_def)
  ultimately show ?thesis
    using query_row_law [OF assms(1) x] h assms(4)
    by (cases "fst x") (auto simp: agrees_def scanned_def)
qed

lemma implemented:
  assumes "usable w" "view w = content_of (fold exec_stmt stmts empty_db)"
  shows "implements usable view (NewQueries db) (eng w) (fold exec_stmt stmts empty_db) w"
proof -
  let ?d = "fold exec_stmt stmts empty_db"
  let ?e = "eng w"
  have e: "\<lparr>gen_uuid = gen_uuid ?e, current_time = current_time ?e, jsonb_in = jsonb_in ?e\<rparr> = ?e" by simp
  note sql = statements_refine [OF keys_valid_reachable [of stmts], where uuid = "gen_uuid ?e" and now = "current_time ?e"
      and jsonb = "jsonb_in ?e", unfolded e]
  note row = query_row_scanned [OF assms]
  note user = row [of _ _ user_row _ scan_user] and come_back = scan_user_row returned_scannable [OF db_scannable_reachable]
  note simps = NewQueries_def Queries.select_convs
  show ?thesis
    unfolding implements_def Let_def
  proof (intro conjI allI)
    show "agrees usable view (CreateUser None (gen_uuid ?e) (current_time ?e) cu ?d) (q_CreateUser (NewQueries db) cu w)" for cu
      unfolding q_CreateUser_def simps using sql by (intro user) (auto intro: come_back)
    show "agrees usable view (GetUserByEmail None m ?d, ?d) (q_GetUserByEmail (NewQueries db) m w)" for m
      unfolding q_GetUserByEmail_def simps using sql by (intro user) (auto intro: come_back)
    show "agrees usable view (GetUserByID None i ?d, ?d) (q_GetUserByID (NewQueries db) i w)" for i
      unfolding q_GetUserByID_def simps using sql by (intro user) (auto intro: come_back)
    show "agrees usable view (VerifyUser None (current_time ?e) i ?d) (q_VerifyUser (NewQueries db) i w)" for i
      unfolding q_VerifyUser_def simps using sql by (intro user) (auto intro: come_back)
    show "agrees usable view (UpdateUserPassword None (current_time ?e) up ?d) (q_UpdateUserPassword (NewQueries db) up w)" for up
      unfolding q_UpdateUserPassword_def simps using sql by (intro user) (auto intro: come_back)
    show "agrees usable view (CreateAuditLog None (jsonb_in ?e) (gen_uuid ?e) (current_time ?e) ca ?d)
        (q_CreateAuditLog (NewQueries db) ca w)" for ca
      unfolding q_CreateAuditLog_def simps
      using sql by (intro row [of _ _ audit_row])
        (auto intro: scan_audit_row dest: audit_scannable(1) [OF db_scannable_reachable])
    show "agrees_exec usable view (DeleteUser None i ?d) (q_DeleteUser (NewQueries db) i w)" for i
    proof -
      have "exec auth_tables ?e deleteUser [uuid_val i] (view w) = (Inr [], content_of (snd (DeleteUser None i ?d)))"
        using sql by (simp add: run_sql_def assms(2))
      note exec_law [OF assms(1) this]
      moreover have "fst (DeleteUser None i ?d) = None" by (simp add: DeleteUser_def)
      ultimately show ?thesis by (simp add: q_DeleteUser_def NewQueries_def agrees_exec_def)
    qed
    show "agrees usable view (GetAuditLogsByUser None ga ?d, ?d) (q_GetAuditLogsByUser (NewQueries db) ga w)" for ga
    proof -
      let ?ps = "[uuid_val (ga_ActorUserID ga), SInt (sint (ga_Limit ga)), SInt (sint (ga_Offset ga))]"
      have "exec auth_tables ?e getAuditLogsByUser ?ps (view w)
        = (map_sum id (map audit_row) (GetAuditLogsByUser None ga ?d), content_of ?d)"
        using sql by (simp add: run_sql_def as_sql_def assms(2))
      note law = query_law [OF assms(1) this]
      have scan: "scan_rows scan_audit (map audit_row as) = Inr as" if "GetAuditLogsByUser None ga ?d = Inr as" for as
        using audit_scannable(2) [OF db_scannable_reachable that] by (intro scan_rows_map scan_audit_row) simp_all
      obtain h w' where h: "dbtx_Query db getAuditLogsByUser ?ps w = (h, w')" by fastforce
      show ?thesis
        using law scan h
        by (cases "GetAuditLogsByUser None ga ?d")
          (simp_all add: q_GetAuditLogsByUser_def NewQueries_def scanned_def agrees_def)
    qed
  qed
qed

end

section \<open>A transaction\<close>

text \<open>
  The contract can be kept: a transaction of PostgreSQL, whose state is the tables committed by
  others, its own view, and whether a failed statement has aborted it; an aborted transaction refuses
  every further statement.
\<close>

record transaction =
  tx_committed :: content
  tx_view :: content
  tx_aborted :: bool

definition tx_refusal :: bytes where
  "tx_refusal = ''current transaction is aborted, commands ignored until end of transaction block''"

definition tx_run :: "engine \<Rightarrow> sql \<Rightarrow> sval list \<Rightarrow> transaction \<Rightarrow> srow list fallible \<times> transaction" where
  "tx_run e s ps x =
     (if tx_aborted x then (Inl tx_refusal, x)
      else case exec auth_tables e s ps (tx_view x) of
             (Inl err, _) \<Rightarrow> (Inl err, x\<lparr>tx_aborted := True\<rparr>)
           | (Inr rows, T) \<Rightarrow> (Inr rows, x\<lparr>tx_view := T\<rparr>))"

definition tx_handle :: "engine \<Rightarrow> transaction DBTX" where
  "tx_handle e =
     \<lparr>dbtx_Exec = (\<lambda>s ps x. map_prod (\<lambda>r. case r of Inl err \<Rightarrow> Some err | Inr _ \<Rightarrow> None) id (tx_run e s ps x)),
      dbtx_Query = tx_run e,
      dbtx_QueryRow = (\<lambda>s ps x. map_prod query_row id (tx_run e s ps x))\<rparr>"

interpretation tx: dbtx "tx_handle e" "\<lambda>_. e" "\<lambda>x. \<not> tx_aborted x" tx_view for e
  by unfold_locales (auto simp: tx_handle_def tx_run_def query_row_def split: sum.splits prod.splits)

text \<open>
  C19. The handles: over any handle that keeps the contract \<open>dbtx\<close>, in any state in which it is usable
  and sees tables that the statements can have produced, each of the eight methods, written against
  the interface \<open>DBTX\<close> and scanning the rows it gets, returns what the data layer's model has it
  return; and where that is no error, the handle is usable afterwards and sees the tables the model
  has.  This holds of \<open>WithPool\<close> and of \<open>WithTx\<close>, which keeps nothing of the handle it is called on.
\<close>
theorem handles_implement:
  assumes "dbtx db eng usable view"
    and "usable w" "view w = content_of (fold exec_stmt stmts empty_db)"
  shows "implements usable view (WithPool db) (eng w) (fold exec_stmt stmts empty_db) w
   \<and> implements usable view (WithTx q db) (eng w) (fold exec_stmt stmts empty_db) w"
  using dbtx.implemented [OF assms] by (simp add: WithPool_def WithTx_def NewQueries_def)

theorem handles_implement_witness:
  "implements (\<lambda>x. \<not> tx_aborted x) tx_view
     (WithTx (WithPool (tx_handle \<lparr>gen_uuid = [], current_time = 0, jsonb_in = Inr\<rparr>))
        (tx_handle \<lparr>gen_uuid = [CHR ''u''], current_time = 5, jsonb_in = Inr\<rparr>))
     \<lparr>gen_uuid = [CHR ''u''], current_time = 5, jsonb_in = Inr\<rparr> empty_db
     \<lparr>tx_committed = (\<lambda>_. []), tx_view = content_of empty_db, tx_aborted = False\<rparr>"
  using handles_implement [OF tx.dbtx_axioms,
      of "\<lparr>tx_committed = (\<lambda>_. []), tx_view = content_of empty_db, tx_aborted = False\<rparr>" "[]"
        "\<lparr>gen_uuid = [CHR ''u''], current_time = 5, jsonb_in = Inr\<rparr>"
        "WithPool (tx_handle \<lparr>gen_uuid = [], current_time = 0, jsonb_in = Inr\<rparr>)"]
  by simp

end
