(* ===== verification/Migration_Files.thy ===== *)
theory Migration_Files
  imports Web
begin

text \<open>
  \<open>MigrationsFS\<close> of both builds: \<open>fs_prod.go\<close> over the files embedded by its \<open>go:embed\<close> pattern, and
  \<open>fs_dev.go\<close> over the disk.  A file system is a map from paths, as in \<open>Web\<close>; the disk is that of the
  repository, and reading it does not fail.
\<close>

definition migrations_dir :: bytes where
  "migrations_dir = ''server/internal/db/migrations''"

text \<open>The pattern \<open>server/internal/db/migrations/*.sql\<close>: the files, and the directories above them.\<close>

definition matches_sql :: "bytes \<Rightarrow> bool" where
  "matches_sql p \<longleftrightarrow> prefix (migrations_dir @ ''/'') p \<and> suffix ''.sql'' p
     \<and> CHR ''/'' \<notin> set (trim_prefix p (migrations_dir @ ''/''))"

definition embed_sql :: "(bytes \<rightharpoonup> fs_entry) \<Rightarrow> bytes \<rightharpoonup> fs_entry" where
  "embed_sql disk p =
     (if p \<in> {''.'', ''server'', ''server/internal'', ''server/internal/db'', migrations_dir} then Some FsDir
      else if matches_sql p then disk p else None)"

definition MigrationsFS :: "(bytes \<rightharpoonup> fs_entry) \<Rightarrow> (bytes \<rightharpoonup> fs_entry) fallible" where
  "MigrationsFS migrationsFS =
     (case fs_open migrationsFS migrations_dir of
        None \<Rightarrow> Inl ''migrations directory not found in embedded filesystem''
      | Some _ \<Rightarrow> Inr migrationsFS)"

definition DirFS :: "(bytes \<rightharpoonup> fs_entry) \<Rightarrow> bytes \<Rightarrow> bytes \<rightharpoonup> fs_entry" where
  "DirFS disk dir name = disk (if name = ''.'' then dir else dir @ ''/'' @ name)"

definition MigrationsFS_dev :: "(bytes \<rightharpoonup> fs_entry) \<Rightarrow> (bytes \<rightharpoonup> fs_entry) fallible" where
  "MigrationsFS_dev disk =
     (case disk migrations_dir of
        None \<Rightarrow> Inl (''migrations directory not found on disk: '' @ migrations_dir)
      | Some _ \<Rightarrow> Inr (DirFS disk migrations_dir))"

lemma split_byte_app:
  "split_byte c (x @ [c] @ y) = split_byte c x @ split_byte c y"
  by (induction x) (auto split: list.splits)

lemma valid_path_dir: "valid_path migrations_dir"
  by code_simp

lemma utf8_chars_ascii_append: "ascii p \<Longrightarrow> utf8_chars (p @ s) = map_option ((@) (map (\<lambda>c. [c]) p)) (utf8_chars s)"
proof (induction p)
  case Nil
  show ?case by (cases "utf8_chars s") simp_all
next
  case (Cons c p)
  then have "utf8_head (c # p @ s) = 1" "ascii p"
    by (auto simp: utf8_head_def utf8_len_def ascii_def)
  with Cons.IH show ?case
    by (simp add: utf8_chars.simps [of "c # p @ s"] option.map_comp o_def)
qed

text \<open>A path below the directory is valid where the rest of it is.\<close>

lemma valid_path_below:
  assumes "valid_path n" "n \<noteq> ''.''"
  shows "valid_path (migrations_dir @ ''/'' @ n)"
proof -
  have "ascii (migrations_dir @ ''/'')" by code_simp
  from utf8_chars_ascii_append [OF this, of n] assms(1) have "utf8_chars (migrations_dir @ ''/'' @ n) \<noteq> None"
    by (auto simp: valid_path_def)
  moreover have "split_byte (CHR ''/'') (migrations_dir @ ''/'' @ n)
      = split_byte (CHR ''/'') migrations_dir @ split_byte (CHR ''/'') n"
    by (rule split_byte_app)
  moreover have "\<forall>e \<in> set (split_byte (CHR ''/'') migrations_dir). e \<notin> {[], ''.'', ''..''}" by code_simp
  ultimately show ?thesis using assms by (auto simp: valid_path_def)
qed

lemma not_an_ancestor:
  "migrations_dir @ ''/'' @ n \<notin> {''.'', ''server'', ''server/internal'', ''server/internal/db'', migrations_dir}"
  by (simp add: migrations_dir_def)

text \<open>
  The two builds hand out different roots: for every migration file \<open>n\<close>, the development file
  system has it at \<open>n\<close>, the embedded one at its path from the top of the repository only, with the
  same content; at \<open>n\<close> it has nothing.  So code that passes either \<open>directly\<close> to a migration
  driver finds the files in one of the builds.
\<close>
theorem migration_roots_differ:
  assumes "disk migrations_dir = Some FsDir"
    and "valid_path n" "suffix ''.sql'' n" "CHR ''/'' \<notin> set n"
  shows "\<exists>dev prod. MigrationsFS_dev disk = Inr dev \<and> MigrationsFS (embed_sql disk) = Inr prod
    \<and> fs_open dev n = fs_open prod (migrations_dir @ ''/'' @ n) \<and> fs_open prod n = None"
proof -
  have n: "n \<noteq> ''.''" "n \<notin> {''.'', ''server'', ''server/internal'', ''server/internal/db'', migrations_dir}"
    using assms(3) by (auto simp: suffix_def migrations_dir_def)
  have "matches_sql (migrations_dir @ ''/'' @ n)"
    using assms(3,4) suffix_append [of "''.sql''" "migrations_dir @ ''/''" n] trim_prefix_append [of "migrations_dir @ ''/''" n]
    by (simp add: matches_sql_def)
  then have "embed_sql disk (migrations_dir @ ''/'' @ n) = disk (migrations_dir @ ''/'' @ n)"
    using not_an_ancestor [of n] by (simp only: embed_sql_def if_False if_True)
  then have same: "fs_open (DirFS disk migrations_dir) n = fs_open (embed_sql disk) (migrations_dir @ ''/'' @ n)"
    using n(1) assms(2) valid_path_below [OF assms(2) n(1)] by (simp add: fs_open_def DirFS_def)
  have "\<not> matches_sql n"
  proof
    assume "matches_sql n"
    then have "CHR ''/'' \<in> set n" by (auto simp: matches_sql_def prefix_def)
    with assms(4) show False by simp
  qed
  then have "fs_open (embed_sql disk) n = None"
    using n(2) by (simp only: fs_open_def embed_sql_def if_False) simp
  moreover have "MigrationsFS (embed_sql disk) = Inr (embed_sql disk)"
    by (simp add: MigrationsFS_def fs_open_def valid_path_dir embed_sql_def)
  moreover have "MigrationsFS_dev disk = Inr (DirFS disk migrations_dir)"
    by (simp add: MigrationsFS_dev_def assms(1))
  ultimately show ?thesis using same by blast
qed

theorem migration_roots_differ_witness:
  "\<exists>dev prod. MigrationsFS_dev (\<lambda>p. if suffix ''.sql'' p then Some (FsFile ''CREATE'') else Some FsDir) = Inr dev
     \<and> MigrationsFS (embed_sql (\<lambda>p. if suffix ''.sql'' p then Some (FsFile ''CREATE'') else Some FsDir)) = Inr prod
     \<and> fs_open dev ''000001_init_auth.up.sql'' = Some (FsFile ''CREATE'')
     \<and> fs_open prod ''000001_init_auth.up.sql'' = None"
proof -
  let ?disk = "\<lambda>p. if suffix ''.sql'' p then Some (FsFile ''CREATE'') else Some FsDir" and ?n = "''000001_init_auth.up.sql''"
  have 1: "?disk migrations_dir = Some FsDir" by code_simp
  have 2: "valid_path ?n" "suffix ''.sql'' ?n" "CHR ''/'' \<notin> set ?n" by code_simp+
  obtain dev prod where w: "MigrationsFS_dev ?disk = Inr dev" "MigrationsFS (embed_sql ?disk) = Inr prod"
    "fs_open prod ?n = None"
    using migration_roots_differ [where disk = ?disk, OF 1 2] by blast
  have "dev = DirFS ?disk migrations_dir" using w(1) 1 by (simp add: MigrationsFS_dev_def)
  moreover have "?disk (migrations_dir @ ''/'' @ ?n) = Some (FsFile ''CREATE'')" by code_simp
  ultimately have "fs_open dev ?n = Some (FsFile ''CREATE'')" using 2(1) by (simp add: fs_open_def DirFS_def)
  with w show ?thesis by blast
qed

end
