(* ===== verification/Settlement.thy ===== *)
theory Settlement
  imports Concurrent
begin

text \<open>
  Liveness of the whole server: its own work, the steps of the registrations under way, the pending
  audit writes and the workers' turns, ends under every schedule, and where none is left every account
  has been welcomed.  The measure gives each piece of work the number of steps it can still cause.
\<close>

section \<open>The server's own work\<close>

definition finished :: "task \<Rightarrow> bool" where
  "finished t \<longleftrightarrow> (case tk_stage t of Replied _ \<Rightarrow> True | Lost \<Rightarrow> True | _ \<Rightarrow> False)"

text \<open>Nothing arrives, no connection is lost, no worker is told to stop.\<close>

inductive work_step ::
  "server_bus \<Rightarrow> (bytes \<Rightarrow> bytes) \<Rightarrow> (bytes \<Rightarrow> bytes) \<Rightarrow> sys \<times> task list \<Rightarrow> sys \<times> task list \<Rightarrow> bool"
  for bus esyn etyp where
  moves: "i < length ts \<Longrightarrow> \<not> finished (ts ! i) \<Longrightarrow> task_step bus (ts ! i, w) = (t, w') \<Longrightarrow>
    work_step bus esyn etyp (w, ts) (w', ts[i := t])"
| audits: "k < length (s_audit w) \<Longrightarrow>
    work_step bus esyn etyp (w, ts)
      (write_audit_log out (s_audit w ! k) (w\<lparr>s_audit := take k (s_audit w) @ drop (Suc k) (s_audit w)\<rparr>), ts)"
| delivers: "chan (s_broker w) = Consuming \<Longrightarrow> ready (s_broker w) \<noteq> [] \<Longrightarrow>
    work_step bus esyn etyp (w, ts) (w\<lparr>s_broker := deliver_next (s_broker w)\<rparr>, ts)"
| receives: "i < length (workers (s_broker w)) \<Longrightarrow> workers (s_broker w) ! i = Idle \<Longrightarrow> inbox (s_broker w) \<noteq> [] \<Longrightarrow>
    work_step bus esyn etyp (w, ts) (w\<lparr>s_broker := receive_msg i (s_broker w)\<rparr>, ts)"
| processes: "i < length (workers (s_broker w)) \<Longrightarrow> workers (s_broker w) ! i = Busy tag body \<Longrightarrow>
    work_step bus esyn etyp (w, ts)
      (w\<lparr>s_broker := settle p (processWithRetry (decode_job esyn etyp) WelcomeEmailHandler body) tag
         ((s_broker w)\<lparr>workers := (workers (s_broker w))[i := Idle]\<rparr>)\<rparr>, ts)"

inductive_cases work_stepE: "work_step bus esyn etyp s s'"

lemma work_step_conc:
  "work_step bus esyn etyp s s' \<Longrightarrow> conc_step m miss srv bus ft esyn etyp idt healthy s s'"
proof (induction rule: work_step.induct)
  case (moves i ts w t w')
  then show ?case by (intro conc_step.moves)
next
  case (audits k w out ts)
  then show ?case by (intro conc_step.elsewhere system_step.audit_write)
next
  case (delivers w ts)
  then show ?case by (intro conc_step.elsewhere system_step.broker_runs job_step.deliver) simp_all
next
  case (receives i w ts)
  then show ?case by (intro conc_step.elsewhere system_step.broker_runs job_step.receive) simp_all
next
  case (processes i w tag body p ts)
  then show ?case by (intro conc_step.elsewhere system_step.broker_runs job_step.process) simp_all
qed

lemma work_steps_conc:
  "(work_step bus esyn etyp)\<^sup>*\<^sup>* s s' \<Longrightarrow> (conc_step m miss srv bus ft esyn etyp idt healthy)\<^sup>*\<^sup>* s s'"
  by (induction rule: rtranclp_induct) (auto intro: work_step_conc rtranclp.rtrancl_into_rtrancl)

section \<open>The load\<close>

primrec stage_load :: "stage \<Rightarrow> nat" where
  "stage_load Lookup = 8"
| "stage_load Insertion = 7"
| "stage_load (Announce u) = 6"
| "stage_load (Note u) = 2"
| "stage_load (Replied res) = 0"
| "stage_load Lost = 0"

primrec worker_load :: "worker \<Rightarrow> nat" where
  "worker_load Idle = 0"
| "worker_load (Busy tag body) = 1"
| "worker_load Stopped = 0"

definition broker_load :: "broker \<Rightarrow> nat" where
  "broker_load b = 3 * length (ready b) + 2 * length (inbox b) + (\<Sum>x\<leftarrow>workers b. worker_load x)"

definition tasks_load :: "task list \<Rightarrow> nat" where
  "tasks_load ts = (\<Sum>t\<leftarrow>ts. stage_load (tk_stage t))"

definition load :: "sys \<times> task list \<Rightarrow> nat" where
  "load = (\<lambda>(w, ts). tasks_load ts + length (s_audit w) + broker_load (s_broker w))"

lemma sum_list_update_nat:
  "i < length xs \<Longrightarrow> (\<Sum>x\<leftarrow>xs[i := y]. f x) + f (xs ! i) = (\<Sum>x\<leftarrow>xs. f x) + (f y :: nat)"
proof (induction xs arbitrary: i)
  case (Cons x xs)
  then show ?case by (cases i) fastforce+
qed simp

lemma tasks_load_update:
  "i < length ts \<Longrightarrow> tasks_load (ts[i := t]) + stage_load (tk_stage (ts ! i)) = tasks_load ts + stage_load (tk_stage t)"
  unfolding tasks_load_def by (rule sum_list_update_nat)

lemma broker_load_deliver: "ready b \<noteq> [] \<Longrightarrow> broker_load (deliver_next b) < broker_load b"
  by (cases "ready b") (auto simp: deliver_next_def broker_load_def)

lemma broker_load_receive:
  assumes "i < length (workers b)" "workers b ! i = Idle" "inbox b \<noteq> []"
  shows "broker_load (receive_msg i b) < broker_load b"
  using assms sum_list_update_nat [OF assms(1), of worker_load]
  by (cases "inbox b") (auto simp: receive_msg_def broker_load_def)

lemma never_requeued: "processWithRetry decode WelcomeEmailHandler body \<noteq> Nack True"
  by (simp add: processWithRetry_def WelcomeEmailHandler_def split: sum.split)

lemma settle_queue: "d \<noteq> Nack True \<Longrightarrow> ready (settle p d tag b) = ready b"
  by (auto simp: settle_def take_unacked_def split: option.split disposition.split bool.split)

lemma broker_load_process:
  assumes "i < length (workers b)" "workers b ! i = Busy tag body" "d \<noteq> Nack True"
  shows "broker_load (settle p d tag' (b\<lparr>workers := (workers b)[i := Idle]\<rparr>)) < broker_load b"
  using assms sum_list_update_nat [OF assms(1), of worker_load Idle]
  by (simp add: broker_load_def settle_queue)

text \<open>What a step of a registration adds to the work of the others.\<close>

lemma task_insert_else:
  "s_audit (snd (task_insert t w)) = s_audit w" "s_broker (snd (task_insert t w)) = s_broker w"
  "stage_load (fst (task_insert t w)) \<le> 6"
  by (auto simp: task_insert_def Let_def split: go.split sum.split prod.split)

lemma task_step_load:
  assumes "task_step (server_bus ws jobs) (t, w) = (t', w')" "\<not> finished t"
  shows "stage_load (tk_stage t') + length (s_audit w') + broker_load (s_broker w')
       < stage_load (tk_stage t) + length (s_audit w) + broker_load (s_broker w)"
proof (cases "tk_stage t")
  case Lookup
  with assms(1) show ?thesis by (auto simp: task_step_simps)
next
  case Insertion
  with assms(1) show ?thesis
    using task_insert_else [of t w] by (auto simp: task_step_simps)
next
  case (Announce u)
  let ?p = "\<lparr>ur_UserID = UUID_String (q_svc (tk_q t)) (u_ID u), ur_Email = u_Email u\<rparr>"
  obtain w1 where "emit_registered (server_emitter (q_out (tk_q t)) (server_bus ws jobs)) ?p w = Done w1"
    "s_audit w1 = s_audit w"
    "s_broker w1 = (if jobs \<and> o_publish_fault (q_out (tk_q t)) = None
       then add_job (welcome_job (q_out (tk_q t)) ?p) (s_broker w) else s_broker w)"
    using emitted [of "q_out (tk_q t)" ws jobs ?p w] by blast
  with assms(1) Announce show ?thesis
    by (auto simp: task_step_def Let_def add_job_def broker_load_def split: if_splits)
next
  case (Note u)
  with assms(1) show ?thesis by (auto simp: task_step_def Let_def server_emit_audit)
qed (use assms(2) in \<open>simp_all add: finished_def\<close>)

lemma write_audit_log_else:
  "s_audit (write_audit_log out p w) = s_audit w" "s_broker (write_audit_log out p w) = s_broker w"
  by (simp_all add: write_audit_log_def split: prod.splits sum.splits)

lemma work_step_load:
  "work_step (server_bus ws jobs) esyn etyp s s' \<Longrightarrow> load s' < load s"
proof (induction rule: work_step.induct)
  case (moves i ts w t w')
  then show ?case
    using task_step_load [OF moves(3,2)] tasks_load_update [OF moves(1), of t] by (simp add: load_def)
next
  case (audits k w out ts)
  then show ?case by (simp add: load_def write_audit_log_else)
next
  case (delivers w ts)
  then show ?case using broker_load_deliver by (simp add: load_def)
next
  case (receives i w ts)
  then show ?case using broker_load_receive by (simp add: load_def)
next
  case (processes i w tag body p ts)
  then show ?case using broker_load_process [OF _ _ never_requeued] by (simp add: load_def)
qed

lemma work_steps_load:
  "(work_step (server_bus ws jobs) esyn etyp ^^ n) s s' \<Longrightarrow> n + load s' \<le> load s"
proof (induction n arbitrary: s')
  case (Suc n)
  then obtain s1 where "(work_step (server_bus ws jobs) esyn etyp ^^ n) s s1"
    "work_step (server_bus ws jobs) esyn etyp s1 s'" by auto
  with Suc.IH [of s1] work_step_load [of ws jobs esyn etyp s1 s'] show ?case by simp
qed simp

section \<open>Where no work is left\<close>

definition alive :: "broker \<Rightarrow> bool" where
  "alive b \<longleftrightarrow> chan b = Consuming \<and> (\<exists>x \<in> set (workers b). x \<noteq> Stopped)"

definition at_rest :: "sys \<times> task list \<Rightarrow> bool" where
  "at_rest = (\<lambda>(w, ts). list_all finished ts \<and> s_audit w = [] \<and> ready (s_broker w) = [] \<and> unacked (s_broker w) = [])"

lemma stuck_at_rest:
  assumes stuck: "\<not> (\<exists>s'. work_step bus esyn etyp (w, ts) s')" and held: "held (s_broker w)" and alive: "alive (s_broker w)"
  shows "at_rest (w, ts)"
proof -
  let ?b = "s_broker w"
  have "finished (ts ! i)" if "i < length ts" for i
    using stuck that work_step.moves [OF that, of bus w] by (metis surj_pair)
  then have "list_all finished ts" by (simp add: list_all_length)
  moreover have "s_audit w = []"
    using stuck work_step.audits [of 0 w] by fastforce
  moreover have busy: "x \<noteq> Busy tag body" if x: "x \<in> set (workers ?b)" for x tag body
  proof
    assume "x = Busy tag body"
    with x obtain i where "i < length (workers ?b)" "workers ?b ! i = Busy tag body"
      by (auto simp: in_set_conv_nth)
    from work_step.processes [OF this] stuck show False by blast
  qed
  moreover have ready: "ready ?b = []"
    using alive stuck work_step.delivers [of w bus esyn etyp ts] by (auto simp: alive_def)
  moreover have inbox: "inbox ?b = []"
  proof (rule ccontr)
    assume inbox: "inbox ?b \<noteq> []"
    obtain x where x: "x \<in> set (workers ?b)" "x \<noteq> Stopped" using alive by (auto simp: alive_def)
    with busy have "x = Idle" by (cases x) auto
    with x obtain i where "i < length (workers ?b)" "workers ?b ! i = Idle"
      by (auto simp: in_set_conv_nth)
    from work_step.receives [OF this inbox] stuck show False by blast
  qed
  moreover have "unacked ?b = []"
    using held busy inbox by (cases "unacked ?b") (auto simp: held_def holding_def)
  ultimately show ?thesis by (simp add: at_rest_def)
qed

text \<open>The accounts only grow, and a worker that runs stays.\<close>

definition grows :: "sys \<times> task list \<Rightarrow> sys \<times> task list \<Rightarrow> bool" where
  "grows s s' \<longleftrightarrow> set (users (database (fst s))) \<subseteq> set (users (database (fst s')))
     \<and> length (snd s') = length (snd s) \<and> (alive (s_broker (fst s)) \<longrightarrow> alive (s_broker (fst s')))"

lemma task_insert_grows: "set (users (database w)) \<subseteq> set (users (database (snd (task_insert t w))))"
  by (auto simp: task_insert_def Let_def CreateUser_def split: go.split sum.splits prod.splits option.splits)

lemma task_step_grows:
  assumes "task_step (server_bus ws jobs) (t, w) = (t', w')"
  shows "set (users (database w)) \<subseteq> set (users (database w')) \<and> workers (s_broker w') = workers (s_broker w)
    \<and> chan (s_broker w') = chan (s_broker w)"
proof (cases "tk_stage t")
  case Insertion
  with assms show ?thesis
    using task_insert_grows [of w t] task_insert_else [of t w] by (auto simp: task_step_simps)
next
  case (Announce u)
  let ?p = "\<lparr>ur_UserID = UUID_String (q_svc (tk_q t)) (u_ID u), ur_Email = u_Email u\<rparr>"
  obtain w1 where "emit_registered (server_emitter (q_out (tk_q t)) (server_bus ws jobs)) ?p w = Done w1"
    "database w1 = database w"
    "s_broker w1 = (if jobs \<and> o_publish_fault (q_out (tk_q t)) = None
       then add_job (welcome_job (q_out (tk_q t)) ?p) (s_broker w) else s_broker w)"
    using emitted [of "q_out (tk_q t)" ws jobs ?p w] by blast
  with assms Announce show ?thesis by (auto simp: task_step_def Let_def add_job_def)
next
  case (Note u)
  with assms show ?thesis by (auto simp: task_step_def Let_def server_emit_audit)
qed (use assms in \<open>auto simp: task_step_simps\<close>)

lemma CreateAuditLog_users: "users (snd (CreateAuditLog fault jsonb uuid now arg d)) = users d"
  by (simp add: CreateAuditLog_def split: option.split sum.split)

lemma write_audit_log_users: "users (database (write_audit_log out p w)) = users (database w)"
  unfolding write_audit_log_def
  using CreateAuditLog_users [of "o_audit_fault out" "o_jsonb out" "o_audit_uuid out" "o_audit_now out" _ "database w"]
  by (simp split: prod.split sum.split) (metis snd_conv)

lemma alive_receive: "alive b \<Longrightarrow> i < length (workers b) \<Longrightarrow> alive (receive_msg i b)"
  using set_update_memI [of i "workers b"] by (cases "inbox b") (fastforce simp: receive_msg_def alive_def)+

lemma alive_settle:
  "i < length (workers b) \<Longrightarrow> alive b \<Longrightarrow> alive (settle p d tag (b\<lparr>workers := (workers b)[i := Idle]\<rparr>))"
  by (auto simp: alive_def settle_queue intro: set_update_memI)

lemma work_step_grows: "work_step (server_bus ws jobs) esyn etyp s s' \<Longrightarrow> grows s s'"
proof (induction rule: work_step.induct)
  case (moves i ts w t w')
  then show ?case using task_step_grows [OF moves(3)] by (simp add: grows_def alive_def)
next
  case (audits k w out ts)
  then show ?case by (simp add: grows_def write_audit_log_else write_audit_log_users)
next
  case (delivers w ts)
  then show ?case by (simp add: grows_def alive_def)
next
  case (receives i w ts)
  then show ?case by (simp add: grows_def alive_receive)
next
  case (processes i w tag body p ts)
  then show ?case by (simp add: grows_def alive_settle)
qed

lemma work_steps_grow: "(work_step (server_bus ws jobs) esyn etyp)\<^sup>*\<^sup>* s s' \<Longrightarrow> grows s s'"
proof (induction rule: rtranclp_induct)
  case (step s1 s2)
  from step(3) work_step_grows [OF step(2)] show ?case by (auto simp: grows_def)
qed (simp add: grows_def)

lemma at_rest_quiet: "at_rest (w, ts) \<Longrightarrow> list_all (\<lambda>t. \<not> announcing t) ts"
  by (auto simp: at_rest_def finished_def announcing_def list_all_iff split: stage.splits)

section \<open>Liveness\<close>

text \<open>
  C3. Everything the server has taken on gets done, under every schedule, as long as the channel to the
  broker is open: from any state it reaches with an open channel and a worker that has not stopped, its
  own work ends after at most \<open>load\<close> steps, and when no step of it is left every registration has been
  answered or has panicked, every audit write has been tried (one that fails is logged and not tried
  again), no job is waiting, delivered or at a worker, and, where the broker refused nothing, exactly
  the accounts have been welcomed, those from before among them.  Once the channel is lost the workers
  return and nothing connects again, so nothing is claimed of the jobs then.
\<close>
theorem everything_settles:
  assumes "(conc_step m miss srv (server_bus ws jobs) ft esyn etyp idt healthy)\<^sup>*\<^sup>* (w0, []) (w, ts)" "fresh_system w0"
    and "event_bus srv = Some (server_bus ws jobs)"
    and "inj_on idt {b. length b = 16}" "\<And>b. length b = 16 \<Longrightarrow> ascii (idt b)"
    and "alive (s_broker w)"
  shows "(\<forall>n s'. (work_step (server_bus ws jobs) esyn etyp ^^ n) (w, ts) s' \<longrightarrow> n \<le> load (w, ts))
    \<and> (\<forall>w' ts'. (work_step (server_bus ws jobs) esyn etyp)\<^sup>*\<^sup>* (w, ts) (w', ts')
          \<and> \<not> (\<exists>s''. work_step (server_bus ws jobs) esyn etyp (w', ts') s'') \<longrightarrow>
        at_rest (w', ts') \<and> length ts' = length ts
        \<and> set (users (database w)) \<subseteq> set (users (database w'))
        \<and> (healthy \<and> jobs \<longrightarrow> set (acked (s_broker w')) = job_text ft idt ` set (users (database w'))))"
proof (intro conjI allI impI; (elim conjE)?)
  show "n \<le> load (w, ts)" if "(work_step (server_bus ws jobs) esyn etyp ^^ n) (w, ts) s'" for n s'
    using work_steps_load [OF that] by simp
next
  fix w' ts'
  assume run: "(work_step (server_bus ws jobs) esyn etyp)\<^sup>*\<^sup>* (w, ts) (w', ts')"
    and stuck: "\<not> (\<exists>s''. work_step (server_bus ws jobs) esyn etyp (w', ts') s'')"
  have reach: "(conc_step m miss srv (server_bus ws jobs) ft esyn etyp idt healthy)\<^sup>*\<^sup>* (w0, []) (w', ts')"
    using assms(1) work_steps_conc [OF run] by (rule rtranclp_trans)
  have grows: "grows (w, ts) (w', ts')" by (rule work_steps_grow [OF run])
  have "held (s_broker w')"
    using reachable_conc [OF reach assms(2,3)] by (simp add: conc_inv_def beyond_web_def job_inv_def)
  with stuck grows assms(6) show rest: "at_rest (w', ts')"
    by (intro stuck_at_rest) (simp_all add: grows_def)
  show "length ts' = length ts" "set (users (database w)) \<subseteq> set (users (database w'))"
    using grows by (simp_all add: grows_def)
  show "set (acked (s_broker w')) = job_text ft idt ` set (users (database w'))" if "healthy" "jobs"
    using welcomed [OF reach assms(2-5)] at_rest_quiet [OF rest] rest that by (simp add: at_rest_def)
qed

lemma runs_to_an_end:
  "\<exists>s'. (work_step (server_bus ws jobs) esyn etyp)\<^sup>*\<^sup>* s s' \<and> \<not> (\<exists>s''. work_step (server_bus ws jobs) esyn etyp s' s'')"
proof (induction "load s" arbitrary: s rule: less_induct)
  case less
  show ?case
  proof (cases "\<exists>s1. work_step (server_bus ws jobs) esyn etyp s s1")
    case True
    then obtain s1 where s1: "work_step (server_bus ws jobs) esyn etyp s s1" by blast
    from less [OF work_step_load [OF s1]] obtain s' where
      "(work_step (server_bus ws jobs) esyn etyp)\<^sup>*\<^sup>* s1 s'" "\<not> (\<exists>s''. work_step (server_bus ws jobs) esyn etyp s' s'')"
      by blast
    with s1 show ?thesis by (meson converse_rtranclp_into_rtranclp)
  qed blast
qed

text \<open>Two registrations of one email, the second with its insert still before it, and two workers.\<close>

theorem everything_settles_witness:
  "\<exists>w ts w' ts'. sample_conc\<^sup>*\<^sup>* (sample_start, []) (w, ts) \<and> length (users (database w)) = 1
     \<and> \<not> list_all finished ts
     \<and> (work_step (server_bus True True) id id)\<^sup>*\<^sup>* (w, ts) (w', ts') \<and> at_rest (w', ts')
     \<and> users (database w') \<noteq> []
     \<and> set (acked (s_broker w')) = job_text (\<lambda>_ _. []) (e_uuid_text sample_env) ` set (users (database w'))"
proof -
  obtain w res where run: "sample_conc\<^sup>*\<^sup>* (sample_start, [])
      (w, [sample_task\<lparr>tk_stage := Replied res\<rparr>, sample_task\<lparr>tk_stage := Insertion\<rparr>])"
    and one: "length (users (database w)) = 1" and fresh: "chan (s_broker w) = NoConsumer"
    by (rule sample_overlap)
  let ?ts = "[sample_task\<lparr>tk_stage := Replied res\<rparr>, sample_task\<lparr>tk_stage := Insertion\<rparr>]"
  let ?w = "w\<lparr>s_broker := ConsumeWelcomeEmails 2 (s_broker w)\<rparr>"
  have "sample_conc (w, ?ts) (?w, ?ts)"
    by (rule conc_step.elsewhere [OF system_step.broker_runs [OF job_step.consume [OF fresh]]])
      (simp add: ConsumeWelcomeEmails_def)
  with run have reach: "sample_conc\<^sup>*\<^sup>* (sample_start, []) (?w, ?ts)" by (rule rtranclp.rtrancl_into_rtrancl)
  have "alive (s_broker ?w)" by (simp add: alive_def ConsumeWelcomeEmails_def)
  have "inj b64_encode" by (rule inj_on_inverseI [where g = "the \<circ> b64_decode"]) (simp add: b64_decode_encode)
  then have inj: "inj_on (e_uuid_text sample_env) {b. length b = 16}"
    by (simp add: sample_env_def inj_on_subset [of _ UNIV])
  have asc: "ascii (e_uuid_text sample_env b)" for b
    by (simp add: sample_env_def ascii_b64_encode)
  obtain w' ts' where end_run: "(work_step (server_bus True True) id id)\<^sup>*\<^sup>* (?w, ?ts) (w', ts')"
    "\<not> (\<exists>s''. work_step (server_bus True True) id id (w', ts') s'')"
    using runs_to_an_end [of True True id id "(?w, ?ts)"] by fastforce
  have settled: "at_rest (w', ts')" "set (users (database ?w)) \<subseteq> set (users (database w'))"
    "set (acked (s_broker w')) = job_text (\<lambda>_ _. []) (e_uuid_text sample_env) ` set (users (database w'))"
    using everything_settles [OF reach sample_fresh inj asc \<open>alive (s_broker ?w)\<close>] end_run by blast+
  moreover have "users (database w') \<noteq> []" using settled(2) one by (cases "users (database w)") auto
  moreover have "\<not> list_all finished ?ts" by (simp add: finished_def)
  moreover have "length (users (database ?w)) = 1" using one by simp
  ultimately show ?thesis using reach end_run(1) by blast
qed

end
