(* ===== verification/Directory.thy ===== *)
theory Directory
  imports Auth_Security
begin

text \<open>
  The contract of the auth module as a whole: to its callers it is a directory that maps emails to
  passwords.  Registrations and logins over the tables, the hashes and the tokens simulate the two
  operations of the directory, call by call, faults of the database included.  A fault may refuse the
  lookup or the insert, or it may lose the answer of an insert that stored its row.
\<close>

section \<open>The directory\<close>

datatype auth_op = SignUp RegisterInput | SignIn LoginInput

text \<open>The password of each email, with the salt it was enrolled under.\<close>

type_synonym directory = "bytes \<rightharpoonup> bytes \<times> bytes"

text \<open>
  A password is accepted when it has the key of the enrolled one under the salt, as a derivation
  function may map two passwords to one key.
\<close>

definition accepts :: "kdf \<Rightarrow> directory \<Rightarrow> bytes \<Rightarrow> bytes \<Rightarrow> bool" where
  "accepts kdf D email pw =
     (case D email of
        None \<Rightarrow> False
      | Some (salt, enrolled) \<Rightarrow> kdf pw salt 3 65536 4 32 = kdf enrolled salt 3 65536 4 32)"

definition enrols :: "directory \<Rightarrow> RegisterInput \<Rightarrow> directory \<Rightarrow> bool" where
  "enrols D i D' \<longleftrightarrow> D (ri_Email i) = None \<and> (\<exists>salt. D' = D(ri_Email i \<mapsto> (salt, ri_Password i)))"

text \<open>
  Which status a call may have, and what it does to the directory; \<open>up\<close> tells whether the database
  answers the lookup, \<open>sure\<close> whether the answer of the insert arrives.  A registration may fail with
  500 for reasons the directory does not know (a fault, a name too long), but never where the email
  is taken and the lookup works; it changes nothing then, unless the answer was lost.  A login fails
  with 500 only after the password was accepted.
\<close>

primrec dir_step :: "kdf \<Rightarrow> bool \<Rightarrow> bool \<Rightarrow> directory \<Rightarrow> auth_op \<Rightarrow> int \<Rightarrow> directory \<Rightarrow> bool" where
  "dir_step kdf up sure D (SignUp i) code D' \<longleftrightarrow>
     (if up \<and> D (ri_Email i) \<noteq> None then code = 409 \<and> D' = D
      else code = 201 \<and> sure \<and> enrols D i D' \<or> code = 500 \<and> (D' = D \<or> \<not> sure \<and> enrols D i D'))"
| "dir_step kdf up sure D (SignIn l) code D' \<longleftrightarrow> D' = D
     \<and> (if up \<and> accepts kdf D (li_Email l) (li_Password l) then code = 200 \<or> code = 500 else code = 401)"

text \<open>A list of calls with their answers that leads from one directory to another.\<close>

inductive dir_run :: "kdf \<Rightarrow> directory \<Rightarrow> (bool \<times> bool \<times> auth_op) list \<Rightarrow> int list \<Rightarrow> directory \<Rightarrow> bool"
  for kdf where
  ended: "dir_run kdf D [] [] D"
| called: "dir_step kdf up sure D op code D1 \<Longrightarrow> dir_run kdf D1 ops codes D'
    \<Longrightarrow> dir_run kdf D ((up, sure, op) # ops) (code # codes) D'"

inductive_cases dir_runE: "dir_run kdf D ((up, sure, op) # ops) codes D'" "dir_run kdf D [] codes D'"

section \<open>The calls\<close>

text \<open>
  A call with its environment, what becomes of its insert, its listeners and the request it came with.
\<close>

datatype insert_fate = Reported | Unconfirmed bytes

type_synonym 'a auth_call = "svc_env \<times> insert_fate \<times> 'a app_scheme emitter option \<times> body request \<times> auth_op"

primrec insert_by :: "svc_env \<Rightarrow> insert_fate \<Rightarrow> user_insert" where
  "insert_by E Reported = CreateUser (e_insert_fault E) (e_new_uuid E) (e_db_now E)"
| "insert_by E (Unconfirmed err) = unconfirmed err (CreateUser (e_insert_fault E) (e_new_uuid E) (e_db_now E))"

definition perform :: "'a auth_call \<Rightarrow> 'a app_scheme \<Rightarrow> (ApiResponse, 'a app_scheme) call" where
  "perform = (\<lambda>(E, fate, bus, r, op).
     case op of SignUp i \<Rightarrow> Register_with (insert_by E fate) E bus i r | SignIn l \<Rightarrow> Login E bus l r)"

fun perform_all :: "'a auth_call list \<Rightarrow> 'a app_scheme \<Rightarrow> (int list, 'a app_scheme) call" where
  "perform_all [] w = Returned [] w"
| "perform_all (c # cs) w = call_bind (perform c w) (\<lambda>res w.
     call_bind (perform_all cs w) (\<lambda>codes w. Returned (StatusCode res # codes) w))"

definition seen :: "'a auth_call \<Rightarrow> bool \<times> bool \<times> auth_op" where
  "seen = (\<lambda>(E, fate, bus, r, op). (e_lookup_fault E = None, fate = Reported, op))"

text \<open>The derivation function returns for the parameters the code uses.\<close>

definition kdf_returns :: "kdf \<Rightarrow> bool" where
  "kdf_returns kdf \<longleftrightarrow> (\<forall>pw salt. \<exists>key. kdf pw salt 3 65536 4 32 = Ret key)"

text \<open>
  The calls that occur: one derivation function, listeners that return and leave the tables alone, and
  inputs that passed the validation.
\<close>

definition call_ok :: "kdf \<Rightarrow> 'a auth_call \<Rightarrow> bool" where
  "call_ok kdf = (\<lambda>(E, fate, bus, r, op). e_kdf E = kdf \<and> bus_ok bus
     \<and> (case op of SignUp i \<Rightarrow> accepted_register i | SignIn l \<Rightarrow> True))"

section \<open>The simulation\<close>

definition stands_for :: "kdf \<Rightarrow> directory \<Rightarrow> user \<Rightarrow> bool" where
  "stands_for kdf D u \<longleftrightarrow> pg_text (u_Email u) = Inr (u_Email u)
     \<and> (\<exists>pw salt key. D (u_Email u) = Some (salt, pw) \<and> kdf pw salt 3 65536 4 32 = Ret key
          \<and> u_Password u = phc_string defaultParams salt key)"

definition dir_rel :: "kdf \<Rightarrow> directory \<Rightarrow> db \<Rightarrow> bool" where
  "dir_rel kdf D d \<longleftrightarrow> db_ok d \<and> dom D = u_Email ` set (users d)
     \<and> list_all (stands_for kdf D) (users d)"

lemma dir_rel_empty: "dir_rel kdf Map.empty empty_db"
  by (simp add: dir_rel_def) (simp add: empty_db_def)

lemma find_email:
  "distinct (map u_Email us) \<Longrightarrow> find (\<lambda>u. u_Email u = e) us = Some u \<longleftrightarrow> u \<in> set us \<and> u_Email u = e"
  by (induction us) auto

lemma dir_lookup:
  assumes "dir_rel kdf D d"
  shows "GetUserByEmail None e d = Inr u \<longleftrightarrow> u \<in> set (users d) \<and> u_Email u = e"
    and "D e = None \<longleftrightarrow> (\<forall>u. GetUserByEmail None e d \<noteq> Inr u)"
proof -
  have "distinct (map u_Email (users d))" using assms by (simp add: dir_rel_def db_ok_def)
  from find_email [OF this] show lookup: "GetUserByEmail None e d = Inr u \<longleftrightarrow> u \<in> set (users d) \<and> u_Email u = e" for u
    using assms by (auto simp: GetUserByEmail_Inr dir_rel_def list_all_iff stands_for_def)
  have "D e = None \<longleftrightarrow> e \<notin> u_Email ` set (users d)"
    using assms by (auto simp: dir_rel_def domIff [symmetric])
  with lookup show "D e = None \<longleftrightarrow> (\<forall>u. GetUserByEmail None e d \<noteq> Inr u)" by auto
qed

text \<open>A stored hash accepts what the directory accepts.\<close>

lemma stored_password:
  assumes "stands_for kdf D u" "kdf_length kdf" "kdf_returns kdf"
  obtains res where "ComparePassword kdf (u_Password u) pw = Ret res"
    "res = None \<longleftrightarrow> accepts kdf D (u_Email u) pw"
proof -
  obtain pw0 salt key where u: "D (u_Email u) = Some (salt, pw0)" "kdf pw0 salt 3 65536 4 32 = Ret key"
      "u_Password u = phc_string defaultParams salt key"
    using assms(1) by (auto simp: stands_for_def)
  obtain key' where key': "kdf pw salt 3 65536 4 32 = Ret key'" using assms(3) by (auto simp: kdf_returns_def)
  have "length key = 32" using assms(2) u(2) by (force simp: kdf_length_def)
  then have "ComparePassword kdf (u_Password u) pw = Ret (if key \<noteq> key' then Some PasswordMismatch else None)"
    by (simp add: u(3) ComparePassword_phc key')
  then show ?thesis using that u(1,2) key' by (auto simp: accepts_def)
qed

text \<open>One login.\<close>

lemma login_simulates:
  assumes rel: "dir_rel kdf D (database w)" and ok: "call_ok kdf (E, fate, bus, r, SignIn l)"
    and kdf: "kdf_length kdf" "kdf_returns kdf"
  obtains res w' where "Login E bus l r w = Returned res w'" "database w' = database w"
    "dir_step kdf (e_lookup_fault E = None) sure D (SignIn l) (StatusCode res) D"
proof (cases "GetUserByEmail (e_lookup_fault E) (li_Email l) (database w)")
  case (Inl e)
  have "\<not> (e_lookup_fault E = None \<and> accepts kdf D (li_Email l) (li_Password l))"
    using Inl dir_lookup(2) [OF rel, of "li_Email l"] by (auto simp: accepts_def)
  with Inl that [of "ApiError ''invalid credentials'' None 401" w] show ?thesis
    by (auto simp: Login_def ApiError_def)
next
  case (Inr u)
  have fault: "e_lookup_fault E = None" using Inr by (simp add: GetUserByEmail_Inr)
  have u: "u \<in> set (users (database w))" "u_Email u = li_Email l"
    using dir_lookup(1) [OF rel, of "li_Email l" u] Inr fault by simp_all
  have "stands_for kdf D u" "e_kdf E = kdf" "bus_ok bus"
    using rel ok u(1) by (auto simp: dir_rel_def list_all_iff call_ok_def)
  note call = this
  obtain c where c: "ComparePassword (e_kdf E) (u_Password u) (li_Password l) = Ret c"
    "c = None \<longleftrightarrow> accepts kdf D (li_Email l) (li_Password l)"
    using stored_password [OF call(1) kdf] u(2) call(2) by metis
  show ?thesis
  proof (cases c)
    case (Some e)
    with Inr c that [of "ApiError ''invalid credentials'' None 401" w] show ?thesis
      by (auto simp: Login_def ApiError_def)
  next
    case None
    with c have right: "accepts kdf D (li_Email l) (li_Password l)" by simp
    obtain res w' where run: "Login E bus l r w = Returned res w'" "database w' = database w"
      "StatusCode res \<in> {200, 500}"
    proof (cases "Sign (e_jwt E) (NewTokenSigner (access_key E))
         (StandardClaims (e_now E) (UUID_String E (u_ID u)) access_ttl)")
      case (Inl err)
      with that Inr c None show ?thesis by (simp add: Login_def Let_def ApiError_def)
    next
      case acc: (Inr acc)
      show ?thesis
      proof (cases "Sign (e_jwt E) (NewTokenSigner (refresh_key E))
           (StandardClaims (e_now2 E) (UUID_String E (u_ID u)) refresh_ttl)")
        case (Inl err)
        with that acc Inr c None show ?thesis by (simp add: Login_def Let_def ApiError_def)
      next
        case ref: (Inr ref)
        from Login_ok [OF Inr _ acc ref call(3), where r = r] c None obtain w' where
          "Login E bus l r w = Returned (login_response E u acc ref) w'" "database w' = database w" by auto
        with that show ?thesis by (simp add: login_response_def ApiSuccess_def)
      qed
    qed
    show ?thesis by (rule that [OF run(1,2)]) (use run(3) right fault in simp)
  qed
qed

text \<open>One registration.\<close>

lemma hash_returns: "kdf_returns kdf \<Longrightarrow> HashPassword rnd kdf pw \<noteq> Panic m"
  by (auto simp: HashPassword_def defaultParams_def kdf_returns_def split: sum.split) (metis go_map.simps go.distinct(1))

lemma dir_rel_enrolled:
  assumes rel: "dir_rel kdf D d" and u: "new_user uuid now arg d = Inr u"
    and email: "u_Email u = Email arg" and hash: "HashPassword rnd kdf pw = Ret (Inr (u_Password u))"
  obtains salt where "D (Email arg) = None"
    "dir_rel kdf (D(Email arg \<mapsto> (salt, pw))) (d\<lparr>users := users d @ [u]\<rparr>)"
proof -
  note new = new_user_Inr [OF u]
  obtain salt key where "kdf pw salt 3 65536 4 32 = Ret key" "u_Password u = phc_string defaultParams salt key"
    using hash(1) by (auto elim: HashPassword_Ret)
  then have "stands_for kdf (D(Email arg \<mapsto> (salt, pw))) u"
    using email varchar_pg_text [OF new(6)] by (auto simp: stands_for_def)
  moreover have fresh: "Email arg \<notin> u_Email ` set (users d)" using new(4) email by simp
  then have "stands_for kdf (D(Email arg \<mapsto> (salt, pw))) v" if "v \<in> set (users d)" for v
    using rel that by (force simp: dir_rel_def list_all_iff stands_for_def)
  moreover have "D (Email arg) = None" using rel fresh by (auto simp: dir_rel_def)
  moreover have "db_ok (d\<lparr>users := users d @ [u]\<rparr>)"
    using rel CreateUser_ok [of d None uuid now arg] u by (simp add: dir_rel_def CreateUser_def)
  ultimately show ?thesis using that [of salt] rel email by (auto simp: dir_rel_def list_all_iff)
qed

text \<open>A row that a registration stored enrols its email, whether or not the answer arrives.\<close>

lemma stored_enrols:
  assumes rel: "dir_rel kdf D d" and ok: "accepted_register i"
    and hash: "HashPassword rnd kdf (ri_Password i) = Ret (Inr hashed)"
    and create: "CreateUser fault uuid now \<lparr>FirstName = ri_FirstName i, LastName = ri_LastName i,
          Email = ri_Email i, Passwd = hashed\<rparr> d = (Inr u, d')"
  obtains D' where "enrols D i D'" "dir_rel kdf D' d'"
proof -
  note cu = CreateUser_Inr [OF create]
  note new = new_user_Inr [OF cu(1), simplified]
  have "trim_space (ri_Email i) = ri_Email i" using ok by (simp add: accepted_register_def)
  then have email: "u_Email u = ri_Email i" using varchar_exact [OF trim_space_last new(6)] by simp
  have "u_Password u = hashed" by (rule varchar_hash [OF hash new(5)])
  with hash have "HashPassword rnd kdf (ri_Password i) = Ret (Inr (u_Password u))" by simp
  from dir_rel_enrolled [OF rel cu(1) _ this] email obtain salt where
    "D (ri_Email i) = None" "dir_rel kdf (D(ri_Email i \<mapsto> (salt, ri_Password i))) d'"
    using cu(2) by auto
  with that show ?thesis by (auto simp: enrols_def)
qed

lemma register_simulates:
  assumes rel: "dir_rel kdf D (database w)" and ok: "call_ok kdf (E, fate, bus, r, SignUp i)"
    and kdf: "kdf_returns kdf"
  obtains res w' D' where "Register_with (insert_by E fate) E bus i r w = Returned res w'"
    "dir_step kdf (e_lookup_fault E = None) (fate = Reported) D (SignUp i) (StatusCode res) D'"
    "dir_rel kdf D' (database w')"
proof (cases "Register_taken E i (database w)")
  case True
  then have "e_lookup_fault E = None \<and> D (ri_Email i) \<noteq> None"
    using dir_lookup(2) [OF rel, of "ri_Email i"]
    by (auto simp: Register_taken_def GetUserByEmail_Inr split: sum.splits)
  with True rel that [of "ApiError ''email already registered'' None 409" w D] show ?thesis
    by (simp add: Register_with_def ApiError_def)
next
  case False
  have free: "\<not> (e_lookup_fault E = None \<and> D (ri_Email i) \<noteq> None)"
  proof (rule notI, elim conjE)
    assume up: "e_lookup_fault E = None" and "D (ri_Email i) \<noteq> None"
    then obtain u where u: "GetUserByEmail None (ri_Email i) (database w) = Inr u"
      using dir_lookup(2) [OF rel, of "ri_Email i"] by auto
    then have "u \<in> set (users (database w))" using dir_lookup(1) [OF rel] by blast
    then have "Valid (u_ID u)" using rel by (simp add: dir_rel_def db_ok_def)
    with u up False show False by (simp add: Register_taken_def)
  qed
  have bus: "bus_ok bus" and E: "e_kdf E = kdf" "accepted_register i"
    using ok by (simp_all add: call_ok_def)
  show ?thesis
  proof (cases fate)
    case Reported
    then have reg: "Register_with (insert_by E fate) E = Register E" by (simp add: Register_by)
    show ?thesis
    proof (cases rule: Register_insert_cases [OF bus, case_names crashed failed created, of E i r w])
      case (crashed m)
      with kdf E(1) show ?thesis by (simp add: hash_returns)
    next
      case (failed res)
      have "Register_with (insert_by E fate) E bus i r w = Returned res w"
        using False failed(1) by (simp add: reg Register_def)
      with failed(2) free rel that [of res w D] show ?thesis by auto
    next
      case (created hashed u d w')
      obtain D' where "enrols D i D'" "dir_rel kdf D' d"
        using stored_enrols [OF rel E(2) _ created(2)] created(1) E(1) by metis
      moreover have "Register_with (insert_by E fate) E bus i r w
          = Returned (ApiSuccess ''user registered successfully'' (Some (JObj [(''user'', SafeUser E u)])) 201) w'"
        using False created(4) by (simp add: reg Register_def)
      moreover have "dir_step kdf (e_lookup_fault E = None) (fate = Reported) D (SignUp i) 201 D'"
        using free Reported \<open>enrols D i D'\<close> by auto
      moreover have "StatusCode (ApiSuccess m dt 201) = 201" for m dt by (simp add: ApiSuccess_def)
      ultimately show ?thesis using that created(3) by metis
    qed
  next
    case (Unconfirmed err)
    show ?thesis
    proof (cases "HashPassword (e_rand E) kdf (ri_Password i)")
      case (Panic m)
      with kdf show ?thesis by (simp add: hash_returns)
    next
      case (Ret h)
      show ?thesis
      proof (cases h)
        case (Inl e)
        with Ret False free rel E(1) that [of "ApiError ''failed to process password'' (Some (JStr e)) 500" w D]
        show ?thesis by (simp add: Register_with_def Register_insert_with_def ApiError_def)
      next
        case (Inr hashed)
        let ?arg = "\<lparr>FirstName = ri_FirstName i, LastName = ri_LastName i, Email = ri_Email i, Passwd = hashed\<rparr>"
        obtain c d where c: "CreateUser (e_insert_fault E) (e_new_uuid E) (e_db_now E) ?arg (database w) = (c, d)"
          by fastforce
        have "\<exists>D'. (D' = D \<or> enrols D i D') \<and> dir_rel kdf D' d"
        proof (cases c)
          case (Inl e)
          with c have "d = database w" by (auto simp: CreateUser_def split: option.splits sum.splits)
          with rel show ?thesis by blast
        next
          case u: (Inr u)
          with stored_enrols [OF rel E(2) _ c [unfolded u]] Ret Inr show ?thesis by blast
        qed
        then obtain D' where "D' = D \<or> enrols D i D'" "dir_rel kdf D' d" by blast
        with c Ret Inr False free Unconfirmed E(1)
          that [of "ApiError ''failed to create user'' (Some (JStr err)) 500" "w\<lparr>database := d\<rparr>" D']
        show ?thesis
          by (simp add: Register_with_def Register_insert_with_def unconfirmed_def ApiError_def)
      qed
    qed
  qed
qed

section \<open>Refinement\<close>

lemma calls_simulate:
  assumes "kdf_length kdf" "kdf_returns kdf" "list_all (call_ok kdf) cs" "dir_rel kdf D (database w)"
  shows "\<exists>codes w' D'. perform_all cs w = Returned codes w'
    \<and> dir_run kdf D (map seen cs) codes D' \<and> dir_rel kdf D' (database w')"
  using assms(3,4)
proof (induction cs arbitrary: D w)
  case Nil
  then show ?case by (auto intro: dir_run.ended)
next
  case (Cons c cs)
  obtain E fate bus r op where c: "c = (E, fate, bus, r, op)" by (cases c) auto
  have ok: "call_ok kdf (E, fate, bus, r, op)" using Cons.prems(1) c by simp
  obtain res w1 D1 where step: "perform c w = Returned res w1"
    "dir_step kdf (e_lookup_fault E = None) (fate = Reported) D op (StatusCode res) D1"
    "dir_rel kdf D1 (database w1)"
  proof (cases op)
    case (SignUp i)
    from register_simulates [OF Cons.prems(2) ok [unfolded SignUp] assms(2)] obtain res w1 D1 where
      "Register_with (insert_by E fate) E bus i r w = Returned res w1"
      "dir_step kdf (e_lookup_fault E = None) (fate = Reported) D (SignUp i) (StatusCode res) D1"
      "dir_rel kdf D1 (database w1)" by blast
    with that SignUp show ?thesis by (simp add: perform_def c)
  next
    case (SignIn l)
    from login_simulates [OF Cons.prems(2) ok [unfolded SignIn] assms(1,2)] obtain res w1 where
      "Login E bus l r w = Returned res w1" "database w1 = database w"
      "dir_step kdf (e_lookup_fault E = None) (fate = Reported) D (SignIn l) (StatusCode res) D" by blast
    with that SignIn Cons.prems(2) show ?thesis by (simp add: perform_def c)
  qed
  from Cons.IH [OF _ step(3)] Cons.prems(1) obtain codes w' D' where rest: "perform_all cs w1 = Returned codes w'"
    "dir_run kdf D1 (map seen cs) codes D'" "dir_rel kdf D' (database w')"
    by auto
  then have "perform_all (c # cs) w = Returned (StatusCode res # codes) w'"
    "dir_run kdf D (map seen (c # cs)) (StatusCode res # codes) D'"
    using step by (simp_all add: seen_def c dir_run.called)
  with rest(3) show ?case by blast
qed

text \<open>
  C4. The auth module refines the directory: any list of registrations and logins, with inputs that
  passed the validation, on an empty database returns, every answer has a status the directory allows at
  that point, and the accounts are at the end exactly the emails of the directory.  The database may
  refuse any lookup and any insert, and may lose the answer of an insert that stored its row; only then
  may a registration that was answered with 500 have enrolled its email.  So an email is enrolled once,
  and from then on the password of that registration is accepted, and another one only if the derivation
  function gives it the same key under the salt.  Assumed are a derivation function that returns a key
  of the length asked for, and listeners that return and leave the tables alone, as the server's do.
\<close>
theorem auth_refines_directory:
  assumes "kdf_length kdf" "kdf_returns kdf" "list_all (call_ok kdf) cs" "database w = empty_db"
  shows "\<exists>codes w' D. perform_all cs w = Returned codes w'
    \<and> dir_run kdf Map.empty (map seen cs) codes D
    \<and> dom D = u_Email ` set (users (database w'))"
  using calls_simulate [OF assms(1-3), of Map.empty w] dir_rel_empty assms(4)
  by (auto simp: dir_rel_def)

text \<open>A registration, a second one of the email, a wrong and a right password.\<close>

definition sample_calls :: "unit auth_call list" where
  "sample_calls = map (\<lambda>op. (sample_env, Reported, None, sample_request [], op))
     [SignUp sample_input, SignUp (sample_input\<lparr>ri_Password := ''87654321''\<rparr>),
      SignIn (sample_login\<lparr>li_Password := ''87654321''\<rparr>), SignIn sample_login]"

theorem auth_refines_directory_witness:
  "\<exists>codes w' D salt. perform_all sample_calls sample_app = Returned codes w'
     \<and> dir_run sample_kdf Map.empty (map seen sample_calls) codes D
     \<and> take 3 codes = [201, 409, 401] \<and> D = [''a@b.c'' \<mapsto> (salt, ''12345678'')]"
proof -
  have "kdf_returns sample_kdf" by (simp add: kdf_returns_def sample_kdf_def)
  moreover have "accepted_register (sample_input\<lparr>ri_Password := ''87654321''\<rparr>)" by code_simp
  then have "list_all (call_ok sample_kdf) sample_calls"
    by (simp add: sample_calls_def call_ok_def sample_input_accepted) (simp add: sample_env_def)
  moreover have "database sample_app = empty_db" by (simp add: sample_app_def)
  ultimately obtain codes w' D where run: "perform_all sample_calls sample_app = Returned codes w'"
    "dir_run sample_kdf Map.empty (map seen sample_calls) codes D"
    using auth_refines_directory [OF sample_kdf_ok(1), of sample_calls sample_app] by blast
  obtain u where "Register sample_env None sample_input (sample_request []) sample_app
       = Returned (ApiSuccess ''user registered successfully'' (Some (JObj [(''user'', SafeUser sample_env u)])) 201)
           (sample_app\<lparr>database := \<lparr>users = [u], audit_logs = []\<rparr>\<rparr>)"
    by (rule sample_register)
  with run(1) obtain codes' where codes: "codes = 201 # codes'"
    by (auto simp: sample_calls_def perform_def Register_by ApiSuccess_def call_bind_Returned)
  have up: "e_lookup_fault sample_env = None" by (simp add: sample_env_def)
  from run(2) obtain salt c2 c3 c4 where "codes = [201, c2, c3, c4]" "c2 = 409" "c3 = 401"
    "D = [''a@b.c'' \<mapsto> (salt, ''12345678'')]"
    by (auto simp: codes sample_calls_def seen_def up sample_input_def sample_login_def enrols_def accepts_def
        sample_kdf_def elim!: dir_runE split: if_splits)
  with run show ?thesis by auto
qed

end
