(* ===== verification/Spec2Isabelle.thy ===== *)
theory Spec2Isabelle
  imports Register_Race Front_Door Main_Program Concurrent Cache Timeout Web_Dev Cookies
    Api_Types Queries_Handle Migration_Files Settlement Directory
begin

text \<open>
  A model of the Go server of this repository (\<open>main.go\<close>, \<open>fs_prod.go\<close>, \<open>fs_dev.go\<close> and \<open>server/\<close>), with
  the properties that make it correct.

  \<^bold>\<open>The program.\<close>  \<open>main\<close> makes a logger, loads the configuration, sets the server up and serves until a
  signal comes.  \<open>server.Setup\<close> connects the database and Redis, makes the event bus, the WebSocket hub
  and the job queue with its email workers, subscribes the listeners that tie these together, and
  builds the router with its chain of middlewares.  A request goes through the chain to an endpoint:
  the auth module, health, the WebSocket upgrade, the frontend, the documentation.  A registration
  stores an account and emits two events; their listeners broadcast to the hub, publish a welcome job
  and start the write of an audit row.

  \<^bold>\<open>Theories and sources.\<close>  Paths are under \<open>server/\<close> unless they name another place.

  \<^item> \<open>Prelude\<close>, \<open>Go_Strings\<close>, \<open>Go_Format\<close>, \<open>Utf8\<close>, \<open>Base64\<close>: what the source uses of Go's standard
    library on byte strings, and the generic lemmas; the locale \<open>codec\<close> states what a printer and its
    parser owe each other, and is interpreted for each pair.
  \<^item> \<open>Http\<close>, \<open>Cookies\<close>, \<open>Handlers\<close>: \<open>internal/utils/http.go\<close>, \<open>internal/utils/utils.go\<close>, \<open>pkg/env.go\<close>.  A
    handler maps a request and a state with a response writer to a new state, or panics; the locale
    \<open>middleware\<close> is the contract of a wrapper around handlers.
  \<^item> \<open>Middlewares\<close>, \<open>Rate_Limit\<close>, \<open>Timeout\<close>: the files of \<open>internal/middlewares\<close>.
  \<^item> \<open>Logger\<close>, \<open>Password\<close>, \<open>Jwt\<close>: \<open>pkg/logger.go\<close>, \<open>pkg/password.go\<close>, \<open>pkg/jwt.go\<close>.
  \<^item> \<open>Json_String\<close>, \<open>Json\<close>, \<open>Json_Roundtrip\<close>, \<open>Wire\<close>: \<open>encoding/json\<close> as request bodies and jobs need it,
    and the struct tags of \<open>internal/modules/auth/auth.schema.go\<close> and \<open>internal/core/queue/queue.go\<close>.
  \<^item> \<open>Repository\<close>: the queries of \<open>internal/db/repository\<close> as functions on the tables with their
    constraints; the locale \<open>user_store\<close> is what the auth module relies on.  \<open>Schema\<close> has the tables from
    the migrations in \<open>internal/db/migrations\<close>, \<open>Sql\<close> the text of the eight statements with an engine
    that runs them on rows, \<open>Sql_Refinement\<close> the proof that the functions are these statements, and
    \<open>Queries_Handle\<close> the methods as \<open>db.go\<close> has them, over any handle that keeps the contract \<open>dbtx\<close>, as
    a transaction does until a failed statement aborts it.
  \<^item> \<open>Events\<close>: \<open>internal/core/events\<close>, with the contract \<open>pubsub\<close>.
  \<^item> \<open>Auth_Schema\<close>, \<open>Auth_Service\<close>, \<open>Auth_Properties\<close>, \<open>Auth_Security\<close>, \<open>Register_Race\<close>: the module
    \<open>internal/modules/auth\<close> and what it promises; the locale \<open>validatable\<close> is its side of the
    \<open>Validate\<close> middleware.  \<open>Directory\<close> is its abstract specification, a map from emails to what they
    are let in with, the answers a registration and a login may get, and the simulation; there an
    insert may also take effect and be reported as failed.
  \<^item> \<open>Realtime\<close>, \<open>Jobs\<close>: \<open>internal/core/realtime/hub.go\<close>, and \<open>internal/core/queue/queue.go\<close> with
    \<open>internal/core/workers\<close>, as step relations over the states of their goroutines.  The broker pushes
    jobs to the consumer's Go channel (\<open>inbox\<close>), from which the workers take them; when the connection
    is lost (\<open>ChannelClosed\<close>) what was delivered and not acknowledged goes back to the queue, the
    workers end, and nothing reconnects.
  \<^item> \<open>Cache\<close>, \<open>Health\<close>, \<open>Config\<close>: \<open>internal/core/cache/redis.go\<close>, \<open>internal/modules/health\<close>,
    \<open>config/config.go\<close>.
  \<^item> \<open>Web\<close>, \<open>Web_Dev\<close>, \<open>Migration_Files\<close>: \<open>fs_prod.go\<close>, \<open>fs_dev.go\<close> and the documentation handlers of
    \<open>server.go\<close>.
  \<^item> \<open>Api_Types\<close>: the TypeSpec documents \<open>docs/modules\<close> as types of JSON values.
  \<^item> \<open>Server_Events\<close>, \<open>Server\<close>, \<open>Routes\<close>, \<open>Serving\<close>, \<open>Main_Program\<close>: \<open>server.go\<close> and \<open>main.go\<close>: the
    listeners, set-up and shutdown, the routes in their order, one request through the chain, the
    process from start to exit code, or to the panic of the rate limiter's goroutine.
  \<^item> \<open>Middleware_Properties\<close>, \<open>Traffic\<close>, \<open>Front_Door\<close>, \<open>Whole_System\<close>, \<open>Concurrent\<close>, \<open>Settlement\<close>:
    what holds of the parts together.

  \<^bold>\<open>How state and operations correspond.\<close>  A struct is a record with the source's field names where they
  are free, a method a definition that takes the receiver and returns it changed; an \<open>error\<close> result
  is the left side of a sum, a panic the constructor \<open>Panic\<close>, \<open>Panicked\<close> or \<open>Crashed\<close> of the result.
  Strings are byte strings.  JSON bodies are kept as the values that are encoded (\<open>gov\<close>); \<open>Json\<close> gives
  their text.  What a library, the clock, the random source or the network decides is an argument, and
  what the code relies on in a library is a named hypothesis (\<open>needs_hijacker\<close>, \<open>uuid_codec\<close>, the laws of
  \<open>jwt_lib\<close>).  Goroutines are steps of an inductive relation.

  \<^bold>\<open>What the lemmas show.\<close>  Per component: the invariant of its state and that every operation keeps it,
  the outcome of every operation on every branch, the laws of the interface it provides.  Across
  components: \<open>Whole_System\<close> has the invariant of the running server under any interleaving of
  requests, audit writes, connections, workers and the limiter's ticks, for any ledger that matches
  accounts and welcome jobs (the locale \<open>ledger\<close>), and \<open>Concurrent\<close> splits \<open>Register\<close> into its steps, so
  that registrations overlap, and keeps the invariant with the ledger that knows the announcements
  still owed.  \<open>Settlement\<close> shows that the server's own work ends: the steps that finish registrations,
  write audit rows and run the workers decrease a measure (\<open>load\<close>), and where none is left, with the
  consumer's channel still open, everything taken on has been tried.  \<open>Directory\<close> shows that any list of
  registrations and logins is answered as the abstract directory allows, and \<open>Api_Types\<close> that what the
  endpoints answer is what the documents promise, each under the hypotheses its text names.

  \<^bold>\<open>Bounds and fuel.\<close>  Only the JSON parser takes fuel, twice the length of the text and one more, which
  \<open>parse_fuel\<close> shows to be enough; nesting is bounded by 10,000 as in the library.  Loops over text
  end because the text gets shorter.  Lengths and limits are those of the source: 256 places in the
  queue of a WebSocket client, columns of 50, 100 and 255 characters, 64-bit integers and durations.

  \<^bold>\<open>Not modelled.\<close>
  \<^item> Isolation between transactions: the contract \<open>dbtx\<close> speaks of the tables a handle sees.  A failed
    statement changes nothing, except in \<open>Directory\<close>, where an insert that took effect may be reported as
    failed (\<open>unconfirmed\<close>).
  \<^item> Publisher confirms, which the code does not ask for: a publication without an error is in the
    queue, where a real broker may lose it before it is stored.
  \<^item> The text of log records other than the access log's entries and the line for each incoming
    request.
  \<^item> Of the router, paths that are not clean (the router redirects them before it matches), templates
    in configured paths, and prefixes that end in a slash: \<open>Routes\<close> excludes them by hypothesis.
  \<^item> Of the file server, range and conditional requests and the headers \<open>Content-Length\<close>,
    \<open>Accept-Ranges\<close> and \<open>Last-Modified\<close>.
  \<^item> In \<open>Timeout\<close>, what the handler's goroutine writes after the middleware has returned: the model lets
    it be lost, while in the program it may still reach the client until the outermost handler
    returns.
  \<^item> The width of the limiter's counter, an integer of 64 bits that is counted without bound here.
  \<^item> Timeouts of \<open>http.Server\<close> and of contexts, which only turn into the faults the model takes as
    arguments; the TypeScript frontend and the build files.
\<close>

end
